(* ===== verification/Ucx_Prelude.thy ===== *)
theory Ucx_Prelude
  imports Main "HOL-Library.Word" "HOL-Library.Monad_Syntax" "HOL-Library.Multiset"
begin

text \<open>
  Shared vocabulary of the development: machine types, the status codes and request
  pointers of the UCX public interface, C integer conversions, the polling loop, and the
  resource protocol against which the traces of external calls are checked.
\<close>

section \<open>Collections of rewrite rules\<close>

named_theorems mem_simps \<open>behaviour of the C memory operations on valid arguments\<close>
named_theorems trace_simps \<open>calls appended to the trace by an operation\<close>
named_theorems frame_simps \<open>fields an operation leaves alone\<close>

section \<open>Machine types\<close>

type_synonym byte = "8 word"
type_synonym u16 = "16 word"
type_synonym u32 = "32 word"
type_synonym u64 = "64 word"

text \<open>Conversion of a mathematical integer to C \<open>int\<close> (32 bit) and \<open>long\<close> (64 bit).\<close>

definition c_int :: "int \<Rightarrow> int" where
  "c_int x = sint (word_of_int x :: 32 word)"

definition size_t :: "int \<Rightarrow> nat" where
  "size_t x = nat (x mod 2 ^ 64)"

lemma c_int_range: "- (2 ^ 31) \<le> c_int x \<and> c_int x < 2 ^ 31"
  using sint_range_size[of "word_of_int x :: 32 word"]
  by (simp add: c_int_def word_size)

lemma c_int_id [simp]: "- (2 ^ 31) \<le> x \<Longrightarrow> x < 2 ^ 31 \<Longrightarrow> c_int x = x"
  unfolding c_int_def sint_sbintrunc' by (rule signed_take_bit_int_eq_self) simp_all

lemma size_t_id [simp]: "0 \<le> x \<Longrightarrow> x < 2 ^ 64 \<Longrightarrow> size_t x = nat x"
  by (simp add: size_t_def)

lemma size_t_of_nat [simp]: "n < 2 ^ 64 \<Longrightarrow> size_t (int n) = n"
  by simp

section \<open>Status codes and request pointers of the UCX interface\<close>

text \<open>
  \<open>ucs_status_t\<close> is an enumeration whose values the sources also use as integers (casts,
  comparisons with 0, negative lengths). The names below are the public constants the sources
  mention; an error is a negative value.
\<close>

type_synonym ucs_status = int

abbreviation (input) UCS_OK :: ucs_status where "UCS_OK \<equiv> 0"
abbreviation (input) UCS_INPROGRESS :: ucs_status where "UCS_INPROGRESS \<equiv> 1"
abbreviation (input) UCS_ERR_NO_MESSAGE :: ucs_status where "UCS_ERR_NO_MESSAGE \<equiv> -1"
abbreviation (input) UCS_ERR_NO_RESOURCE :: ucs_status where "UCS_ERR_NO_RESOURCE \<equiv> -2"
abbreviation (input) UCS_ERR_IO_ERROR :: ucs_status where "UCS_ERR_IO_ERROR \<equiv> -3"
abbreviation (input) UCS_ERR_NO_MEMORY :: ucs_status where "UCS_ERR_NO_MEMORY \<equiv> -4"
abbreviation (input) UCS_ERR_INVALID_PARAM :: ucs_status where "UCS_ERR_INVALID_PARAM \<equiv> -5"
abbreviation (input) UCS_ERR_UNSUPPORTED :: ucs_status where "UCS_ERR_UNSUPPORTED \<equiv> -22"

text \<open>
  A non-blocking operation returns NULL (completed at once), an encoded error, or a request.
\<close>

datatype ucs_ptr = Ptr_NULL | Ptr_ERR ucs_status | Ptr_REQ nat

fun UCS_PTR_IS_ERR :: "ucs_ptr \<Rightarrow> bool" where
  "UCS_PTR_IS_ERR (Ptr_ERR _) = True"
| "UCS_PTR_IS_ERR _ = False"

fun UCS_PTR_IS_PTR :: "ucs_ptr \<Rightarrow> bool" where
  "UCS_PTR_IS_PTR (Ptr_REQ _) = True"
| "UCS_PTR_IS_PTR _ = False"

fun UCS_PTR_STATUS :: "ucs_ptr \<Rightarrow> ucs_status" where
  "UCS_PTR_STATUS Ptr_NULL = UCS_OK"
| "UCS_PTR_STATUS (Ptr_ERR st) = st"
| "UCS_PTR_STATUS (Ptr_REQ _) = UCS_INPROGRESS"

section \<open>The polling loop\<close>

text \<open>
  \<open>while (!done) progress\<close>: every wait of the sources has this shape and may run forever, so
  it takes fuel; \<open>None\<close> is "still polling after that many rounds".
\<close>

fun spin :: "nat \<Rightarrow> ('s \<Rightarrow> bool) \<Rightarrow> ('s \<Rightarrow> 's) \<Rightarrow> 's \<Rightarrow> 's option" where
  "spin 0 fin step s = (if fin s then Some s else None)"
| "spin (Suc n) fin step s = (if fin s then Some s else spin n fin step (step s))"

lemma spin_done [simp]: "fin s \<Longrightarrow> spin n fin step s = Some s"
  by (cases n) auto

lemma spin_Some_done: "spin n fin step s = Some t \<Longrightarrow> fin t"
  by (induction n arbitrary: s) (auto split: if_splits)

lemma spin_Some_iter:
  "spin n fin step s = Some t \<Longrightarrow>
     \<exists>k\<le>n. t = (step ^^ k) s \<and> (\<forall>i<k. \<not> fin ((step ^^ i) s))"
proof (induction n arbitrary: s)
  case 0
  then show ?case by (auto split: if_splits)
next
  case (Suc n)
  show ?case
  proof (cases "fin s")
    case True
    with Suc.prems show ?thesis by (intro exI[of _ 0]) auto
  next
    case False
    with Suc.prems have "spin n fin step (step s) = Some t" by simp
    from Suc.IH[OF this] obtain k where k: "k \<le> n" "t = (step ^^ k) (step s)"
      "\<forall>i<k. \<not> fin ((step ^^ i) (step s))" by blast
    then have "t = (step ^^ Suc k) s" by (simp add: funpow_swap1)
    moreover have "\<forall>i<Suc k. \<not> fin ((step ^^ i) s)"
    proof (intro allI impI)
      fix i assume "i < Suc k"
      with False k(3) show "\<not> fin ((step ^^ i) s)"
        by (cases i) (auto simp: funpow_swap1)
    qed
    ultimately show ?thesis using k(1) by (intro exI[of _ "Suc k"]) auto
  qed
qed

lemma spin_enough:
  assumes "fin ((step ^^ k) s)" and "k \<le> n"
  shows "\<exists>t. spin n fin step s = Some t"
  using assms
proof (induction n arbitrary: s k)
  case 0
  then show ?case by auto
next
  case (Suc n)
  show ?case
  proof (cases "fin s")
    case True
    then show ?thesis by simp
  next
    case False
    with Suc.prems obtain k' where k': "k = Suc k'" by (cases k) auto
    with Suc.prems have "fin ((step ^^ k') (step s))" "k' \<le> n"
      by (auto simp: funpow_swap1)
    from Suc.IH[OF this] False show ?thesis by simp
  qed
qed

lemma spin_mono:
  "spin n fin step s = Some t \<Longrightarrow> n \<le> m \<Longrightarrow> spin m fin step s = Some t"
proof (induction n arbitrary: s m)
  case 0
  then show ?case by (auto split: if_splits)
next
  case (Suc n)
  then obtain m' where m: "m = Suc m'" "n \<le> m'" by (cases m) auto
  with Suc show ?case by (auto split: if_splits)
qed

lemma spin_inv:
  assumes "spin n fin step s = Some t" and "P s" and "\<And>u. P u \<Longrightarrow> P (step u)"
  shows "P t"
  using assms(1,2)
  by (induction n arbitrary: s) (auto split: if_splits intro: assms(3))

text \<open>
  A library is progressed \<open>k\<close> times to no effect and then once with the events \<open>evs\<close>; \<open>prog\<close> is its
  progress function.
\<close>

fun arrives :: "('w \<Rightarrow> 'e list \<times> 'w) \<Rightarrow> nat \<Rightarrow> 'e list \<Rightarrow> 'w \<Rightarrow> 'w \<Rightarrow> bool" where
  "arrives prog 0 evs w w' \<longleftrightarrow> prog w = (evs, w')"
| "arrives prog (Suc k) evs w w' \<longleftrightarrow> (\<exists>w1. prog w = ([], w1) \<and> arrives prog k evs w1 w')"

text \<open>\<open>do x = body; while (again x)\<close>: the other shape of loop, with a result.\<close>

fun poll_until :: "nat \<Rightarrow> ('s \<Rightarrow> 'a \<times> 's) \<Rightarrow> ('a \<Rightarrow> bool) \<Rightarrow> 's \<Rightarrow> ('a \<times> 's) option" where
  "poll_until 0 body again s = None"
| "poll_until (Suc n) body again s =
     (let (x, s') = body s in if again x then poll_until n body again s' else Some (x, s'))"

lemma poll_until_Some_stop: "poll_until n body again s = Some (x, t) \<Longrightarrow> \<not> again x"
  by (induction n arbitrary: s) (auto split: prod.splits if_splits)

lemma poll_until_inv:
  assumes "poll_until n body again s = Some (x, t)" and "P s" and "\<And>u. P u \<Longrightarrow> P (snd (body u))"
  shows "P t"
  using assms(1,2)
proof (induction n arbitrary: s)
  case 0
  then show ?case by simp
next
  case (Suc n)
  from assms(3)[OF Suc.prems(2)] Suc show ?case
    by (auto simp: Let_def split: prod.splits if_splits)
qed

lemma poll_until_mono:
  "poll_until n body again s = Some r \<Longrightarrow> n \<le> m \<Longrightarrow> poll_until m body again s = Some r"
proof (induction n arbitrary: s m)
  case 0
  then show ?case by simp
next
  case (Suc n)
  then obtain m' where m: "m = Suc m'" "n \<le> m'" by (cases m) auto
  with Suc show ?case by (auto split: prod.splits if_splits)
qed

text \<open>Enough fuel: the first of the results that ends the loop is reached.\<close>

lemma poll_until_first:
  assumes "\<not> again (fst (body (((\<lambda>u. snd (body u)) ^^ k) s)))" "k < n"
  shows "\<exists>j\<le>k. (\<forall>i<j. again (fst (body (((\<lambda>u. snd (body u)) ^^ i) s)))) \<and>
     \<not> again (fst (body (((\<lambda>u. snd (body u)) ^^ j) s))) \<and> poll_until n body again s = Some (body (((\<lambda>u. snd (body u)) ^^ j) s))"
  using assms
proof (induction n arbitrary: s k)
  case 0
  then show ?case by simp
next
  case (Suc n)
  let ?f = "\<lambda>u. snd (body u)"
  show ?case
  proof (cases "again (fst (body s))")
    case False
    then show ?thesis by (intro exI[of _ 0]) (simp add: split_beta)
  next
    case True
    with Suc.prems obtain k' where k': "k = Suc k'" by (cases k) auto
    have sw: "(?f ^^ Suc i) s = (?f ^^ i) (?f s)" for i by (simp only: funpow_Suc_right comp_apply)
    from Suc.prems have "\<not> again (fst (body ((?f ^^ k') (?f s))))" "k' < n" unfolding k' sw by simp_all
    from Suc.IH[OF this] obtain j where j: "j \<le> k'" "\<forall>i<j. again (fst (body ((?f ^^ i) (?f s))))"
      "\<not> again (fst (body ((?f ^^ j) (?f s))))" "poll_until n body again (?f s) = Some (body ((?f ^^ j) (?f s)))" by blast
    have "again (fst (body ((?f ^^ i) s)))" if "i < Suc j" for i
      using that True j(2) by (cases i) (simp_all add: sw del: funpow.simps(2))
    with j True k' show ?thesis by (intro exI[of _ "Suc j"]) (simp add: split_beta sw del: funpow.simps(2))
  qed
qed

lemma poll_until_enough:
  assumes "\<not> again (fst (body (((\<lambda>u. snd (body u)) ^^ k) s)))" and "k < n"
  shows "\<exists>x t. poll_until n body again s = Some (x, t)"
  using assms
proof (induction n arbitrary: s k)
  case 0
  then show ?case by simp
next
  case (Suc n)
  obtain x s' where b: "body s = (x, s')" by (cases "body s")
  show ?case
  proof (cases "again x")
    case False
    with b show ?thesis by simp
  next
    case True
    with Suc.prems b obtain k' where k': "k = Suc k'" by (cases k) auto
    have "((\<lambda>u. snd (body u)) ^^ Suc k') s = ((\<lambda>u. snd (body u)) ^^ k') s'"
      using b by (simp add: funpow_Suc_right del: funpow.simps)
    with Suc.prems k' have "\<not> again (fst (body (((\<lambda>u. snd (body u)) ^^ k') s')))" "k' < n"
      by simp_all
    from Suc.IH[OF this] True b show ?thesis by simp
  qed
qed

section \<open>Resource protocol\<close>

text \<open>
  The external calls of a program form a trace. A call acquires at most one resource, or
  releases one. Running a trace over the multiset of live resources fails (\<open>None\<close>) when a
  resource that is not live is released; what is live at the end has leaked.
\<close>

fun run_trace :: "('c \<Rightarrow> 'r option) \<Rightarrow> ('c \<Rightarrow> 'r option) \<Rightarrow> 'r multiset \<Rightarrow> 'c list \<Rightarrow> 'r multiset option" where
  "run_trace acq rel rs [] = Some rs"
| "run_trace acq rel rs (c # cs) =
     (case rel c of
        Some r \<Rightarrow> if r \<in># rs then run_trace acq rel (rs - {#r#}) cs else None
      | None \<Rightarrow> (case acq c of
          Some r \<Rightarrow> run_trace acq rel (add_mset r rs) cs
        | None \<Rightarrow> run_trace acq rel rs cs))"

text \<open>\<open>P\<close> is consumed and \<open>Q\<close> produced by the trace, whatever else is live.\<close>

definition res_triple ::
  "('c \<Rightarrow> 'r option) \<Rightarrow> ('c \<Rightarrow> 'r option) \<Rightarrow> 'r multiset \<Rightarrow> 'c list \<Rightarrow> 'r multiset \<Rightarrow> bool" where
  "res_triple acq rel P t Q \<longleftrightarrow> (\<forall>R. run_trace acq rel (P + R) t = Some (Q + R))"

text \<open>A trace keeps its meaning inside a larger alphabet of calls and resources.\<close>

lemma run_trace_embed:
  assumes "\<And>c. acq' (g c) = map_option f (acq c)" "\<And>c. rel' (g c) = map_option f (rel c)"
    and "run_trace acq rel rs t = Some rs'"
  shows "run_trace acq' rel' (image_mset f rs + R) (map g t) = Some (image_mset f rs' + R)"
  using assms(3)
proof (induction t arbitrary: rs)
  case (Cons c t)
  show ?case
  proof (cases "rel c")
    case None
    with Cons show ?thesis by (cases "acq c") (force simp: assms(1,2))+
  next
    case (Some r)
    with Cons.prems have r: "r \<in># rs" "run_trace acq rel (rs - {#r#}) t = Some rs'"
      by (auto split: if_splits)
    from Cons.IH[OF r(2)] r(1) Some show ?thesis
      by (auto simp: assms(2) image_mset_Diff)
  qed
qed simp

lemma res_triple_embed:
  assumes "\<And>c. acq' (g c) = map_option f (acq c)" "\<And>c. rel' (g c) = map_option f (rel c)"
    and "res_triple acq rel {#} t Q"
  shows "res_triple acq' rel' P (map g t) (P + image_mset f Q)"
proof -
  have "run_trace acq rel {#} t = Some Q" using assms(3) by (metis add.right_neutral res_triple_def)
  from run_trace_embed[of acq' g f acq rel' rel, OF assms(1,2) this] show ?thesis
    by (simp add: res_triple_def ac_simps)
qed

locale resource_protocol =
  fixes acquires :: "'c \<Rightarrow> 'r option" and releases :: "'c \<Rightarrow> 'r option"
  assumes one_effect: "acquires c = None \<or> releases c = None"
begin

lemma run_append:
  "run_trace acquires releases rs (t @ u) =
     Option.bind (run_trace acquires releases rs t) (\<lambda>rs'. run_trace acquires releases rs' u)"
  by (induction t arbitrary: rs) (auto split: option.splits)

lemma triple_nil [intro]: "res_triple acquires releases P [] P"
  by (simp add: res_triple_def)

lemma triple_seq:
  "res_triple acquires releases P t Q \<Longrightarrow> res_triple acquires releases Q u S \<Longrightarrow>
     res_triple acquires releases P (t @ u) S"
  by (simp add: res_triple_def run_append)

lemma triple_frame:
  "res_triple acquires releases P t Q \<Longrightarrow> res_triple acquires releases (P + R) t (Q + R)"
  by (simp add: res_triple_def add.assoc)

lemma triple_acquire:
  assumes "acquires c = Some r"
  shows "res_triple acquires releases P [c] (add_mset r P)"
  using assms one_effect[of c] by (auto simp: res_triple_def)

lemma triple_release:
  assumes "releases c = Some r"
  shows "res_triple acquires releases (add_mset r P) [c] P"
  using assms by (simp add: res_triple_def)

lemma triple_neutral:
  assumes "releases c = None" and "acquires c = None"
  shows "res_triple acquires releases P [c] P"
  using assms by (simp add: res_triple_def)

lemma triple_cons:
  "res_triple acquires releases P [c] Q \<Longrightarrow> res_triple acquires releases Q u S \<Longrightarrow>
     res_triple acquires releases P (c # u) S"
  using triple_seq[of P "[c]" Q u S] by simp

lemma triple_run:
  "res_triple acquires releases P t Q \<Longrightarrow> run_trace acquires releases P t = Some Q"
  by (metis add.right_neutral res_triple_def)

end

text \<open>
  A program that keeps the trace of its calls in its state: from \<open>s\<close> to \<open>s'\<close> the calls turn the live
  resources \<open>P\<close> into \<open>Q\<close>.
\<close>

definition traced_triple :: "('c \<Rightarrow> 'r option) \<Rightarrow> ('c \<Rightarrow> 'r option) \<Rightarrow> ('s \<Rightarrow> 'c list) \<Rightarrow>
    'r multiset \<Rightarrow> 's \<Rightarrow> 's \<Rightarrow> 'r multiset \<Rightarrow> bool" where
  "traced_triple acq rel tr P s s' Q \<longleftrightarrow> (\<exists>t. tr s' = tr s @ t \<and> res_triple acq rel P t Q)"

locale traced_program = resource_protocol acquires releases
  for acquires :: "'c \<Rightarrow> 'r option" and releases :: "'c \<Rightarrow> 'r option" +
  fixes trace_of :: "'s \<Rightarrow> 'c list"
begin

lemma st_same: "trace_of s' = trace_of s \<Longrightarrow> traced_triple acquires releases trace_of P s s' P"
  by (auto simp: traced_triple_def intro: triple_nil)

lemma st_refl: "traced_triple acquires releases trace_of P s s P"
  by (rule st_same) simp

lemma st_trans:
  assumes "traced_triple acquires releases trace_of P s s' Q" "traced_triple acquires releases trace_of Q s' s'' R"
  shows "traced_triple acquires releases trace_of P s s'' R"
proof -
  from assms obtain t u where "trace_of s' = trace_of s @ t" "res_triple acquires releases P t Q"
    "trace_of s'' = trace_of s' @ u" "res_triple acquires releases Q u R"
    by (auto simp: traced_triple_def)
  then show ?thesis
    unfolding traced_triple_def by (intro exI[of _ "t @ u"]) (auto intro: triple_seq)
qed

lemma st_frame:
  "traced_triple acquires releases trace_of P s s' Q \<Longrightarrow> traced_triple acquires releases trace_of (P + R) s s' (Q + R)"
  unfolding traced_triple_def by (blast intro: triple_frame)

lemma st_release:
  "releases c = Some r \<Longrightarrow> trace_of s' = trace_of s @ [c] \<Longrightarrow> traced_triple acquires releases trace_of (add_mset r P) s s' P"
  using triple_release by (auto simp: traced_triple_def)

lemma st_acquire:
  "acquires c = Some r \<Longrightarrow> trace_of s' = trace_of s @ [c] \<Longrightarrow> traced_triple acquires releases trace_of P s s' (add_mset r P)"
  using triple_acquire by (auto simp: traced_triple_def)

lemma st_neutral:
  "releases c = None \<Longrightarrow> acquires c = None \<Longrightarrow> trace_of s' = trace_of s @ [c] \<Longrightarrow>
     traced_triple acquires releases trace_of P s s' P"
  using triple_neutral by (auto simp: traced_triple_def)

lemma st_run: "traced_triple acquires releases trace_of P s s' Q \<Longrightarrow> trace_of s = [] \<Longrightarrow>
     run_trace acquires releases P (trace_of s') = Some Q"
  unfolding traced_triple_def by (auto dest: triple_run)

end

end
