(* ===== verification/C_Lib.thy ===== *)
theory C_Lib
  imports Ucx_Prelude
begin

text \<open>
  The functions of the C library that the command-line and address code calls: \<open>strtol\<close> and
  the \<open>atoi\<close>/\<open>atol\<close> built on it, \<open>strcasecmp\<close>, \<open>getopt\<close> (with the permutation of operands
  of the GNU library), \<open>snprintf\<close> of an unsigned number, \<open>htons\<close> and \<open>ntohs\<close>.
\<close>

unbundle bit_operations_syntax

section \<open>Numbers in strings\<close>

definition is_space :: "char \<Rightarrow> bool" where
  "is_space c = (of_char c \<in> {9, 10, 11, 12, 13, 32 :: nat})"

definition is_digit :: "char \<Rightarrow> bool" where
  "is_digit c = (48 \<le> (of_char c :: nat) \<and> (of_char c :: nat) \<le> 57)"

definition digit_val :: "char \<Rightarrow> nat" where
  "digit_val c = of_char c - 48"

definition digits_val :: "string \<Rightarrow> nat" where
  "digits_val ds = foldl (\<lambda>a c. 10 * a + digit_val c) 0 ds"

definition clamp_long :: "int \<Rightarrow> int" where
  "clamp_long x = max (- (2 ^ 63)) (min (2 ^ 63 - 1) x)"

text \<open>\<open>strtol (s, NULL, 10)\<close>: leading space, a sign, digits; saturating.\<close>

definition strtol :: "string \<Rightarrow> int" where
  "strtol s =
     (let s = dropWhile is_space s in
      case s of
        [] \<Rightarrow> 0
      | c # r \<Rightarrow>
          if c = CHR ''-'' then clamp_long (- int (digits_val (takeWhile is_digit r)))
          else if c = CHR ''+'' then clamp_long (int (digits_val (takeWhile is_digit r)))
          else clamp_long (int (digits_val (takeWhile is_digit s))))"

text \<open>
  \<open>strtoul\<close> and \<open>strtoull\<close> in base 10: saturating at the largest 64-bit value, a minus sign
  negates modulo \<open>2 ^ 64\<close>.
\<close>

definition strtoul :: "string \<Rightarrow> int" where
  "strtoul s =
     (let s = dropWhile is_space s; v = (\<lambda>ds. min (2 ^ 64 - 1) (int (digits_val (takeWhile is_digit ds)))) in
      case s of
        [] \<Rightarrow> 0
      | c # r \<Rightarrow> if c = CHR ''-'' then
                    (if int (digits_val (takeWhile is_digit r)) > 2 ^ 64 - 1 then 2 ^ 64 - 1
                     else (- v r) mod 2 ^ 64)
                  else if c = CHR ''+'' then v r else v s)"

definition atol :: "string \<Rightarrow> int" where
  "atol s = strtol s"

definition atoi :: "string \<Rightarrow> int" where
  "atoi s = c_int (strtol s)"

definition digit_char :: "nat \<Rightarrow> char" where
  "digit_char d = char_of (48 + d)"

text \<open>\<open>%u\<close> (and \<open>%d\<close> of a non-negative number).\<close>

fun show_nat :: "nat \<Rightarrow> string" where
  "show_nat n = (if n < 10 then [digit_char n] else show_nat (n div 10) @ [digit_char (n mod 10)])"

declare show_nat.simps [simp del]

text \<open>\<open>snprintf (buf, max, ...)\<close> keeps at most \<open>max - 1\<close> characters.\<close>

definition snprintf_str :: "nat \<Rightarrow> string \<Rightarrow> string" where
  "snprintf_str max_size s = take (max_size - 1) s"

section \<open>Byte order and case\<close>

text \<open>The hosts are little-endian: network order swaps the two bytes.\<close>

definition htons :: "u16 \<Rightarrow> u16" where
  "htons p = push_bit 8 p OR drop_bit 8 p"

definition ntohs :: "u16 \<Rightarrow> u16" where
  "ntohs p = push_bit 8 p OR drop_bit 8 p"

definition to_lower :: "char \<Rightarrow> char" where
  "to_lower c = (if 65 \<le> (of_char c :: nat) \<and> (of_char c :: nat) \<le> 90 then char_of ((of_char c :: nat) + 32) else c)"

definition strcasecmp_eq :: "string \<Rightarrow> string \<Rightarrow> bool" where
  "strcasecmp_eq a b = (map to_lower a = map to_lower b)"

section \<open>Address families\<close>

datatype sa_family = AF_UNSPEC | AF_INET | AF_INET6

section \<open>getopt\<close>

text \<open>An option string as a map: \<open>Some True\<close> for an option with an argument.\<close>

fun opt_spec :: "string \<Rightarrow> char \<Rightarrow> bool option" where
  "opt_spec [] c = None"
| "opt_spec [a] c = (if a = c then Some False else None)"
| "opt_spec (a # b # r) c =
     (if a = c then Some (b = CHR '':'')
      else if b = CHR '':'' then opt_spec r c else opt_spec (b # r) c)"

text \<open>The options of one argument \<open>-xyz\<close>; an unknown option or a missing argument is \<open>?\<close>.\<close>

fun getopt_cluster :: "(char \<Rightarrow> bool option) \<Rightarrow> string \<Rightarrow> string list \<Rightarrow>
    (char \<times> string) list \<times> string list" where
  "getopt_cluster spec [] rest = ([], rest)"
| "getopt_cluster spec (c # cs) rest =
     (case (if c = CHR '':'' then None else spec c) of
        None \<Rightarrow> (let (os, rest) = getopt_cluster spec cs rest in ((CHR ''?'', []) # os, rest))
      | Some False \<Rightarrow> (let (os, rest) = getopt_cluster spec cs rest in ((c, []) # os, rest))
      | Some True \<Rightarrow>
          (if cs \<noteq> [] then ([(c, cs)], rest)
           else (case rest of [] \<Rightarrow> ([(CHR ''?'', [])], []) | a # rest \<Rightarrow> ([(c, a)], rest))))"

lemma getopt_cluster_shorter:
  "getopt_cluster spec cs rest = (os, rest') \<Longrightarrow> length rest' \<le> length rest"
  by (induction spec cs rest arbitrary: os rest' rule: getopt_cluster.induct)
     (fastforce split: option.splits bool.splits if_splits prod.splits list.splits)+

text \<open>The options in the order \<open>getopt\<close> returns them, and the operands that are left.\<close>

function getopt :: "(char \<Rightarrow> bool option) \<Rightarrow> string list \<Rightarrow> (char \<times> string) list \<times> string list" where
  "getopt spec [] = ([], [])"
| "getopt spec (a # rest) =
     (if a = ''--'' then ([], rest)
      else if hd (a @ '' '') = CHR ''-'' \<and> 1 < length a then
        (let (os, rest') = getopt_cluster spec (tl a) rest; (os', args) = getopt spec rest'
         in (os @ os', args))
      else (let (os, args) = getopt spec rest in (os, a # args)))"
  by pat_completeness auto
termination
  by (relation "measure (\<lambda>(spec, args). length args)")
     (auto dest!: getopt_cluster_shorter[OF sym] simp: less_Suc_eq_le)

section \<open>Lemmas\<close>

lemma of_char_digit_char: "d < 10 \<Longrightarrow> (of_char (digit_char d) :: nat) = 48 + d"
  by (simp add: digit_char_def)

lemma is_digit_digit_char [simp]: "d < 10 \<Longrightarrow> is_digit (digit_char d)"
  by (simp add: is_digit_def of_char_digit_char)

lemma digit_val_digit_char [simp]: "d < 10 \<Longrightarrow> digit_val (digit_char d) = d"
  by (simp add: digit_val_def of_char_digit_char)

lemma show_nat_digits: "list_all is_digit (show_nat n)"
proof (induction n rule: show_nat.induct)
  case (1 n)
  then show ?case by (subst show_nat.simps) auto
qed

lemma digits_val_show_nat: "digits_val (show_nat n) = n"
proof (induction n rule: show_nat.induct)
  case (1 n)
  show ?case
  proof (cases "n < 10")
    case True
    then show ?thesis by (subst show_nat.simps) (simp add: digits_val_def)
  next
    case False
    then have "digits_val (show_nat n) = 10 * digits_val (show_nat (n div 10)) + n mod 10"
      by (subst show_nat.simps) (simp add: digits_val_def)
    with 1 False show ?thesis by simp
  qed
qed

lemma show_nat_nonempty [simp]: "show_nat n \<noteq> []"
  by (subst show_nat.simps) simp

lemma length_show_nat: "n < 10 ^ Suc k \<Longrightarrow> length (show_nat n) \<le> Suc k"
proof (induction k arbitrary: n)
  case 0
  then show ?case by (subst show_nat.simps) simp
next
  case (Suc k)
  from Suc.prems have "n div 10 < 10 ^ Suc k"
    by (simp add: less_mult_imp_div_less mult.commute)
  from Suc.IH[OF this] show ?case by (subst show_nat.simps) simp
qed

lemma strtol_show_nat:
  assumes "n < 2 ^ 63"
  shows "strtol (show_nat n) = int n"
proof -
  obtain c r where cr: "show_nat n = c # r" by (cases "show_nat n") auto
  with show_nat_digits[of n] have d: "is_digit c" "list_all is_digit r" by simp_all
  then have c: "48 \<le> (of_char c :: nat)" "(of_char c :: nat) \<le> 57" by (simp_all add: is_digit_def)
  then have ns: "\<not> is_space c" "c \<noteq> CHR ''-''" "c \<noteq> CHR ''+''"
    by (auto simp: is_space_def)
  have tw: "takeWhile is_digit (show_nat n) = show_nat n"
    using show_nat_digits[of n] by (simp add: list_all_iff)
  have "clamp_long (int n) = int n" using assms by (simp add: clamp_long_def)
  with cr ns tw digits_val_show_nat[of n] show ?thesis
    by (simp add: strtol_def)
qed

lemma ntohs_htons [simp]: "ntohs (htons p) = p"
  by (rule bit_word_eqI) (auto simp: htons_def ntohs_def bit_simps)

lemma strtol_range: "- (2 ^ 63) \<le> strtol s \<and> strtol s < 2 ^ 63"
proof -
  have "- (2 ^ 63) \<le> clamp_long x \<and> clamp_long x < 2 ^ 63" for x
    by (simp add: clamp_long_def)
  then show ?thesis by (simp add: strtol_def Let_def split: list.splits)
qed

lemma atoi_range: "- (2 ^ 31) \<le> atoi s \<and> atoi s < 2 ^ 31"
  unfolding atoi_def by (rule c_int_range)

section \<open>Option loops\<close>

text \<open>
  Both command lines are read by a loop over the options \<open>getopt\<close> yields, in which one option either
  ends the program's parsing or updates the settings. What every option keeps, the loop keeps.
\<close>

locale option_loop =
  fixes opt_step :: "char \<Rightarrow> string \<Rightarrow> 'c \<Rightarrow> int + 'c"
    and opt_loop :: "(char \<times> string) list \<Rightarrow> 'c \<Rightarrow> int + 'c" and ok :: "'c \<Rightarrow> bool"
  assumes loop_Nil: "opt_loop [] x = Inr x"
    and loop_Cons: "opt_loop ((c, a) # os) x = (case opt_step c a x of Inl r \<Rightarrow> Inl r | Inr y \<Rightarrow> opt_loop os y)"
    and step_ok: "opt_step c a x = Inr y \<Longrightarrow> ok x \<Longrightarrow> ok y"
begin

lemma loop_ok: "opt_loop os x = Inr y \<Longrightarrow> ok x \<Longrightarrow> ok y"
proof (induction os arbitrary: x)
  case Nil
  then show ?case by (simp add: loop_Nil)
next
  case (Cons opt os)
  obtain c a where opt: "opt = (c, a)" by fastforce
  with Cons.prems show ?case by (auto simp: loop_Cons split: sum.splits intro: Cons.IH step_ok)
qed

lemma loop_append: "opt_loop (os @ os') x = (case opt_loop os x of Inl r \<Rightarrow> Inl r | Inr y \<Rightarrow> opt_loop os' y)"
proof (induction os arbitrary: x)
  case Nil
  then show ?case by (simp add: loop_Nil)
next
  case (Cons opt os)
  obtain c a where opt: "opt = (c, a)" by fastforce
  with Cons show ?case by (simp add: loop_Cons split: sum.splits)
qed

end

end
