(* ===== verification/C_Memory.thy ===== *)
theory C_Memory
  imports Ucx_Prelude
begin

text \<open>
  The part of the C memory model the programs rely on: \<open>malloc\<close>, \<open>calloc\<close>, \<open>free\<close>,
  \<open>memcpy\<close>, \<open>memset\<close> and the CUDA allocation and copy functions they call beside them.
  A heap is a map from block numbers to blocks of bytes. Allocation may fail (the oracle
  \<open>oom\<close> decides, attempt by attempt); the contents of a \<open>malloc\<close>ed block are whatever the
  oracle \<open>junk\<close> says. An operation that C leaves undefined records the first such event in
  \<open>fault\<close>: memory safety of a run is \<open>fault = None\<close> at its end.
\<close>

section \<open>Heaps\<close>

text \<open>\<open>MLib\<close> is host memory that a library allocated and lends to the program.\<close>

datatype mem_kind = MHost | MCuda | MManaged | MLib

datatype ptr = NULLp | Wild | Addr nat nat

datatype fault = NullDeref | WildDeref | UseAfterFree | OutOfBounds | DeviceAccess | BadFree
  | SignedOverflow | AssertFailed

record block =
  b_kind :: mem_kind
  b_bytes :: "byte list"

record heap =
  blocks :: "nat \<Rightarrow> block option"
  next_blk :: nat
  attempts :: nat
  oom :: "nat \<Rightarrow> bool"
  junk :: "nat \<Rightarrow> nat \<Rightarrow> byte"
  fault :: "fault option"

definition heap_wf :: "heap \<Rightarrow> bool" where
  "heap_wf h \<longleftrightarrow> (\<forall>b. blocks h b \<noteq> None \<longrightarrow> b < next_blk h)"

definition empty_heap :: "(nat \<Rightarrow> bool) \<Rightarrow> (nat \<Rightarrow> nat \<Rightarrow> byte) \<Rightarrow> heap" where
  "empty_heap fails jk = \<lparr>blocks = (\<lambda>_. None), next_blk = 1, attempts = 0, oom = fails, junk = jk,
     fault = None\<rparr>"

definition raise_fault :: "fault \<Rightarrow> heap \<Rightarrow> heap" where
  "raise_fault f h = (if fault h = None then h\<lparr>fault := Some f\<rparr> else h)"

definition faulted :: "heap \<Rightarrow> bool" where
  "faulted h \<longleftrightarrow> fault h \<noteq> None"

definition ptr_add :: "ptr \<Rightarrow> nat \<Rightarrow> ptr" where
  "ptr_add p n = (case p of Addr b off \<Rightarrow> Addr b (off + n) | _ \<Rightarrow> p)"

section \<open>Access\<close>

fun cpu_kind :: "mem_kind \<Rightarrow> bool" where
  "cpu_kind MHost = True"
| "cpu_kind MCuda = False"
| "cpu_kind MManaged = True"
| "cpu_kind MLib = True"

fun cuda_kind :: "mem_kind \<Rightarrow> bool" where
  "cuda_kind MCuda = True"
| "cuda_kind MManaged = True"
| "cuda_kind _ = False"

abbreviation any_kind :: "mem_kind \<Rightarrow> bool" where
  "any_kind \<equiv> (\<lambda>_. True)"

text \<open>What goes wrong when \<open>n\<close> bytes are accessed at a pointer, if anything.\<close>

definition access :: "(mem_kind \<Rightarrow> bool) \<Rightarrow> ptr \<Rightarrow> nat \<Rightarrow> heap \<Rightarrow> fault option" where
  "access ok p n h =
     (case p of
        NULLp \<Rightarrow> Some NullDeref
      | Wild \<Rightarrow> Some WildDeref
      | Addr b off \<Rightarrow>
          (case blocks h b of
             None \<Rightarrow> Some UseAfterFree
           | Some k \<Rightarrow> if \<not> ok (b_kind k) then Some DeviceAccess
                       else if off + n \<le> length (b_bytes k) then None else Some OutOfBounds))"

definition peek :: "ptr \<Rightarrow> nat \<Rightarrow> heap \<Rightarrow> byte list" where
  "peek p n h =
     (case p of Addr b off \<Rightarrow> (case blocks h b of Some k \<Rightarrow> take n (drop off (b_bytes k)) | None \<Rightarrow> [])
      | _ \<Rightarrow> [])"

definition load :: "(mem_kind \<Rightarrow> bool) \<Rightarrow> ptr \<Rightarrow> nat \<Rightarrow> heap \<Rightarrow> byte list \<times> heap" where
  "load ok p n h =
     (case access ok p n h of
        Some f \<Rightarrow> ([], raise_fault f h)
      | None \<Rightarrow> (peek p n h, h))"

definition splice :: "nat \<Rightarrow> 'a list \<Rightarrow> 'a list \<Rightarrow> 'a list" where
  "splice off bs xs = take off xs @ bs @ drop (off + length bs) xs"

definition poke :: "ptr \<Rightarrow> byte list \<Rightarrow> heap \<Rightarrow> heap" where
  "poke p bs h =
     (case p of
        Addr b off \<Rightarrow>
          (case blocks h b of
             Some k \<Rightarrow> h\<lparr>blocks := (blocks h)(b \<mapsto> k\<lparr>b_bytes := splice off bs (b_bytes k)\<rparr>)\<rparr>
           | None \<Rightarrow> h)
      | _ \<Rightarrow> h)"

definition store :: "(mem_kind \<Rightarrow> bool) \<Rightarrow> ptr \<Rightarrow> byte list \<Rightarrow> heap \<Rightarrow> heap" where
  "store ok p bs h =
     (case access ok p (length bs) h of
        Some f \<Rightarrow> raise_fault f h
      | None \<Rightarrow> poke p bs h)"

text \<open>\<open>memcpy\<close> runs on the CPU; \<open>cudaMemcpy\<close> with \<open>cudaMemcpyDefault\<close> reaches every kind.\<close>

definition copy_bytes :: "(mem_kind \<Rightarrow> bool) \<Rightarrow> ptr \<Rightarrow> ptr \<Rightarrow> nat \<Rightarrow> heap \<Rightarrow> heap" where
  "copy_bytes ok dst src n h =
     (case access ok src n h of
        Some f \<Rightarrow> raise_fault f h
      | None \<Rightarrow> store ok dst (peek src n h) h)"

abbreviation c_memcpy :: "ptr \<Rightarrow> ptr \<Rightarrow> nat \<Rightarrow> heap \<Rightarrow> heap" where
  "c_memcpy \<equiv> copy_bytes cpu_kind"

abbreviation cuda_memcpy :: "ptr \<Rightarrow> ptr \<Rightarrow> nat \<Rightarrow> heap \<Rightarrow> heap" where
  "cuda_memcpy \<equiv> copy_bytes any_kind"

section \<open>Allocation\<close>

definition alloc :: "mem_kind \<Rightarrow> byte list \<Rightarrow> heap \<Rightarrow> ptr option \<times> heap" where
  "alloc knd bs h =
     (if oom h (attempts h) then (None, h\<lparr>attempts := Suc (attempts h)\<rparr>)
      else (Some (Addr (next_blk h) 0),
            h\<lparr>attempts := Suc (attempts h),
              blocks := (blocks h)(next_blk h \<mapsto> \<lparr>b_kind = knd, b_bytes = bs\<rparr>),
              next_blk := Suc (next_blk h)\<rparr>))"

definition junk_bytes :: "nat \<Rightarrow> heap \<Rightarrow> byte list" where
  "junk_bytes n h = map (junk h (next_blk h)) [0..<n]"

definition ptr_or_NULL :: "ptr option \<Rightarrow> ptr" where
  "ptr_or_NULL r = (case r of Some p \<Rightarrow> p | None \<Rightarrow> NULLp)"

definition c_malloc :: "nat \<Rightarrow> heap \<Rightarrow> ptr \<times> heap" where
  "c_malloc n h = map_prod ptr_or_NULL id (alloc MHost (junk_bytes n h) h)"

definition c_calloc :: "nat \<Rightarrow> heap \<Rightarrow> ptr \<times> heap" where
  "c_calloc n h = map_prod ptr_or_NULL id (alloc MHost (replicate n 0) h)"

text \<open>
  \<open>cudaMalloc\<close> and \<open>cudaMallocManaged\<close> write the pointer through their first argument, and only
  when they succeed: \<open>old\<close> is what the pointer variable holds before.
\<close>

definition cuda_malloc :: "mem_kind \<Rightarrow> ptr \<Rightarrow> nat \<Rightarrow> heap \<Rightarrow> ptr \<times> heap" where
  "cuda_malloc knd old n h =
     (case alloc knd (junk_bytes n h) h of
        (Some p, h') \<Rightarrow> (p, h')
      | (None, h') \<Rightarrow> (old, h'))"

definition release_block :: "(mem_kind \<Rightarrow> bool) \<Rightarrow> ptr \<Rightarrow> heap \<Rightarrow> heap" where
  "release_block ok p h =
     (case p of
        NULLp \<Rightarrow> h
      | Wild \<Rightarrow> raise_fault BadFree h
      | Addr b off \<Rightarrow>
          (case blocks h b of
             None \<Rightarrow> raise_fault BadFree h
           | Some k \<Rightarrow> if off = 0 \<and> ok (b_kind k) then h\<lparr>blocks := (blocks h)(b := None)\<rparr>
                       else raise_fault BadFree h))"

definition c_free :: "ptr \<Rightarrow> heap \<Rightarrow> heap" where
  "c_free = release_block (\<lambda>k. k = MHost)"

text \<open>
  \<open>cudaFree\<close> of a pointer that no CUDA allocation returned reports an error and frees nothing;
  the sources print the error and go on.
\<close>

definition cuda_free :: "ptr \<Rightarrow> heap \<Rightarrow> heap" where
  "cuda_free p h =
     (case p of
        Addr b 0 \<Rightarrow> (case blocks h b of
            Some k \<Rightarrow> if cuda_kind (b_kind k) then h\<lparr>blocks := (blocks h)(b := None)\<rparr> else h
          | None \<Rightarrow> h)
      | _ \<Rightarrow> h)"

text \<open>
  Memory a library lends: \<open>lend\<close> is the library's own allocation (not an attempt of the program's
  allocator), \<open>reclaim\<close> its release, which only takes back what the library lent.
\<close>

definition lend :: "byte list \<Rightarrow> heap \<Rightarrow> nat \<times> heap" where
  "lend bs h = (next_blk h, h\<lparr>blocks := (blocks h)(next_blk h \<mapsto> \<lparr>b_kind = MLib, b_bytes = bs\<rparr>),
     next_blk := Suc (next_blk h)\<rparr>)"

definition reclaim :: "ptr \<Rightarrow> heap \<Rightarrow> heap" where
  "reclaim p h = (if p = NULLp then raise_fault BadFree h else release_block (\<lambda>k. k = MLib) p h)"

section \<open>Basic facts\<close>

lemma raise_fault_fields [simp]:
  "blocks (raise_fault f h) = blocks h" "next_blk (raise_fault f h) = next_blk h"
  "attempts (raise_fault f h) = attempts h" "oom (raise_fault f h) = oom h"
  "junk (raise_fault f h) = junk h"
  by (auto simp: raise_fault_def)

lemma raise_fault_faulted [simp]: "faulted (raise_fault f h)"
  by (auto simp: raise_fault_def faulted_def)

lemma raise_fault_keeps: "fault h = Some g \<Longrightarrow> fault (raise_fault f h) = Some g"
  by (simp add: raise_fault_def)

lemma raise_fault_first: "fault h = None \<Longrightarrow> fault (raise_fault f h) = Some f"
  by (simp add: raise_fault_def)

lemma poke_fields [simp]:
  "next_blk (poke p bs h) = next_blk h" "attempts (poke p bs h) = attempts h"
  "oom (poke p bs h) = oom h" "junk (poke p bs h) = junk h" "fault (poke p bs h) = fault h"
  by (auto simp: poke_def split: ptr.splits option.splits)

lemma access_Addr [mem_simps]:
  "blocks h b = Some k \<Longrightarrow> ok (b_kind k) \<Longrightarrow> off + n \<le> length (b_bytes k) \<Longrightarrow>
     access ok (Addr b off) n h = None"
  by (simp add: access_def)

lemma access_None_iff:
  "access ok p n h = None \<longleftrightarrow>
     (\<exists>b off k. p = Addr b off \<and> blocks h b = Some k \<and> ok (b_kind k) \<and>
        off + n \<le> length (b_bytes k))"
  by (auto simp: access_def split: ptr.splits option.splits if_splits)

lemma store_fields [simp]:
  "next_blk (store ok p bs h) = next_blk h" "attempts (store ok p bs h) = attempts h"
  "oom (store ok p bs h) = oom h" "junk (store ok p bs h) = junk h"
  by (auto simp: store_def split: option.splits)

lemma store_ok [mem_simps]:
  "access ok p (length bs) h = None \<Longrightarrow> store ok p bs h = poke p bs h"
  by (simp add: store_def)

lemma poke_faulted [simp]: "faulted (poke p bs h) = faulted h"
  by (simp add: faulted_def)

lemma store_faulted [simp]: "faulted h \<Longrightarrow> faulted (store ok p bs h)"
  by (auto simp: store_def split: option.splits)

lemma poke_Addr [mem_simps]:
  "blocks h b = Some k \<Longrightarrow>
     poke (Addr b off) bs h = h\<lparr>blocks := (blocks h)(b \<mapsto> k\<lparr>b_bytes := splice off bs (b_bytes k)\<rparr>)\<rparr>"
  by (simp add: poke_def)

lemma peek_Addr [mem_simps]:
  "blocks h b = Some k \<Longrightarrow> peek (Addr b off) n h = take n (drop off (b_bytes k))"
  by (simp add: peek_def)

lemma copy_bytes_ok [mem_simps]:
  "access ok src n h = None \<Longrightarrow> access ok dst n h = None \<Longrightarrow>
     copy_bytes ok dst src n h = poke dst (peek src n h) h"
  by (auto simp: copy_bytes_def store_def access_def peek_def split: ptr.splits option.splits if_splits)

lemma length_splice [simp]:
  "off + length bs \<le> length xs \<Longrightarrow> length (splice off bs xs) = length xs"
  by (simp add: splice_def)

lemma splice_same [simp]:
  "off + length bs \<le> length xs \<Longrightarrow> take (length bs) (drop off (splice off bs xs)) = bs"
  by (simp add: splice_def)

lemma splice_all: "length bs = length xs \<Longrightarrow> splice 0 bs xs = bs"
  by (simp add: splice_def)

lemma splice_snoc:
  "off + Suc (length bs) \<le> length xs \<Longrightarrow>
     splice (off + length bs) [x] (splice off bs xs) = splice off (bs @ [x]) xs"
  by (simp add: splice_def)

lemma poke_blocks_other:
  "p = Addr b off \<Longrightarrow> c \<noteq> b \<Longrightarrow> blocks (poke p bs h) c = blocks h c"
  by (auto simp: poke_def split: option.splits)

lemma dom_poke [simp]: "dom (blocks (poke p bs h)) = dom (blocks h)"
  by (auto simp: poke_def split: ptr.splits option.splits if_splits)

lemma poke_None_iff [simp]: "blocks (poke p bs h) b = None \<longleftrightarrow> blocks h b = None"
  by (auto simp: poke_def split: ptr.splits option.splits)

lemma heap_wf_fresh [simp]: "heap_wf h \<Longrightarrow> blocks h (next_blk h) = None"
  by (auto simp: heap_wf_def)

lemma heap_wf_poke [simp]: "heap_wf (poke p bs h) = heap_wf h"
  by (simp add: heap_wf_def)

lemma heap_wf_raise [simp]: "heap_wf (raise_fault f h) = heap_wf h"
  by (simp add: heap_wf_def)

lemma heap_wf_store [simp]: "heap_wf (store ok p bs h) = heap_wf h"
  by (auto simp: store_def split: option.splits)

lemma heap_wf_copy [simp]: "heap_wf (copy_bytes ok d s n h) = heap_wf h"
  by (auto simp: copy_bytes_def split: option.splits)

lemma copy_bytes_fields [simp]: "next_blk (copy_bytes ok d s n h) = next_blk h" "oom (copy_bytes ok d s n h) = oom h"
  by (auto simp: copy_bytes_def split: option.splits)

lemma heap_wf_empty [simp]: "heap_wf (empty_heap f j)"
  by (simp add: heap_wf_def empty_heap_def)

subsection \<open>Allocation and release\<close>

definition grown :: "mem_kind \<Rightarrow> byte list \<Rightarrow> heap \<Rightarrow> heap" where
  "grown knd bs h = h\<lparr>attempts := Suc (attempts h),
     blocks := (blocks h)(next_blk h \<mapsto> \<lparr>b_kind = knd, b_bytes = bs\<rparr>),
     next_blk := Suc (next_blk h)\<rparr>"

definition tried :: "heap \<Rightarrow> heap" where
  "tried h = h\<lparr>attempts := Suc (attempts h)\<rparr>"

lemma alloc_cases:
  "alloc knd bs h = (if oom h (attempts h) then (None, tried h)
                     else (Some (Addr (next_blk h) 0), grown knd bs h))"
  by (simp add: alloc_def grown_def tried_def)

lemma grown_fields [simp]:
  "blocks (grown knd bs h) = (blocks h)(next_blk h \<mapsto> \<lparr>b_kind = knd, b_bytes = bs\<rparr>)"
  "next_blk (grown knd bs h) = Suc (next_blk h)" "attempts (grown knd bs h) = Suc (attempts h)"
  "oom (grown knd bs h) = oom h" "junk (grown knd bs h) = junk h" "fault (grown knd bs h) = fault h"
  by (simp_all add: grown_def)

lemma tried_fields [simp]:
  "blocks (tried h) = blocks h" "next_blk (tried h) = next_blk h"
  "attempts (tried h) = Suc (attempts h)" "oom (tried h) = oom h" "junk (tried h) = junk h"
  "fault (tried h) = fault h"
  by (simp_all add: tried_def)

lemma heap_wf_grown [simp]: "heap_wf h \<Longrightarrow> heap_wf (grown knd bs h)"
  by (auto simp: heap_wf_def intro: less_SucI)

lemma heap_wf_tried [simp]: "heap_wf (tried h) = heap_wf h"
  by (simp add: heap_wf_def)

lemma c_malloc_cases:
  "c_malloc n h = (if oom h (attempts h) then (NULLp, tried h)
                   else (Addr (next_blk h) 0, grown MHost (junk_bytes n h) h))"
  by (simp add: c_malloc_def alloc_cases ptr_or_NULL_def)

lemma c_calloc_cases:
  "c_calloc n h = (if oom h (attempts h) then (NULLp, tried h)
                   else (Addr (next_blk h) 0, grown MHost (replicate n 0) h))"
  by (simp add: c_calloc_def alloc_cases ptr_or_NULL_def)

lemma cuda_malloc_cases:
  "cuda_malloc knd old n h = (if oom h (attempts h) then (old, tried h)
                   else (Addr (next_blk h) 0, grown knd (junk_bytes n h) h))"
  by (simp add: cuda_malloc_def alloc_cases)

lemma length_junk_bytes [simp]: "length (junk_bytes n h) = n"
  by (simp add: junk_bytes_def)

lemma c_free_NULL [simp]: "c_free NULLp h = h"
  by (simp add: c_free_def release_block_def)

lemma c_free_block [mem_simps]:
  "blocks h b = Some k \<Longrightarrow> b_kind k = MHost \<Longrightarrow>
     c_free (Addr b 0) h = h\<lparr>blocks := (blocks h)(b := None)\<rparr>"
  by (simp add: c_free_def release_block_def)

lemma cuda_free_block [mem_simps]:
  "blocks h b = Some k \<Longrightarrow> cuda_kind (b_kind k) \<Longrightarrow>
     cuda_free (Addr b 0) h = h\<lparr>blocks := (blocks h)(b := None)\<rparr>"
  by (simp add: cuda_free_def)

lemma c_free_fields [simp]:
  "next_blk (c_free p h) = next_blk h" "attempts (c_free p h) = attempts h"
  "oom (c_free p h) = oom h" "junk (c_free p h) = junk h"
  by (auto simp: c_free_def release_block_def split: ptr.splits option.splits)

lemma heap_wf_free [simp]: "heap_wf h \<Longrightarrow> heap_wf (c_free p h)"
  by (auto simp: c_free_def release_block_def heap_wf_def split: ptr.splits option.splits)

lemma heap_wf_cuda_free [simp]: "heap_wf h \<Longrightarrow> heap_wf (cuda_free p h)"
  by (auto simp: cuda_free_def heap_wf_def split: ptr.splits nat.splits option.splits)

lemma c_free_faulted [simp]: "faulted h \<Longrightarrow> faulted (c_free p h)"
  by (auto simp: c_free_def release_block_def split: ptr.splits option.splits)
     (auto simp: faulted_def)

lemma copy_bytes_faulted [simp]: "faulted h \<Longrightarrow> faulted (copy_bytes ok d s n h)"
  by (auto simp: copy_bytes_def split: option.splits)


section \<open>The shape of a heap\<close>

text \<open>Which blocks exist, of which kind and length: what writing into blocks cannot change.\<close>

definition shape :: "heap \<Rightarrow> nat \<Rightarrow> (mem_kind \<times> nat) option" where
  "shape h b = map_option (\<lambda>k. (b_kind k, length (b_bytes k))) (blocks h b)"

lemma shape_raise [simp]: "shape (raise_fault f h) = shape h"
  by (simp add: shape_def fun_eq_iff)

lemma shape_store [simp]: "shape (store ok p bs h) = shape h"
  by (auto simp: shape_def fun_eq_iff store_def access_None_iff poke_Addr split: option.splits)

lemma shape_copy [simp]: "shape (copy_bytes ok d s n h) = shape h"
  by (auto simp: copy_bytes_def split: option.splits)

lemma shape_blocks: "blocks h = blocks h' \<Longrightarrow> shape h = shape h'"
  by (simp add: shape_def fun_eq_iff)

lemma shape_attempts [simp]: "shape (h\<lparr>attempts := a\<rparr>) = shape h" "shape (tried h) = shape h"
  by (simp_all add: shape_def fun_eq_iff)

lemma shape_eq_SomeD:
  "shape h = shape h' \<Longrightarrow> blocks h b = Some k \<Longrightarrow>
     \<exists>k'. blocks h' b = Some k' \<and> b_kind k' = b_kind k \<and> length (b_bytes k') = length (b_bytes k)"
  unfolding shape_def fun_eq_iff by (drule spec[of _ b], cases "blocks h' b") auto

lemma heap_wf_shape: "shape h = shape h' \<Longrightarrow> next_blk h = next_blk h' \<Longrightarrow> heap_wf h = heap_wf h'"
proof -
  have "heap_wf g \<longleftrightarrow> (\<forall>b. shape g b \<noteq> None \<longrightarrow> b < next_blk g)" for g
    by (simp add: heap_wf_def shape_def)
  then show "shape h = shape h' \<Longrightarrow> next_blk h = next_blk h' \<Longrightarrow> heap_wf h = heap_wf h'" by simp
qed

section \<open>Allocators\<close>

text \<open>
  The contract between an allocation function and the release function that goes with it:
  allocation either yields a pointer that is inert (releasing it does nothing) or a fresh block of
  the right kind, which one release removes. Clients that keep a pool of allocations and release
  all of it leave the rest of the heap as it was.
\<close>

locale block_allocator =
  fixes alloc_fn :: "nat \<Rightarrow> heap \<Rightarrow> ptr \<times> heap" and free_fn :: "ptr \<Rightarrow> heap \<Rightarrow> heap"
    and knd :: mem_kind and inert :: "ptr \<Rightarrow> bool" and able :: bool
  assumes alloc_law: "alloc_fn n h = (p, h') \<Longrightarrow>
      (inert p \<and> (\<exists>a. h' = h\<lparr>attempts := a\<rparr>)) \<or>
      (able \<and> p = Addr (next_blk h) 0 \<and> (\<exists>bs. length bs = n \<and> h' = grown knd bs h))"
    and free_inert: "inert p \<Longrightarrow> free_fn p h = h"
    and free_block: "able \<Longrightarrow> blocks h b = Some k \<Longrightarrow> b_kind k = knd \<Longrightarrow>
      free_fn (Addr b 0) h = h\<lparr>blocks := (blocks h)(b := None)\<rparr>"
    and inert_not_Addr: "\<not> inert (Addr b off)"
    and inert_NULL: "inert NULLp"
begin

definition pool :: "nat \<Rightarrow> ptr list \<Rightarrow> heap \<Rightarrow> bool" where
  "pool n ps h \<longleftrightarrow> distinct (filter (\<lambda>p. \<not> inert p) ps) \<and>
     (\<forall>p\<in>set ps. inert p \<or> (able \<and> (\<exists>b. p = Addr b 0 \<and> shape h b = Some (knd, n))))"

definition rest :: "ptr list \<Rightarrow> heap \<Rightarrow> nat \<Rightarrow> (mem_kind \<times> nat) option" where
  "rest ps h b = (if Addr b 0 \<in> set ps then None else shape h b)"

lemma pool_shape: "shape h = shape h' \<Longrightarrow> pool n ps h = pool n ps h'"
  by (simp add: pool_def)

lemma rest_shape: "shape h = shape h' \<Longrightarrow> rest ps h = rest ps h'"
  by (simp add: rest_def fun_eq_iff)

lemma pool_Nil [simp]: "pool n [] h"
  by (simp add: pool_def)

lemma rest_Nil [simp]: "rest [] h = shape h"
  by (simp add: rest_def fun_eq_iff)

lemma pool_inert: "\<forall>p\<in>set qs. inert p \<Longrightarrow> pool n (ps @ qs) h = pool n ps h"
  unfolding pool_def by auto

lemma rest_inert: "\<forall>p\<in>set qs. inert p \<Longrightarrow> rest (ps @ qs) h = rest ps h"
  using inert_not_Addr by (auto simp: rest_def fun_eq_iff)

lemma pool_alloc:
  assumes "pool n ps h" "heap_wf h" "alloc_fn n h = (p, h')"
  shows "pool n (ps @ [p]) h'" "rest (ps @ [p]) h' = rest ps h" "heap_wf h'" "fault h' = fault h"
proof -
  from alloc_law[OF assms(3)] consider a where "inert p" "h' = h\<lparr>attempts := a\<rparr>"
    | bs where "able" "p = Addr (next_blk h) 0" "length bs = n" "h' = grown knd bs h" by blast
  then have "pool n (ps @ [p]) h' \<and> rest (ps @ [p]) h' = rest ps h \<and> heap_wf h' \<and> fault h' = fault h"
  proof cases
    case 1
    then have sh: "shape h' = shape h" by simp
    show ?thesis
      using 1 assms(1,2) pool_inert[of "[p]" n ps h'] rest_inert[of "[p]" ps h']
        pool_shape[OF sh, of n ps] rest_shape[OF sh, of ps]
      by (simp add: heap_wf_def)
  next
    case 2
    have sh: "shape h' = (shape h)(next_blk h \<mapsto> (knd, n))"
      using 2 by (auto simp: shape_def fun_eq_iff)
    have fresh: "shape h (next_blk h) = None" using assms(2) by (simp add: shape_def)
    then have new: "Addr (next_blk h) 0 \<notin> set ps"
      using assms(1) inert_not_Addr unfolding pool_def by force
    have "\<not> inert p" using 2 inert_not_Addr by simp
    then have "distinct (filter (\<lambda>q. \<not> inert q) (ps @ [p]))"
      using assms(1) 2(2) new by (simp add: pool_def)
    moreover have "\<forall>q\<in>set ps. inert q \<or> able \<and> (\<exists>b. q = Addr b 0 \<and> shape h' b = Some (knd, n))"
      using assms(1) fresh unfolding pool_def sh by fastforce
    ultimately have "pool n (ps @ [p]) h'"
      unfolding pool_def sh using 2(1,2) by auto
    moreover have "rest (ps @ [p]) h' = rest ps h"
      using 2 sh fresh by (auto simp: rest_def fun_eq_iff)
    ultimately show ?thesis using 2 assms(2) by simp
  qed
  then show "pool n (ps @ [p]) h'" "rest (ps @ [p]) h' = rest ps h" "heap_wf h'" "fault h' = fault h"
    by simp_all
qed

text \<open>Releasing the whole pool.\<close>

lemma free_pool:
  assumes "pool n ps h" "heap_wf h"
  shows "shape (fold free_fn ps h) = rest ps h \<and> fault (fold free_fn ps h) = fault h \<and>
     next_blk (fold free_fn ps h) = next_blk h \<and> heap_wf (fold free_fn ps h)"
  using assms
proof (induction ps arbitrary: h)
  case Nil
  then show ?case by simp
next
  case (Cons p ps)
  show ?case
  proof (cases "inert p")
    case True
    with Cons show ?thesis
      using inert_not_Addr by (auto simp: pool_def free_inert rest_def fun_eq_iff)
  next
    case False
    with Cons.prems(1) obtain b where b: "able" "p = Addr b 0" "shape h b = Some (knd, n)"
      by (auto simp: pool_def)
    then obtain k where k: "blocks h b = Some k" "b_kind k = knd" by (auto simp: shape_def)
    let ?h = "h\<lparr>blocks := (blocks h)(b := None)\<rparr>"
    have f: "free_fn p h = ?h" using free_block[OF b(1) k] b(2) by simp
    have sh: "shape ?h = (shape h)(b := None)" by (auto simp: shape_def fun_eq_iff)
    have "p \<notin> set ps" using Cons.prems(1) False by (auto simp: pool_def)
    then have "pool n ps ?h"
      using Cons.prems(1) b(2) unfolding pool_def sh by (auto split: if_splits)
    moreover have "heap_wf ?h" using Cons.prems(2) by (auto simp: heap_wf_def)
    ultimately have "shape (fold free_fn ps ?h) = rest ps ?h \<and> fault (fold free_fn ps ?h) = fault ?h \<and>
       next_blk (fold free_fn ps ?h) = next_blk ?h \<and> heap_wf (fold free_fn ps ?h)"
      by (rule Cons.IH)
    moreover have "rest ps ?h = rest (p # ps) h" using b(2) by (auto simp: rest_def sh fun_eq_iff)
    ultimately show ?thesis using f by simp
  qed
qed

end

end
