(* ===== verification/Hello_World_Util.thy ===== *)
theory Hello_World_Util
  imports C_Memory
begin

text \<open>
  The memory helpers of \<open>hello_world_util.h\<close>: allocation, release, copy and fill by memory
  type, the parsing of a memory type, and the generation of the test string in its three
  variants (\<open>03\<close>: \<open>size_t\<close> and \<open>malloc\<close>; \<open>01\<close>: \<open>int\<close> and \<open>calloc\<close>; \<open>02\<close>: the same with
  \<open>cudaMemcpy\<close>). \<open>hc\<close> is the compile-time switch \<open>HAVE_CUDA\<close>; \<open>tmt\<close> is the global
  \<open>test_mem_type\<close>.
\<close>

section \<open>Memory by type\<close>

datatype ucs_memory_type = UCS_MEMORY_TYPE_HOST | UCS_MEMORY_TYPE_CUDA
  | UCS_MEMORY_TYPE_CUDA_MANAGED | UCS_MEMORY_TYPE_LAST

definition mem_type_malloc :: "bool \<Rightarrow> ucs_memory_type \<Rightarrow> nat \<Rightarrow> heap \<Rightarrow> ptr \<times> heap" where
  "mem_type_malloc hc tmt len h =
     (case tmt of
        UCS_MEMORY_TYPE_HOST \<Rightarrow> c_malloc len h
      | UCS_MEMORY_TYPE_CUDA \<Rightarrow> if hc then cuda_malloc MCuda Wild len h else (NULLp, h)
      | UCS_MEMORY_TYPE_CUDA_MANAGED \<Rightarrow> if hc then cuda_malloc MManaged Wild len h else (NULLp, h)
      | _ \<Rightarrow> (NULLp, h))"

definition mem_type_free :: "bool \<Rightarrow> ucs_memory_type \<Rightarrow> ptr \<Rightarrow> heap \<Rightarrow> heap" where
  "mem_type_free hc tmt p h =
     (case tmt of
        UCS_MEMORY_TYPE_HOST \<Rightarrow> c_free p h
      | UCS_MEMORY_TYPE_CUDA \<Rightarrow> if hc then cuda_free p h else h
      | UCS_MEMORY_TYPE_CUDA_MANAGED \<Rightarrow> if hc then cuda_free p h else h
      | _ \<Rightarrow> h)"

definition mem_type_memcpy :: "bool \<Rightarrow> ucs_memory_type \<Rightarrow> ptr \<Rightarrow> ptr \<Rightarrow> nat \<Rightarrow> heap \<Rightarrow> heap" where
  "mem_type_memcpy hc tmt dst src n h =
     (case tmt of
        UCS_MEMORY_TYPE_HOST \<Rightarrow> c_memcpy dst src n h
      | UCS_MEMORY_TYPE_CUDA \<Rightarrow> if hc then cuda_memcpy dst src n h else h
      | UCS_MEMORY_TYPE_CUDA_MANAGED \<Rightarrow> if hc then cuda_memcpy dst src n h else h
      | _ \<Rightarrow> h)"

definition mem_type_memset :: "bool \<Rightarrow> ucs_memory_type \<Rightarrow> ptr \<Rightarrow> int \<Rightarrow> nat \<Rightarrow> heap \<Rightarrow> heap" where
  "mem_type_memset hc tmt dst v n h =
     (let bs = replicate n (word_of_int v :: byte) in
      case tmt of
        UCS_MEMORY_TYPE_HOST \<Rightarrow> store cpu_kind dst bs h
      | UCS_MEMORY_TYPE_CUDA \<Rightarrow> if hc then store any_kind dst bs h else h
      | UCS_MEMORY_TYPE_CUDA_MANAGED \<Rightarrow> if hc then store any_kind dst bs h else h
      | _ \<Rightarrow> h)"

text \<open>The argument \<open>mem_type\<close> is not looked at: the switch is on the global.\<close>

definition check_mem_type_support :: "bool \<Rightarrow> ucs_memory_type \<Rightarrow> ucs_memory_type \<Rightarrow> bool" where
  "check_mem_type_support hc tmt mem_type =
     (case tmt of
        UCS_MEMORY_TYPE_HOST \<Rightarrow> True
      | UCS_MEMORY_TYPE_CUDA \<Rightarrow> hc
      | UCS_MEMORY_TYPE_CUDA_MANAGED \<Rightarrow> hc
      | _ \<Rightarrow> False)"

definition parse_mem_type :: "bool \<Rightarrow> ucs_memory_type \<Rightarrow> string \<Rightarrow> ucs_memory_type" where
  "parse_mem_type hc tmt opt_arg =
     (if opt_arg = ''host'' then UCS_MEMORY_TYPE_HOST
      else if opt_arg = ''cuda'' \<and> check_mem_type_support hc tmt UCS_MEMORY_TYPE_CUDA
        then UCS_MEMORY_TYPE_CUDA
      else if opt_arg = ''cuda-managed'' \<and> check_mem_type_support hc tmt UCS_MEMORY_TYPE_CUDA_MANAGED
        then UCS_MEMORY_TYPE_CUDA_MANAGED
      else UCS_MEMORY_TYPE_LAST)"

definition print_common_help :: "bool \<Rightarrow> ucs_memory_type \<Rightarrow> string list" where
  "print_common_help hc tmt =
     [''  -p <port>     Set alternative server port (default:13337)'',
      ''  -6            Use IPv6 address in data exchange'',
      ''  -s <size>     Set test string length (default:16)'',
      ''  -m <mem type> Memory type of messages'',
      ''                host - system memory (default)''] @
     (if check_mem_type_support hc tmt UCS_MEMORY_TYPE_CUDA
      then [''                cuda - NVIDIA GPU memory''] else []) @
     (if check_mem_type_support hc tmt UCS_MEMORY_TYPE_CUDA_MANAGED
      then [''                cuda-managed - NVIDIA GPU managed/unified memory''] else [])"

section \<open>The test string\<close>

definition test_char :: "nat \<Rightarrow> byte" where
  "test_char i = of_nat (65 + i mod 26)"

text \<open>
  \<open>for (i = 0; i < bound; ++i) tmp_str[i] = 'A' + (i % 26)\<close> with a 32-bit signed \<open>i\<close>: the
  increment of the largest \<open>int\<close> is undefined.
\<close>

function fill_pattern :: "nat \<Rightarrow> nat \<Rightarrow> ptr \<Rightarrow> heap \<Rightarrow> heap" where
  "fill_pattern bound i p h =
     (if (2 :: int) ^ 31 \<le> int i then raise_fault SignedOverflow h
      else if i < bound
        then fill_pattern bound (Suc i) p (store cpu_kind (ptr_add p i) [test_char i] h)
      else h)"
  by pat_completeness auto
termination
  by (relation "measure (\<lambda>(bound, i, p, h). bound - i)") auto

declare fill_pattern.simps [simp del]

definition generate_test_string :: "bool \<Rightarrow> ucs_memory_type \<Rightarrow> ptr \<Rightarrow> nat \<Rightarrow> heap \<Rightarrow> int \<times> heap" where
  "generate_test_string hc tmt str sz h =
     (let (tmp_str, h) = c_malloc sz h in
      if tmp_str = NULLp then (-1, h)
      else let h = fill_pattern (size_t (int sz - 1)) 0 tmp_str h;
               h = mem_type_memcpy hc tmt str tmp_str sz h;
               h = c_free tmp_str h
           in (0, h))"

definition uct_generate_test_string ::
  "bool \<Rightarrow> ucs_memory_type \<Rightarrow> ptr \<Rightarrow> int \<Rightarrow> heap \<Rightarrow> int \<times> heap" where
  "uct_generate_test_string hc tmt str sz h =
     (let (tmp_str, h) = c_calloc (size_t sz) h in
      if tmp_str = NULLp then (-1, h)
      else let h = (if sz = - (2 ^ 31) then raise_fault SignedOverflow h
                        else fill_pattern (nat (sz - 1)) 0 tmp_str h);
               h = mem_type_memcpy hc tmt str tmp_str (size_t sz) h;
               h = c_free tmp_str h
           in (0, h))"

definition ucp_generate_test_string :: "ptr \<Rightarrow> int \<Rightarrow> heap \<Rightarrow> int \<times> heap" where
  "ucp_generate_test_string str sz h =
     (let (tmp_str, h) = c_calloc (size_t sz) h in
      if tmp_str = NULLp then (-1, h)
      else let h = (if sz = - (2 ^ 31) then raise_fault SignedOverflow h
                        else fill_pattern (nat (sz - 1)) 0 tmp_str h);
               h = cuda_memcpy str tmp_str (size_t sz) h;
               h = c_free tmp_str h
           in (0, h))"

section \<open>Lemmas\<close>

fun type_ok :: "ucs_memory_type \<Rightarrow> bool \<Rightarrow> bool" where
  "type_ok UCS_MEMORY_TYPE_HOST hc = True"
| "type_ok UCS_MEMORY_TYPE_CUDA hc = hc"
| "type_ok UCS_MEMORY_TYPE_CUDA_MANAGED hc = hc"
| "type_ok UCS_MEMORY_TYPE_LAST hc = False"

fun kind_of :: "ucs_memory_type \<Rightarrow> mem_kind" where
  "kind_of UCS_MEMORY_TYPE_CUDA = MCuda"
| "kind_of UCS_MEMORY_TYPE_CUDA_MANAGED = MManaged"
| "kind_of _ = MHost"

fun reach_of :: "ucs_memory_type \<Rightarrow> mem_kind \<Rightarrow> bool" where
  "reach_of UCS_MEMORY_TYPE_HOST = cpu_kind"
| "reach_of _ = any_kind"

lemma reach_of_kind [simp]: "reach_of tmt (kind_of tmt)" "reach_of tmt MHost"
  by (cases tmt; simp)+

lemma mem_type_malloc_ok:
  "type_ok tmt hc \<Longrightarrow> \<not> oom h (attempts h) \<Longrightarrow>
     mem_type_malloc hc tmt n h = (Addr (next_blk h) 0, grown (kind_of tmt) (junk_bytes n h) h)"
  by (cases tmt) (auto simp: mem_type_malloc_def c_malloc_cases cuda_malloc_cases)

lemma mem_type_memcpy_reach:
  "type_ok tmt hc \<Longrightarrow> mem_type_memcpy hc tmt dst src n h = copy_bytes (reach_of tmt) dst src n h"
  by (cases tmt) (auto simp: mem_type_memcpy_def)

lemma heap_wf_mem_type_memcpy [simp]: "heap_wf (mem_type_memcpy hc tmt d s n h) = heap_wf h"
  by (auto simp: mem_type_memcpy_def split: ucs_memory_type.splits)

lemma fill_pattern_faulted: "faulted h \<Longrightarrow> faulted (fill_pattern bound i p h)"
proof (induction bound i p h rule: fill_pattern.induct)
  case (1 bound i p h)
  then show ?case by (subst fill_pattern.simps) auto
qed

lemma fill_pattern_ok:
  assumes "blocks h b = Some k" "cpu_kind (b_kind k)" "i \<le> bound" "bound \<le> length (b_bytes k)"
    and "bound < 2 ^ 31"
  shows "fill_pattern bound i (Addr b 0) h =
     h\<lparr>blocks := (blocks h)(b \<mapsto> k\<lparr>b_bytes := splice i (map test_char [i..<bound]) (b_bytes k)\<rparr>)\<rparr>"
  using assms
proof (induction "bound - i" arbitrary: i h k)
  case 0
  then have "i = bound" by simp
  with 0 show ?case
    by (subst fill_pattern.simps) (auto simp: splice_def fun_upd_idem)
next
  case (Suc d)
  let ?k = "k\<lparr>b_bytes := splice i [test_char i] (b_bytes k)\<rparr>"
  let ?h = "h\<lparr>blocks := (blocks h)(b \<mapsto> ?k)\<rparr>"
  from Suc have lt: "i < bound" by simp
  have st: "store cpu_kind (ptr_add (Addr b 0) i) [test_char i] h = ?h"
    using Suc.prems lt by (simp add: ptr_add_def mem_simps)
  have IH: "fill_pattern bound (Suc i) (Addr b 0) ?h =
     ?h\<lparr>blocks := (blocks ?h)(b \<mapsto> ?k\<lparr>b_bytes := splice (Suc i) (map test_char [Suc i..<bound]) (b_bytes ?k)\<rparr>)\<rparr>"
    using Suc lt by (intro Suc.hyps(1)) auto
  have sp: "splice (Suc i) (map test_char [Suc i..<bound]) (splice i [test_char i] (b_bytes k))
     = splice i (map test_char [i..<bound]) (b_bytes k)"
    using lt Suc.prems(4) by (auto simp: less_iff_Suc_add splice_def upt_conv_Cons add.commute)
  show ?case
    using lt Suc.prems(5) by (subst fill_pattern.simps) (simp add: st IH sp)
qed

text \<open>What a test string of \<open>n\<close> characters looks like, given its last byte.\<close>

definition test_pattern :: "nat \<Rightarrow> byte \<Rightarrow> byte list" where
  "test_pattern n c = map test_char [0..<n - 1] @ [c]"

lemma length_test_pattern [simp]: "0 < n \<Longrightarrow> length (test_pattern n c) = n"
  by (simp add: test_pattern_def)

lemma test_char_nonzero [simp]: "test_char i \<noteq> 0"
proof -
  have "65 + i mod 26 < 256" using mod_less_divisor[of 26 i] by simp
  then have "unat (test_char i) = 65 + i mod 26"
    unfolding test_char_def unat_of_nat by (simp del: of_nat_add)
  then show ?thesis by auto
qed

lemma takeWhile_pattern: "takeWhile (\<lambda>c. c \<noteq> 0) (test_pattern n 0) = map test_char [0..<n - 1]"
  by (simp add: test_pattern_def takeWhile_append)

lemma splice_pattern:
  "0 < n \<Longrightarrow> length bs = n \<Longrightarrow>
     splice 0 (map test_char [0..<n - Suc 0]) bs = test_pattern n (bs ! (n - 1))"
  by (cases n) (auto simp: splice_def test_pattern_def Cons_nth_drop_Suc[symmetric])


text \<open>
  The copy out of the temporary buffer, common to the three variants: a fresh host block is
  filled, copied and released.
\<close>

lemma copy_from_temp:
  assumes wf: "heap_wf h" and n: "length bs = n" and dst: "blocks h b = Some k" "ok (b_kind k)"
      "off + n \<le> length (b_bytes k)" and host: "ok MHost"
  shows "c_free (Addr (next_blk h) 0) (copy_bytes ok (Addr b off) (Addr (next_blk h) 0) n (grown MHost bs h)) =
     h\<lparr>attempts := Suc (attempts h), next_blk := Suc (next_blk h),
       blocks := (blocks h)(b \<mapsto> k\<lparr>b_bytes := splice off bs (b_bytes k)\<rparr>)\<rparr>"
proof -
  let ?t = "next_blk h" and ?g = "grown MHost bs h"
  have ne: "b \<noteq> ?t" using wf dst(1) by auto
  have "access ok (Addr ?t 0) n ?g = None" using n host by (simp add: access_def)
  moreover have "access ok (Addr b off) n ?g = None" using dst ne by (simp add: access_def)
  ultimately have cp: "copy_bytes ok (Addr b off) (Addr ?t 0) n ?g = poke (Addr b off) bs ?g"
    using n by (simp add: copy_bytes_ok peek_def)
  have "poke (Addr b off) bs ?g =
      ?g\<lparr>blocks := (blocks ?g)(b \<mapsto> k\<lparr>b_bytes := splice off bs (b_bytes k)\<rparr>)\<rparr>"
    using dst ne by (simp add: poke_def)
  with cp show ?thesis
    using wf ne by (simp add: c_free_block) (simp add: grown_def fun_upd_twist fun_upd_idem)
qed

lemma fill_grown:
  assumes "0 < n" "n \<le> 2 ^ 31" "length bs = n"
  shows "fill_pattern (n - 1) 0 (Addr (next_blk h) 0) (grown MHost bs h) =
     grown MHost (test_pattern n (bs ! (n - 1))) h"
  using assms splice_pattern[of n bs]
  by (subst fill_pattern_ok) (auto simp: grown_def)

definition with_string :: "nat \<Rightarrow> nat \<Rightarrow> byte list \<Rightarrow> block \<Rightarrow> heap \<Rightarrow> heap" where
  "with_string b off bs k h = h\<lparr>attempts := Suc (attempts h), next_blk := Suc (next_blk h),
     blocks := (blocks h)(b \<mapsto> k\<lparr>b_bytes := splice off bs (b_bytes k)\<rparr>)\<rparr>"

lemma generate_test_string_ok:
  assumes "heap_wf h" "\<not> oom h (attempts h)" "0 < n" "n \<le> 2 ^ 31" "type_ok tmt hc"
    and "blocks h b = Some k" "reach_of tmt (b_kind k)" "off + n \<le> length (b_bytes k)"
  shows "generate_test_string hc tmt (Addr b off) n h =
     (0, with_string b off (test_pattern n (junk h (next_blk h) (n - 1))) k h)"
proof -
  have st: "size_t (int n - 1) = n - 1" using assms(3,4) by (simp add: size_t_def)
  show ?thesis
    unfolding generate_test_string_def with_string_def
    using assms fill_grown[OF assms(3,4), of "junk_bytes n h" h]
    by (simp add: c_malloc_cases mem_type_memcpy_reach st copy_from_temp)
       (simp add: junk_bytes_def)
qed

lemma uct_generate_test_string_ok:
  assumes "heap_wf h" "\<not> oom h (attempts h)" "0 < n" "n < 2 ^ 31" "type_ok tmt hc"
    and "blocks h b = Some k" "reach_of tmt (b_kind k)" "off + n \<le> length (b_bytes k)"
  shows "uct_generate_test_string hc tmt (Addr b off) (int n) h =
     (0, with_string b off (test_pattern n 0) k h)"
proof -
  have st: "nat (int n - 1) = n - 1" by simp
  show ?thesis
    unfolding uct_generate_test_string_def with_string_def
    using assms fill_grown[of n "replicate n 0" h]
    by (simp add: c_calloc_cases mem_type_memcpy_reach st copy_from_temp)
qed

lemma ucp_generate_test_string_ok:
  assumes "heap_wf h" "\<not> oom h (attempts h)" "0 < n" "n < 2 ^ 31"
    and "blocks h b = Some k" "off + n \<le> length (b_bytes k)"
  shows "ucp_generate_test_string (Addr b off) (int n) h =
     (0, with_string b off (test_pattern n 0) k h)"
proof -
  have st: "nat (int n - 1) = n - 1" by simp
  show ?thesis
    unfolding ucp_generate_test_string_def with_string_def
    using assms fill_grown[of n "replicate n 0" h]
    by (simp add: c_calloc_cases st copy_from_temp)
qed

lemma generate_test_string_oom:
  "oom h (attempts h) \<Longrightarrow> generate_test_string hc tmt str n h = (-1, tried h)"
  by (simp add: generate_test_string_def c_malloc_cases)

lemma fill_pattern_shape:
  "shape (fill_pattern bound i p h) = shape h \<and> next_blk (fill_pattern bound i p h) = next_blk h"
proof (induction bound i p h rule: fill_pattern.induct)
  case (1 bound i p h)
  then show ?case by (subst (1 2) fill_pattern.simps) auto
qed

lemma oom_fill_pattern [simp]: "oom (fill_pattern bound i p h) = oom h"
proof (induction bound i p h rule: fill_pattern.induct)
  case (1 bound i p h)
  then show ?case by (subst fill_pattern.simps) simp
qed

lemma fill_pattern_zero:
  assumes "blocks h b = Some k" "b_bytes k = []" "0 < bound"
  shows "faulted (fill_pattern bound 0 (Addr b 0) h)"
proof -
  have "faulted (store cpu_kind (ptr_add (Addr b 0) 0) [test_char 0] h)"
    using assms by (simp add: store_def access_def ptr_add_def)
  then show ?thesis
    using assms(3) fill_pattern_faulted by (subst fill_pattern.simps) simp
qed


section \<open>The allocator of the selected memory type\<close>

fun mt_inert :: "ucs_memory_type \<Rightarrow> ptr \<Rightarrow> bool" where
  "mt_inert tmt NULLp = True"
| "mt_inert tmt Wild = (tmt \<noteq> UCS_MEMORY_TYPE_HOST)"
| "mt_inert tmt (Addr b off) = False"

interpretation mt: block_allocator "mem_type_malloc hc tmt" "mem_type_free hc tmt" "kind_of tmt"
  "mt_inert tmt" "type_ok tmt hc" for hc tmt
proof
  fix n h p h' assume a: "mem_type_malloc hc tmt n h = (p, h')"
  have t: "\<exists>a. tried h = h\<lparr>attempts := a\<rparr>" unfolding tried_def by blast
  have u: "\<exists>a. h = h\<lparr>attempts := a\<rparr>" by (rule exI[of _ "attempts h"]) simp
  have g: "\<exists>bs. length bs = n \<and> grown K (junk_bytes n h) h = grown K bs h" for K
    by (rule exI[of _ "junk_bytes n h"]) simp
  show "(mt_inert tmt p \<and> (\<exists>a. h' = h\<lparr>attempts := a\<rparr>)) \<or>
      (type_ok tmt hc \<and> p = Addr (next_blk h) 0 \<and> (\<exists>bs. length bs = n \<and> h' = grown (kind_of tmt) bs h))"
    using a
    by (cases tmt) (simp_all add: mem_type_malloc_def c_malloc_cases cuda_malloc_cases t u g
                     split: if_splits, (metis t u g)+)
next
  fix p h assume "mt_inert tmt p"
  then show "mem_type_free hc tmt p h = h"
    by (cases p; cases tmt) (auto simp: mem_type_free_def cuda_free_def)
next
  fix h :: heap and b k assume "type_ok tmt hc" "blocks h b = Some k" "b_kind k = kind_of tmt"
  then show "mem_type_free hc tmt (Addr b 0) h = h\<lparr>blocks := (blocks h)(b := None)\<rparr>"
    by (cases tmt) (auto simp: mem_type_free_def mem_simps)
qed simp_all

lemma mem_type_malloc_NULL:
  "mem_type_malloc hc tmt n h = (NULLp, h') \<Longrightarrow> shape h' = shape h \<and> fault h' = fault h"
  by (auto simp: mem_type_malloc_def c_malloc_cases cuda_malloc_cases
           split: ucs_memory_type.splits if_splits)

end
