(* ===== verification/Cs_Config.thy ===== *)
theory Cs_Config
  imports C_Lib Hello_World_Util
begin

text \<open>
  \<open>ucp_client_server.c\<close>: the settings, the command line and the socket addresses. The static
  variables that only the command line writes are the record \<open>cs_config\<close>; \<open>have_cuda\<close> is the
  compile-time switch. \<open>inet_pton\<close> and \<open>inet_ntop\<close> belong to the network library and are
  parameters (\<open>pton\<close>, \<open>ntop\<close>).
\<close>

section \<open>Settings\<close>

record cs_config =
  test_string_length :: int
  iov_cnt :: int
  server_port :: u16
  ai_family :: sa_family
  num_iterations :: int
  test_mem_type :: ucs_memory_type
  have_cuda :: bool

type_synonym send_recv_type = nat

abbreviation (input) CLIENT_SERVER_SEND_RECV_STREAM :: send_recv_type where
  "CLIENT_SERVER_SEND_RECV_STREAM \<equiv> 1"
abbreviation (input) CLIENT_SERVER_SEND_RECV_TAG :: send_recv_type where
  "CLIENT_SERVER_SEND_RECV_TAG \<equiv> 2"
abbreviation (input) CLIENT_SERVER_SEND_RECV_AM :: send_recv_type where
  "CLIENT_SERVER_SEND_RECV_AM \<equiv> 4"
abbreviation (input) CLIENT_SERVER_SEND_RECV_DEFAULT :: send_recv_type where
  "CLIENT_SERVER_SEND_RECV_DEFAULT \<equiv> 1"

record cs_args =
  server_addr :: "string option"
  listen_addr :: "string option"
  comm_type :: send_recv_type

text \<open>The initial values of the static variables and of the locals of \<open>main\<close>.\<close>

definition cs_defaults :: "bool \<Rightarrow> cs_config" where
  "cs_defaults hc = \<lparr>test_string_length = 16, iov_cnt = 1, server_port = 13337, ai_family = AF_INET,
     num_iterations = 1, test_mem_type = UCS_MEMORY_TYPE_HOST, have_cuda = hc\<rparr>"

definition cs_args0 :: cs_args where
  "cs_args0 = \<lparr>server_addr = None, listen_addr = None, comm_type = CLIENT_SERVER_SEND_RECV_DEFAULT\<rparr>"

section \<open>The command line\<close>

definition parse_comm_type :: "string \<Rightarrow> send_recv_type" where
  "parse_comm_type optarg =
     (if strcasecmp_eq optarg ''stream'' then CLIENT_SERVER_SEND_RECV_STREAM
      else if strcasecmp_eq optarg ''tag'' then CLIENT_SERVER_SEND_RECV_TAG
      else if strcasecmp_eq optarg ''am'' then CLIENT_SERVER_SEND_RECV_AM
      else CLIENT_SERVER_SEND_RECV_DEFAULT)"

text \<open>One turn of the loop of \<open>parse_cmd\<close>: \<open>Inl\<close> is a return from the function.\<close>

definition cs_parse_opt :: "char \<Rightarrow> string \<Rightarrow> cs_config \<times> cs_args \<Rightarrow> int + cs_config \<times> cs_args" where
  "cs_parse_opt c optarg = (\<lambda>(cfg, args).
     if c = CHR ''a'' then Inr (cfg, args\<lparr>server_addr := Some optarg\<rparr>)
     else if c = CHR ''c'' then Inr (cfg, args\<lparr>comm_type := parse_comm_type optarg\<rparr>)
     else if c = CHR ''l'' then Inr (cfg, args\<lparr>listen_addr := Some optarg\<rparr>)
     else if c = CHR ''p'' then
       (let port = atoi optarg in
        if port < 0 \<or> port > 65535 then Inl (-1)
        else Inr (cfg\<lparr>server_port := word_of_int port\<rparr>, args))
     else if c = CHR ''6'' then Inr (cfg\<lparr>ai_family := AF_INET6\<rparr>, args)
     else if c = CHR ''i'' then Inr (cfg\<lparr>num_iterations := atoi optarg\<rparr>, args)
     else if c = CHR ''s'' then
       (let cfg = cfg\<lparr>test_string_length := atol optarg\<rparr> in
        if test_string_length cfg < 0 then Inl UCS_ERR_UNSUPPORTED else Inr (cfg, args))
     else if c = CHR ''v'' then
       (let cfg = cfg\<lparr>iov_cnt := atol optarg\<rparr> in
        if iov_cnt cfg \<le> 0 then Inl UCS_ERR_UNSUPPORTED else Inr (cfg, args))
     else if c = CHR ''m'' then
       (let cfg = cfg\<lparr>test_mem_type := parse_mem_type (have_cuda cfg) (test_mem_type cfg) optarg\<rparr> in
        if test_mem_type cfg = UCS_MEMORY_TYPE_LAST then Inl UCS_ERR_UNSUPPORTED
        else Inr (cfg, args))
     else Inl (-1))"

fun cs_parse_loop :: "(char \<times> string) list \<Rightarrow> cs_config \<times> cs_args \<Rightarrow> int + cs_config \<times> cs_args" where
  "cs_parse_loop [] st = Inr st"
| "cs_parse_loop ((c, optarg) # os) st =
     (case cs_parse_opt c optarg st of Inl ret \<Rightarrow> Inl ret | Inr st' \<Rightarrow> cs_parse_loop os st')"

definition cs_parse_cmd :: "bool \<Rightarrow> string list \<Rightarrow> int + cs_config \<times> cs_args" where
  "cs_parse_cmd hc argv =
     cs_parse_loop (fst (getopt (opt_spec ''a:l:p:c:6i:s:v:m:h'') (drop 1 argv))) (cs_defaults hc, cs_args0)"

section \<open>Socket addresses\<close>

record sockaddr_storage =
  ss_family :: sa_family
  ss_addr :: "byte list"
  ss_port :: u16

fun addr_len :: "sa_family \<Rightarrow> nat" where
  "addr_len AF_INET = 4"
| "addr_len AF_INET6 = 16"
| "addr_len AF_UNSPEC = 0"

text \<open>
  The storage is zeroed first, so an address that \<open>inet_pton\<close> refuses leaves the wildcard
  address: the return value of \<open>inet_pton\<close> is not looked at.
\<close>

definition set_sock_addr ::
  "(sa_family \<Rightarrow> string \<Rightarrow> byte list option) \<Rightarrow> cs_config \<Rightarrow> string option \<Rightarrow> sockaddr_storage" where
  "set_sock_addr pton cfg address_str =
     (let af = ai_family cfg; any = replicate (addr_len af) 0;
          ip = (case address_str of
                  Some a \<Rightarrow> (case pton af a of Some bs \<Rightarrow> bs | None \<Rightarrow> any)
                | None \<Rightarrow> any)
      in case af of
           AF_INET \<Rightarrow> \<lparr>ss_family = AF_INET, ss_addr = ip, ss_port = htons (server_port cfg)\<rparr>
         | AF_INET6 \<Rightarrow> \<lparr>ss_family = AF_INET6, ss_addr = ip, ss_port = htons (server_port cfg)\<rparr>
         | AF_UNSPEC \<Rightarrow> \<lparr>ss_family = AF_UNSPEC, ss_addr = [], ss_port = 0\<rparr>)"

definition sockaddr_get_ip_str ::
  "(sa_family \<Rightarrow> byte list \<Rightarrow> string) \<Rightarrow> sockaddr_storage \<Rightarrow> nat \<Rightarrow> string" where
  "sockaddr_get_ip_str ntop sa max_size =
     (case ss_family sa of
        AF_INET \<Rightarrow> snprintf_str max_size (ntop AF_INET (ss_addr sa))
      | AF_INET6 \<Rightarrow> snprintf_str max_size (ntop AF_INET6 (ss_addr sa))
      | AF_UNSPEC \<Rightarrow> ''Invalid address family'')"

definition sockaddr_get_port_str :: "sockaddr_storage \<Rightarrow> nat \<Rightarrow> string" where
  "sockaddr_get_port_str sa max_size =
     (case ss_family sa of
        AF_INET \<Rightarrow> snprintf_str max_size (show_nat (unat (ntohs (ss_port sa))))
      | AF_INET6 \<Rightarrow> snprintf_str max_size (show_nat (unat (ntohs (ss_port sa))))
      | AF_UNSPEC \<Rightarrow> ''Invalid address family'')"

section \<open>Lemmas\<close>

lemma parse_mem_type_cases:
  "parse_mem_type hc tmt s = UCS_MEMORY_TYPE_LAST \<or> type_ok (parse_mem_type hc tmt s) True"
  by (simp add: parse_mem_type_def)

definition cs_config_ok :: "cs_config \<Rightarrow> bool" where
  "cs_config_ok cfg \<longleftrightarrow> 0 \<le> test_string_length cfg \<and> test_string_length cfg < 2 ^ 63 \<and>
     0 < iov_cnt cfg \<and> iov_cnt cfg < 2 ^ 63 \<and> - (2 ^ 31) \<le> num_iterations cfg \<and>
     num_iterations cfg < 2 ^ 31 \<and> test_mem_type cfg \<noteq> UCS_MEMORY_TYPE_LAST \<and>
     ai_family cfg \<noteq> AF_UNSPEC"

lemma cs_parse_opt_ok:
  assumes "cs_parse_opt c a (cfg, args) = Inr (cfg', args')" and "cs_config_ok cfg"
    and "comm_type args \<in> {1, 2, 4}"
  shows "cs_config_ok cfg' \<and> comm_type args' \<in> {1, 2, 4} \<and> have_cuda cfg' = have_cuda cfg"
  using assms strtol_range[of a] atoi_range[of a]
  by (auto simp: cs_parse_opt_def cs_config_ok_def atol_def parse_comm_type_def Let_def
           split: if_splits)

text \<open>The settings stay well-formed through the whole command line.\<close>

definition cs_settings_ok :: "bool \<Rightarrow> cs_config \<times> cs_args \<Rightarrow> bool" where
  "cs_settings_ok hc p \<longleftrightarrow> cs_config_ok (fst p) \<and> comm_type (snd p) \<in> {1, 2, 4} \<and> have_cuda (fst p) = hc"

interpretation cso: option_loop cs_parse_opt cs_parse_loop "cs_settings_ok hc" for hc
proof
  show "cs_parse_opt c a x = Inr y \<Longrightarrow> cs_settings_ok hc x \<Longrightarrow> cs_settings_ok hc y" for c a x y
    using cs_parse_opt_ok[of c a "fst x" "snd x" "fst y" "snd y"] by (simp add: cs_settings_ok_def)
qed simp_all

lemma cs_parse_cmd_ok:
  assumes "cs_parse_cmd hc argv = Inr p"
  shows "cs_settings_ok hc p"
proof -
  have "cs_settings_ok hc (cs_defaults hc, cs_args0)"
    by (simp add: cs_settings_ok_def cs_config_ok_def cs_defaults_def cs_args0_def)
  from cso.loop_ok[OF assms[unfolded cs_parse_cmd_def] this] show ?thesis .
qed

end
