(* ===== verification/Cs_Transfer.thy ===== *)
theory Cs_Transfer
  imports Cs_Config
begin

text \<open>
  \<open>ucp_client_server.c\<close>: buffers, callbacks and the three ways of exchanging one message
  (stream, tag matching, active messages).

  The UCP library is the record \<open>ucp_api\<close> of functions over its own state \<open>'w\<close>. A call
  returns its C result and the list of things the library does before it returns: bytes it writes
  into the program's memory, and callbacks it invokes. Callbacks are source functions; \<open>dispatch\<close>
  runs them. Every call the program makes is appended to \<open>cs_trace\<close>.
\<close>

section \<open>Data\<close>

record ucp_dt_iov =
  iov_buffer :: ptr
  iov_length :: nat

datatype op_attr = UCP_OP_ATTR_FIELD_CALLBACK | UCP_OP_ATTR_FIELD_DATATYPE
  | UCP_OP_ATTR_FIELD_USER_DATA | UCP_OP_ATTR_FIELD_FLAGS | UCP_OP_ATTR_FLAG_NO_IMM_CMPL

datatype cb_name = Cb_send | Cb_stream_recv | Cb_tag_recv | Cb_am_recv

datatype ucp_datatype = Dt_contig | Dt_iov

record ucp_request_param =
  op_attr_mask :: "op_attr set"
  param_cb :: "cb_name option"
  param_datatype :: ucp_datatype
  param_user_data :: nat
  param_waitall :: bool

datatype msg_ref = Msg_buffer ptr | Msg_iov "nat option"

datatype send_op = Stream_send | Tag_send u64 | Am_send nat

datatype recv_op = Stream_recv | Tag_recv u64 u64 | Am_recv_data nat

text \<open>The data argument of the active-message callback: the bytes, or a rendezvous descriptor.\<close>

datatype am_payload = Eager "byte list" | Rndv nat

text \<open>What the library does to the program.\<close>

datatype lib_event = Lib_write ptr "byte list" | Lib_cb cb_name "nat option"
  | Lib_am_data nat am_payload nat | Lib_conn_request nat | Lib_err nat ucs_status

datatype ucp_feature = UCP_FEATURE_STREAM | UCP_FEATURE_TAG | UCP_FEATURE_AM

record am_desc =
  complete :: bool
  is_rndv :: bool
  desc :: nat
  recv_buf :: "nat option"

record ucx_server_ctx =
  conn_request :: "nat option"
  listener :: nat

datatype cs_out = Out_iteration bool int | Out_message "byte list" | Out_fin bool
  | Out_conn_from string string | Out_listening string string | Out_waiting | Out_rejecting
  | Out_conn_error ucs_status | Out_err_cb ucs_status

datatype cs_call = C_init nat | C_cleanup nat | C_worker_create nat | C_worker_destroy nat
  | C_listener_create nat | C_listener_destroy nat | C_ep_create nat nat | C_ep_close nat
  | C_send send_op nat "byte list" ucs_ptr | C_recv recv_op nat "(ptr \<times> nat) list" ucs_ptr
  | C_close_request nat | C_request_free nat | C_set_am_handler nat nat | C_reject nat nat

record 'w cs =
  connection_closed :: bool
  am_data_desc :: am_desc
  cs_heap :: heap
  iovs :: "nat \<Rightarrow> ucp_dt_iov list option"
  ctxs :: "nat \<Rightarrow> bool option"
  next_id :: nat
  srv_ctx :: ucx_server_ctx
  cs_trace :: "cs_call list"
  cs_out :: "cs_out list"
  world :: 'w

record 'w ucp_api =
  api_progress :: "nat \<Rightarrow> 'w \<Rightarrow> lib_event list \<times> 'w"
  api_send :: "send_op \<Rightarrow> nat \<Rightarrow> byte list \<Rightarrow> ucp_request_param \<Rightarrow> 'w \<Rightarrow> ucs_ptr \<times> lib_event list \<times> 'w"
  api_recv :: "recv_op \<Rightarrow> nat \<Rightarrow> (ptr \<times> nat) list \<Rightarrow> ucp_request_param \<Rightarrow> 'w \<Rightarrow> ucs_ptr \<times> lib_event list \<times> 'w"
  api_check_status :: "nat \<Rightarrow> 'w \<Rightarrow> ucs_status \<times> 'w"
  api_init :: "ucp_feature \<Rightarrow> 'w \<Rightarrow> ucs_status \<times> nat \<times> 'w"
  api_worker_create :: "nat \<Rightarrow> 'w \<Rightarrow> ucs_status \<times> nat \<times> 'w"
  api_set_am_handler :: "nat \<Rightarrow> nat \<Rightarrow> 'w \<Rightarrow> ucs_status \<times> 'w"
  api_ep_connect :: "nat \<Rightarrow> sockaddr_storage \<Rightarrow> 'w \<Rightarrow> ucs_status \<times> nat \<times> 'w"
  api_ep_accept :: "nat \<Rightarrow> nat \<Rightarrow> 'w \<Rightarrow> ucs_status \<times> nat \<times> 'w"
  api_ep_close :: "nat \<Rightarrow> bool \<Rightarrow> 'w \<Rightarrow> ucs_ptr \<times> lib_event list \<times> 'w"
  api_listener_create :: "nat \<Rightarrow> sockaddr_storage \<Rightarrow> 'w \<Rightarrow> ucs_status \<times> nat \<times> 'w"
  api_listener_query :: "nat \<Rightarrow> 'w \<Rightarrow> ucs_status \<times> sockaddr_storage \<times> 'w"
  api_conn_query :: "nat \<Rightarrow> 'w \<Rightarrow> ucs_status \<times> sockaddr_storage \<times> 'w"
  api_reject :: "nat \<Rightarrow> nat \<Rightarrow> 'w \<Rightarrow> ucs_status \<times> 'w"
  net_pton :: "sa_family \<Rightarrow> string \<Rightarrow> byte list option"
  net_ntop :: "sa_family \<Rightarrow> byte list \<Rightarrow> string"

section \<open>Memory of the program\<close>

definition on_heap :: "(heap \<Rightarrow> heap) \<Rightarrow> 'w cs \<Rightarrow> 'w cs" where
  "on_heap f s = s\<lparr>cs_heap := f (cs_heap s)\<rparr>"

definition cs_fault :: "fault \<Rightarrow> 'w cs \<Rightarrow> 'w cs" where
  "cs_fault f = on_heap (raise_fault f)"

text \<open>The result \<open>v\<close> of an operation on \<open>w\<close>-bit signed integers: leaving their range is undefined.\<close>

definition cs_signed :: "nat \<Rightarrow> int \<Rightarrow> 'w cs \<Rightarrow> 'w cs" where
  "cs_signed w v s = (if - (2 ^ (w - 1)) \<le> v \<and> v < 2 ^ (w - 1) then s else cs_fault SignedOverflow s)"

definition null_iov :: ucp_dt_iov where
  "null_iov = \<lparr>iov_buffer = NULLp, iov_length = 0\<rparr>"

definition iov_read :: "nat option \<Rightarrow> nat \<Rightarrow> 'w cs \<Rightarrow> ucp_dt_iov \<times> 'w cs" where
  "iov_read a i s =
     (case a of
        None \<Rightarrow> (null_iov, cs_fault NullDeref s)
      | Some d \<Rightarrow> (case iovs s d of
          None \<Rightarrow> (null_iov, cs_fault UseAfterFree s)
        | Some l \<Rightarrow> if i < length l then (l ! i, s) else (null_iov, cs_fault OutOfBounds s)))"

definition iov_write :: "nat option \<Rightarrow> nat \<Rightarrow> ucp_dt_iov \<Rightarrow> 'w cs \<Rightarrow> 'w cs" where
  "iov_write a i v s =
     (case a of
        None \<Rightarrow> cs_fault NullDeref s
      | Some d \<Rightarrow> (case iovs s d of
          None \<Rightarrow> cs_fault UseAfterFree s
        | Some l \<Rightarrow> if i < length l then s\<lparr>iovs := (iovs s)(d \<mapsto> l[i := v])\<rparr>
                    else cs_fault OutOfBounds s))"

definition n_iov :: "cs_config \<Rightarrow> nat" where
  "n_iov cfg = size_t (iov_cnt cfg)"

text \<open>
  \<open>malloc (iov_cnt * sizeof (ucp_dt_iov_t))\<close> (16 bytes an entry, the product wraps) and the
  \<open>memset\<close> that follows it.
\<close>

definition iov_alloc :: "cs_config \<Rightarrow> 'w cs \<Rightarrow> nat option \<times> 'w cs" where
  "iov_alloc cfg s =
     (let h = cs_heap s; n = size_t (iov_cnt cfg * 16) div 16 in
      if oom h (attempts h) then (None, cs_fault NullDeref (on_heap tried s))
      else (Some (next_id s),
            (on_heap tried s)\<lparr>iovs := (iovs s)(next_id s \<mapsto> replicate n null_iov),
                              next_id := Suc (next_id s)\<rparr>))"

definition iov_free :: "nat option \<Rightarrow> 'w cs \<Rightarrow> 'w cs" where
  "iov_free a s =
     (case a of
        None \<Rightarrow> s
      | Some d \<Rightarrow> (case iovs s d of
          None \<Rightarrow> cs_fault BadFree s
        | Some _ \<Rightarrow> s\<lparr>iovs := (iovs s)(d := None)\<rparr>))"

section \<open>Buffers\<close>

definition buffer_free :: "cs_config \<Rightarrow> nat option \<Rightarrow> 'w cs \<Rightarrow> 'w cs" where
  "buffer_free cfg iov s =
     iov_free iov
       (fold (\<lambda>idx s. let (v, s) = iov_read iov idx s
                      in on_heap (mem_type_free (have_cuda cfg) (test_mem_type cfg) (iov_buffer v)) s)
             [0..<n_iov cfg] s)"

fun buffer_malloc_from :: "cs_config \<Rightarrow> nat option \<Rightarrow> nat list \<Rightarrow> 'w cs \<Rightarrow> int \<times> 'w cs" where
  "buffer_malloc_from cfg iov [] s = (0, s)"
| "buffer_malloc_from cfg iov (idx # rest) s =
     (let len = size_t (test_string_length cfg);
          (p, h) = mem_type_malloc (have_cuda cfg) (test_mem_type cfg) len (cs_heap s);
          s = iov_write iov idx \<lparr>iov_buffer = p, iov_length = len\<rparr> (s\<lparr>cs_heap := h\<rparr>)
      in if p = NULLp then (-1, buffer_free cfg iov s)
         else buffer_malloc_from cfg iov rest s)"

definition buffer_malloc :: "cs_config \<Rightarrow> nat option \<Rightarrow> 'w cs \<Rightarrow> int \<times> 'w cs" where
  "buffer_malloc cfg iov s = buffer_malloc_from cfg iov [0..<n_iov cfg] s"

fun fill_buffer_from :: "cs_config \<Rightarrow> nat option \<Rightarrow> nat list \<Rightarrow> 'w cs \<Rightarrow> int \<times> 'w cs" where
  "fill_buffer_from cfg iov [] s = (0, s)"
| "fill_buffer_from cfg iov (idx # rest) s =
     (let (v, s) = iov_read iov idx s;
          (ret, h) = generate_test_string (have_cuda cfg) (test_mem_type cfg)
                       (iov_buffer v) (iov_length v) (cs_heap s);
          s = s\<lparr>cs_heap := h\<rparr>
      in if ret \<noteq> 0 then (-1, s) else fill_buffer_from cfg iov rest s)"

definition fill_buffer :: "cs_config \<Rightarrow> nat option \<Rightarrow> 'w cs \<Rightarrow> int \<times> 'w cs" where
  "fill_buffer cfg iov s = fill_buffer_from cfg iov [0..<n_iov cfg] s"

section \<open>Callbacks\<close>

definition common_cb :: "nat option \<Rightarrow> 'w cs \<Rightarrow> 'w cs" where
  "common_cb user_data s =
     (case user_data of
        None \<Rightarrow> s
      | Some c \<Rightarrow> (case ctxs s c of
          Some _ \<Rightarrow> s\<lparr>ctxs := (ctxs s)(c \<mapsto> True)\<rparr>
        | None \<Rightarrow> cs_fault UseAfterFree s))"

definition tag_recv_cb :: "nat option \<Rightarrow> 'w cs \<Rightarrow> 'w cs" where
  "tag_recv_cb user_data = common_cb user_data"

definition stream_recv_cb :: "nat option \<Rightarrow> 'w cs \<Rightarrow> 'w cs" where
  "stream_recv_cb user_data = common_cb user_data"

definition am_recv_cb :: "nat option \<Rightarrow> 'w cs \<Rightarrow> 'w cs" where
  "am_recv_cb user_data = common_cb user_data"

definition send_cb :: "nat option \<Rightarrow> 'w cs \<Rightarrow> 'w cs" where
  "send_cb user_data = common_cb user_data"

definition err_cb :: "nat \<Rightarrow> ucs_status \<Rightarrow> 'w cs \<Rightarrow> 'w cs" where
  "err_cb ep status s = s\<lparr>connection_closed := True, cs_out := cs_out s @ [Out_err_cb status]\<rparr>"

text \<open>\<open>mem_type_memcpy\<close> out of memory the library owns: the bytes are given.\<close>

definition mem_type_copy_in :: "cs_config \<Rightarrow> ptr \<Rightarrow> byte list \<Rightarrow> heap \<Rightarrow> heap" where
  "mem_type_copy_in cfg dst bs h =
     (if type_ok (test_mem_type cfg) (have_cuda cfg)
      then store (reach_of (test_mem_type cfg)) dst bs h else h)"

fun am_scatter :: "cs_config \<Rightarrow> nat option \<Rightarrow> nat list \<Rightarrow> byte list \<Rightarrow> 'w cs \<Rightarrow> 'w cs" where
  "am_scatter cfg iov [] bs s = s"
| "am_scatter cfg iov (idx # rest) bs s =
     (let (v, s) = iov_read iov idx s; n = iov_length v;
          s = (if n \<le> length bs then on_heap (mem_type_copy_in cfg (iov_buffer v) (take n bs)) s
               else cs_fault OutOfBounds s)
      in am_scatter cfg iov rest (drop n bs) s)"

definition ucp_am_data_cb ::
  "cs_config \<Rightarrow> nat \<Rightarrow> am_payload \<Rightarrow> nat \<Rightarrow> 'w cs \<Rightarrow> ucs_status \<times> 'w cs" where
  "ucp_am_data_cb cfg header_length data len s =
     (let expected = iov_cnt cfg * test_string_length cfg; s = cs_signed 64 expected s in
      if len \<noteq> size_t expected then (UCS_OK, s)
      else
        let d = (am_data_desc s)\<lparr>complete := True\<rparr> in
        case data of
          Rndv i \<Rightarrow> (UCS_INPROGRESS, s\<lparr>am_data_desc := d\<lparr>is_rndv := True, desc := i\<rparr>\<rparr>)
        | Eager bs \<Rightarrow>
            let s = s\<lparr>am_data_desc := d\<lparr>is_rndv := False\<rparr>\<rparr>
            in (UCS_OK, am_scatter cfg (recv_buf (am_data_desc s)) [0..<n_iov cfg] bs s))"

definition server_conn_handle_cb :: "'w ucp_api \<Rightarrow> nat \<Rightarrow> 'w cs \<Rightarrow> 'w cs" where
  "server_conn_handle_cb api req s =
     (let (status, addr, w) = api_conn_query api req (world s); s = s\<lparr>world := w\<rparr>;
          s = (if status = UCS_OK then
                 s\<lparr>cs_out := cs_out s @ [Out_conn_from (sockaddr_get_ip_str (net_ntop api) addr 50)
                                                       (sockaddr_get_port_str addr 8)]\<rparr>
               else if status \<noteq> UCS_ERR_UNSUPPORTED then
                 s\<lparr>cs_out := cs_out s @ [Out_conn_error status]\<rparr>
               else s)
      in if conn_request (srv_ctx s) = None
         then s\<lparr>srv_ctx := (srv_ctx s)\<lparr>conn_request := Some req\<rparr>\<rparr>
         else let l = listener (srv_ctx s); (status, w) = api_reject api l req (world s)
              in s\<lparr>world := w, cs_trace := cs_trace s @ [C_reject l req],
                   cs_out := cs_out s @ [Out_rejecting] @
                     (if status \<noteq> UCS_OK then [Out_conn_error status] else [])\<rparr>)"

fun dispatch :: "'w ucp_api \<Rightarrow> cs_config \<Rightarrow> lib_event \<Rightarrow> 'w cs \<Rightarrow> 'w cs" where
  "dispatch api cfg (Lib_write p bs) s = on_heap (store any_kind p bs) s"
| "dispatch api cfg (Lib_cb Cb_send u) s = send_cb u s"
| "dispatch api cfg (Lib_cb Cb_stream_recv u) s = stream_recv_cb u s"
| "dispatch api cfg (Lib_cb Cb_tag_recv u) s = tag_recv_cb u s"
| "dispatch api cfg (Lib_cb Cb_am_recv u) s = am_recv_cb u s"
| "dispatch api cfg (Lib_am_data hl data len) s = snd (ucp_am_data_cb cfg hl data len s)"
| "dispatch api cfg (Lib_conn_request r) s = server_conn_handle_cb api r s"
| "dispatch api cfg (Lib_err ep st) s = err_cb ep st s"

definition dispatch_all :: "'w ucp_api \<Rightarrow> cs_config \<Rightarrow> lib_event list \<Rightarrow> 'w cs \<Rightarrow> 'w cs" where
  "dispatch_all api cfg evs s = fold (dispatch api cfg) evs s"

definition ucp_worker_progress :: "'w ucp_api \<Rightarrow> cs_config \<Rightarrow> nat \<Rightarrow> 'w cs \<Rightarrow> 'w cs" where
  "ucp_worker_progress api cfg worker s =
     (let (evs, w) = api_progress api worker (world s) in dispatch_all api cfg evs (s\<lparr>world := w\<rparr>))"

section \<open>Output\<close>

text \<open>
  \<open>printf ("%.16s.")\<close>: the bytes up to a NUL, 16 at most; reading past the buffer is a fault.
\<close>

definition print_str16 :: "ptr \<Rightarrow> 'w cs \<Rightarrow> 'w cs" where
  "print_str16 p s =
     (let n = (case p of Addr b off \<Rightarrow> (case blocks (cs_heap s) b of
                  Some k \<Rightarrow> length (b_bytes k) - off | None \<Rightarrow> 0) | _ \<Rightarrow> 0);
          bs = peek p (min 16 n) (cs_heap s); txt = takeWhile (\<lambda>c. c \<noteq> 0) bs
      in if n < 16 \<and> length txt = length bs
         then cs_fault OutOfBounds (s\<lparr>cs_out := cs_out s @ [Out_message txt]\<rparr>)
         else s\<lparr>cs_out := cs_out s @ [Out_message txt]\<rparr>)"

definition print_iov :: "cs_config \<Rightarrow> nat option \<Rightarrow> 'w cs \<Rightarrow> 'w cs" where
  "print_iov cfg iov s =
     (let len = size_t (test_string_length cfg); (msg, h) = c_malloc len (cs_heap s);
          s = s\<lparr>cs_heap := h\<rparr>;
          s = fold (\<lambda>idx s. let (v, s) = iov_read iov idx s;
                                s = on_heap (mem_type_memcpy (have_cuda cfg) (test_mem_type cfg)
                                               msg (iov_buffer v) len) s
                            in print_str16 msg s)
                   [0..<n_iov cfg] s
      in on_heap (c_free msg) s)"

definition print_result :: "cs_config \<Rightarrow> bool \<Rightarrow> nat option \<Rightarrow> int \<Rightarrow> 'w cs \<Rightarrow> 'w cs" where
  "print_result cfg is_server iov current_iter s =
     (let s = cs_signed 32 (current_iter + 1) s
      in print_iov cfg iov (s\<lparr>cs_out := cs_out s @ [Out_iteration is_server (current_iter + 1)]\<rparr>))"

section \<open>Requests\<close>

definition ctx_complete :: "nat \<Rightarrow> 'w cs \<Rightarrow> bool" where
  "ctx_complete c s = (ctxs s c = Some True)"

definition ucp_request_check_status :: "'w ucp_api \<Rightarrow> nat \<Rightarrow> 'w cs \<Rightarrow> ucs_status \<times> 'w cs" where
  "ucp_request_check_status api r s =
     (let (st, w) = api_check_status api r (world s) in (st, s\<lparr>world := w\<rparr>))"

definition ucp_request_free :: "nat \<Rightarrow> 'w cs \<Rightarrow> 'w cs" where
  "ucp_request_free r s = s\<lparr>cs_trace := cs_trace s @ [C_request_free r]\<rparr>"

definition request_wait :: "nat \<Rightarrow> 'w ucp_api \<Rightarrow> cs_config \<Rightarrow> nat \<Rightarrow> ucs_ptr \<Rightarrow> nat \<Rightarrow> 'w cs \<Rightarrow>
    (ucs_status \<times> 'w cs) option" where
  "request_wait fuel api cfg worker request ctx s =
     (case request of
        Ptr_NULL \<Rightarrow> Some (UCS_OK, s)
      | Ptr_ERR st \<Rightarrow> Some (UCS_PTR_STATUS (Ptr_ERR st), s)
      | Ptr_REQ r \<Rightarrow> do {
          s \<leftarrow> spin fuel (ctx_complete ctx) (ucp_worker_progress api cfg worker) s;
          let (status, s) = ucp_request_check_status api r s;
          Some (status, ucp_request_free r s)
        })"

definition prints :: "cs_config \<Rightarrow> int \<Rightarrow> bool" where
  "prints cfg current_iter \<longleftrightarrow> current_iter = 0 \<or> current_iter = num_iterations cfg - 1 \<or>
     (current_iter + 1) mod 2000 = 0"

text \<open>The arithmetic of that condition, as far as it is evaluated.\<close>

definition prints_eval :: "cs_config \<Rightarrow> int \<Rightarrow> 'w cs \<Rightarrow> 'w cs" where
  "prints_eval cfg current_iter s =
     (if current_iter = 0 then s
      else let s = cs_signed 32 (num_iterations cfg - 1) s
           in if current_iter = num_iterations cfg - 1 then s else cs_signed 32 (current_iter + 1) s)"

definition request_finalize :: "nat \<Rightarrow> 'w ucp_api \<Rightarrow> cs_config \<Rightarrow> nat \<Rightarrow> ucs_ptr \<Rightarrow> nat \<Rightarrow> bool \<Rightarrow>
    nat option \<Rightarrow> int \<Rightarrow> 'w cs \<Rightarrow> (int \<times> 'w cs) option" where
  "request_finalize fuel api cfg worker request ctx is_server iov current_iter s = do {
     (status, s) \<leftarrow> request_wait fuel api cfg worker request ctx s;
     if status \<noteq> UCS_OK then Some (-1, buffer_free cfg iov s)
     else let s = prints_eval cfg current_iter s;
              s = (if prints cfg current_iter then print_result cfg is_server iov current_iter s else s)
          in Some (0, buffer_free cfg iov s)
   }"

definition fill_request_param :: "cs_config \<Rightarrow> nat option \<Rightarrow> bool \<Rightarrow> nat \<Rightarrow> 'w cs \<Rightarrow>
    (msg_ref \<times> nat \<times> ucp_request_param) option \<times> 'w cs" where
  "fill_request_param cfg iov is_client ctx s =
     (let (r, s) = buffer_malloc cfg iov s in
      if r \<noteq> 0 then (None, s)
      else let (r, s) = (if is_client then fill_buffer cfg iov s else (0, s)) in
      if r \<noteq> 0 then (None, buffer_free cfg iov s)
      else let (v, s) = (if iov_cnt cfg = 1 then iov_read iov 0 s else (null_iov, s));
               msg = (if iov_cnt cfg = 1 then Msg_buffer (iov_buffer v) else Msg_iov iov);
               msg_length = (if iov_cnt cfg = 1 then iov_length v else size_t (iov_cnt cfg));
               param = \<lparr>op_attr_mask = {UCP_OP_ATTR_FIELD_CALLBACK, UCP_OP_ATTR_FIELD_DATATYPE,
                          UCP_OP_ATTR_FIELD_USER_DATA},
                        param_cb = None,
                        param_datatype = (if iov_cnt cfg = 1 then Dt_contig else Dt_iov),
                        param_user_data = ctx, param_waitall = False\<rparr>
           in (Some (msg, msg_length, param), s\<lparr>ctxs := (ctxs s)(ctx \<mapsto> False)\<rparr>))"

section \<open>One message\<close>

text \<open>The memory a message descriptor stands for, and the bytes in it.\<close>

fun msg_targets :: "msg_ref \<Rightarrow> nat \<Rightarrow> 'w cs \<Rightarrow> (ptr \<times> nat) list" where
  "msg_targets (Msg_buffer p) len s = [(p, len)]"
| "msg_targets (Msg_iov a) cnt s =
     (case a of None \<Rightarrow> [] | Some d \<Rightarrow> (case iovs s d of None \<Rightarrow> []
        | Some l \<Rightarrow> map (\<lambda>v. (iov_buffer v, iov_length v)) (take cnt l)))"

fun read_targets :: "(ptr \<times> nat) list \<Rightarrow> heap \<Rightarrow> byte list \<times> heap" where
  "read_targets [] h = ([], h)"
| "read_targets ((p, n) # ts) h =
     (let (bs, h) = load any_kind p n h; (bs', h) = read_targets ts h in (bs @ bs', h))"

definition ucp_send_nbx :: "'w ucp_api \<Rightarrow> cs_config \<Rightarrow> send_op \<Rightarrow> nat \<Rightarrow> msg_ref \<Rightarrow> nat \<Rightarrow>
    ucp_request_param \<Rightarrow> 'w cs \<Rightarrow> ucs_ptr \<times> 'w cs" where
  "ucp_send_nbx api cfg op ep msg len param s =
     (let (bs, h) = read_targets (msg_targets msg len s) (cs_heap s);
          (r, evs, w) = api_send api op ep bs param (world s);
          s = s\<lparr>cs_heap := h, world := w, cs_trace := cs_trace s @ [C_send op ep bs r]\<rparr>
      in (r, dispatch_all api cfg evs s))"

definition ucp_recv_nbx :: "'w ucp_api \<Rightarrow> cs_config \<Rightarrow> recv_op \<Rightarrow> nat \<Rightarrow> msg_ref \<Rightarrow> nat \<Rightarrow>
    ucp_request_param \<Rightarrow> 'w cs \<Rightarrow> ucs_ptr \<times> 'w cs" where
  "ucp_recv_nbx api cfg op hnd msg len param s =
     (let ts = msg_targets msg len s;
          (r, evs, w) = api_recv api op hnd ts param (world s);
          s = s\<lparr>world := w, cs_trace := cs_trace s @ [C_recv op hnd ts r]\<rparr>
      in (r, dispatch_all api cfg evs s))"

abbreviation (input) TAG :: u64 where "TAG \<equiv> 0xCAFE"
abbreviation (input) TEST_AM_ID :: nat where "TEST_AM_ID \<equiv> 0"

text \<open>The \<open>test_req_t\<close> on the stack of a \<open>send_recv\<close> function, uninitialised at first.\<close>

definition push_ctx :: "'w cs \<Rightarrow> nat \<times> 'w cs" where
  "push_ctx s = (next_id s, s\<lparr>ctxs := (ctxs s)(next_id s \<mapsto> (junk (cs_heap s) (next_id s) 0 \<noteq> 0)),
                              next_id := Suc (next_id s)\<rparr>)"

definition pop_ctx :: "nat \<Rightarrow> 'w cs \<Rightarrow> 'w cs" where
  "pop_ctx c s = s\<lparr>ctxs := (ctxs s)(c := None)\<rparr>"

definition send_recv_stream :: "nat \<Rightarrow> 'w ucp_api \<Rightarrow> cs_config \<Rightarrow> nat \<Rightarrow> nat \<Rightarrow> bool \<Rightarrow> int \<Rightarrow> 'w cs \<Rightarrow>
    (int \<times> 'w cs) option" where
  "send_recv_stream fuel api cfg worker ep is_server current_iter s =
     (let (iov, s) = iov_alloc cfg s; (ctx, s) = push_ctx s;
          (fp, s) = fill_request_param cfg iov (\<not> is_server) ctx s
      in case fp of
           None \<Rightarrow> Some (-1, pop_ctx ctx s)
         | Some (msg, msg_length, param) \<Rightarrow> do {
             let (request, s) =
               (if \<not> is_server then
                  ucp_send_nbx api cfg Stream_send ep msg msg_length (param\<lparr>param_cb := Some Cb_send\<rparr>) s
                else
                  ucp_recv_nbx api cfg Stream_recv ep msg msg_length
                    (param\<lparr>op_attr_mask := op_attr_mask param \<union> {UCP_OP_ATTR_FIELD_FLAGS},
                           param_waitall := True, param_cb := Some Cb_stream_recv\<rparr>) s);
             (ret, s) \<leftarrow> request_finalize fuel api cfg worker request ctx is_server iov current_iter s;
             Some (ret, pop_ctx ctx s)
           })"

definition send_recv_tag :: "nat \<Rightarrow> 'w ucp_api \<Rightarrow> cs_config \<Rightarrow> nat \<Rightarrow> nat \<Rightarrow> bool \<Rightarrow> int \<Rightarrow> 'w cs \<Rightarrow>
    (int \<times> 'w cs) option" where
  "send_recv_tag fuel api cfg worker ep is_server current_iter s =
     (let (iov, s) = iov_alloc cfg s; (ctx, s) = push_ctx s;
          (fp, s) = fill_request_param cfg iov (\<not> is_server) ctx s
      in case fp of
           None \<Rightarrow> Some (-1, pop_ctx ctx s)
         | Some (msg, msg_length, param) \<Rightarrow> do {
             let (request, s) =
               (if \<not> is_server then
                  ucp_send_nbx api cfg (Tag_send TAG) ep msg msg_length (param\<lparr>param_cb := Some Cb_send\<rparr>) s
                else
                  ucp_recv_nbx api cfg (Tag_recv TAG 0) worker msg msg_length
                    (param\<lparr>param_cb := Some Cb_tag_recv\<rparr>) s);
             (ret, s) \<leftarrow> request_finalize fuel api cfg worker request ctx is_server iov current_iter s;
             Some (ret, pop_ctx ctx s)
           })"

text \<open>The receiving half of \<open>send_recv_am\<close>, up to the request it has to wait for.\<close>

definition am_receive :: "nat \<Rightarrow> 'w ucp_api \<Rightarrow> cs_config \<Rightarrow> nat \<Rightarrow> nat option \<Rightarrow> msg_ref \<Rightarrow> nat \<Rightarrow>
    ucp_request_param \<Rightarrow> 'w cs \<Rightarrow> (ucs_ptr \<times> 'w cs) option" where
  "am_receive fuel api cfg worker iov msg msg_length params s = do {
     let s = s\<lparr>am_data_desc := (am_data_desc s)\<lparr>recv_buf := iov\<rparr>\<rparr>;
     s \<leftarrow> spin fuel (\<lambda>s. complete (am_data_desc s)) (ucp_worker_progress api cfg worker) s;
     let s = s\<lparr>am_data_desc := (am_data_desc s)\<lparr>complete := False\<rparr>\<rparr>;
     Some (if is_rndv (am_data_desc s) then
             ucp_recv_nbx api cfg (Am_recv_data (desc (am_data_desc s))) worker msg msg_length
               (params\<lparr>op_attr_mask := op_attr_mask params \<union> {UCP_OP_ATTR_FLAG_NO_IMM_CMPL},
                       param_cb := Some Cb_am_recv\<rparr>) s
           else (Ptr_NULL, s))
   }"

definition send_recv_am :: "nat \<Rightarrow> 'w ucp_api \<Rightarrow> cs_config \<Rightarrow> nat \<Rightarrow> nat \<Rightarrow> bool \<Rightarrow> int \<Rightarrow> 'w cs \<Rightarrow>
    (int \<times> 'w cs) option" where
  "send_recv_am fuel api cfg worker ep is_server current_iter s =
     (let (iov, s) = iov_alloc cfg s; (ctx, s) = push_ctx s;
          (fp, s) = fill_request_param cfg iov (\<not> is_server) ctx s
      in case fp of
           None \<Rightarrow> Some (-1, pop_ctx ctx s)
         | Some (msg, msg_length, params) \<Rightarrow> do {
             (request, s) \<leftarrow>
               (if is_server then am_receive fuel api cfg worker iov msg msg_length params s
                else Some (ucp_send_nbx api cfg (Am_send TEST_AM_ID) ep msg msg_length
                             (params\<lparr>param_cb := Some Cb_send\<rparr>) s));
             (ret, s) \<leftarrow> request_finalize fuel api cfg worker request ctx is_server iov current_iter s;
             Some (ret, pop_ctx ctx s)
           })"

definition client_server_communication :: "nat \<Rightarrow> 'w ucp_api \<Rightarrow> cs_config \<Rightarrow> nat \<Rightarrow> nat \<Rightarrow>
    send_recv_type \<Rightarrow> bool \<Rightarrow> int \<Rightarrow> 'w cs \<Rightarrow> (int \<times> 'w cs) option" where
  "client_server_communication fuel api cfg worker ep typ is_server current_iter s =
     (if typ = CLIENT_SERVER_SEND_RECV_STREAM then
        send_recv_stream fuel api cfg worker ep is_server current_iter s
      else if typ = CLIENT_SERVER_SEND_RECV_TAG then
        send_recv_tag fuel api cfg worker ep is_server current_iter s
      else if typ = CLIENT_SERVER_SEND_RECV_AM then
        send_recv_am fuel api cfg worker ep is_server current_iter s
      else Some (-1, s))"

end
