(* ===== verification/Cs_Session.thy ===== *)
theory Cs_Session
  imports Cs_Transfer
begin

text \<open>
  \<open>ucp_client_server.c\<close> and \<open>ucp_util.h\<close>: endpoints, workers, the listener, the exchange of all
  the messages with one peer, the server loop, the client and \<open>main\<close>. \<open>fuel\<close> bounds every
  polling loop and \<open>clients\<close> the endless loop of the server; \<open>None\<close> means that the run needs
  more.
\<close>

section \<open>Endpoints and workers\<close>

definition log_call :: "cs_call \<Rightarrow> 'w cs \<Rightarrow> 'w cs" where
  "log_call c s = s\<lparr>cs_trace := cs_trace s @ [c]\<rparr>"

definition log_if :: "bool \<Rightarrow> cs_call \<Rightarrow> 'w cs \<Rightarrow> 'w cs" where
  "log_if b c s = (if b then log_call c s else s)"

definition ep_close :: "nat \<Rightarrow> 'w ucp_api \<Rightarrow> cs_config \<Rightarrow> nat \<Rightarrow> nat \<Rightarrow> bool \<Rightarrow> 'w cs \<Rightarrow> 'w cs option" where
  "ep_close fuel api cfg worker ep force s =
     (let (close_req, evs, w) = api_ep_close api ep force (world s);
          s = log_call (C_ep_close ep) (s\<lparr>world := w\<rparr>);
          s = (case close_req of Ptr_REQ r \<Rightarrow> log_call (C_close_request r) s | _ \<Rightarrow> s);
          s = dispatch_all api cfg evs s
      in case close_req of
           Ptr_REQ r \<Rightarrow> do {
             (status, s) \<leftarrow> poll_until fuel
                (\<lambda>s. ucp_request_check_status api r (ucp_worker_progress api cfg worker s))
                (\<lambda>st. st = UCS_INPROGRESS) s;
             Some (ucp_request_free r s)
           }
         | _ \<Rightarrow> Some s)"

definition start_client :: "'w ucp_api \<Rightarrow> cs_config \<Rightarrow> nat \<Rightarrow> string \<Rightarrow> 'w cs \<Rightarrow> ucs_status \<times> nat \<times> 'w cs" where
  "start_client api cfg worker address_str s =
     (let connect_addr = set_sock_addr (net_pton api) cfg (Some address_str);
          (status, client_ep, w) = api_ep_connect api worker connect_addr (world s)
      in (status, client_ep, log_if (status = UCS_OK) (C_ep_create worker client_ep) (s\<lparr>world := w\<rparr>)))"

definition init_worker :: "'w ucp_api \<Rightarrow> nat \<Rightarrow> 'w cs \<Rightarrow> int \<times> nat \<times> 'w cs" where
  "init_worker api ucp_context s =
     (let (status, worker, w) = api_worker_create api ucp_context (world s);
          s = log_if (status = UCS_OK) (C_worker_create worker) (s\<lparr>world := w\<rparr>)
      in (if status \<noteq> UCS_OK then -1 else 0, worker, s))"

definition server_create_ep :: "'w ucp_api \<Rightarrow> nat \<Rightarrow> nat \<Rightarrow> 'w cs \<Rightarrow> ucs_status \<times> nat \<times> 'w cs" where
  "server_create_ep api data_worker req s =
     (let (status, server_ep, w) = api_ep_accept api data_worker req (world s)
      in (status, server_ep,
          log_if (status = UCS_OK) (C_ep_create data_worker server_ep) (s\<lparr>world := w\<rparr>)))"

definition start_server :: "'w ucp_api \<Rightarrow> cs_config \<Rightarrow> nat \<Rightarrow> string option \<Rightarrow> 'w cs \<Rightarrow> ucs_status \<times> 'w cs" where
  "start_server api cfg worker address_str s =
     (let listen_addr = set_sock_addr (net_pton api) cfg address_str;
          (status, l, w) = api_listener_create api worker listen_addr (world s);
          s = log_if (status = UCS_OK) (C_listener_create l) (s\<lparr>world := w\<rparr>)
      in if status \<noteq> UCS_OK then (status, s)
         else let s = s\<lparr>srv_ctx := (srv_ctx s)\<lparr>listener := l\<rparr>\<rparr>;
                  (status, addr, w) = api_listener_query api l (world s); s = s\<lparr>world := w\<rparr>
              in if status \<noteq> UCS_OK then (status, log_call (C_listener_destroy l) s)
                 else (status, s\<lparr>cs_out := cs_out s @
                        [Out_listening (sockaddr_get_ip_str (net_ntop api) addr 50)
                                       (sockaddr_get_port_str addr 8), Out_waiting]\<rparr>))"

definition register_am_recv_callback :: "'w ucp_api \<Rightarrow> nat \<Rightarrow> 'w cs \<Rightarrow> ucs_status \<times> 'w cs" where
  "register_am_recv_callback api worker s =
     (let (status, w) = api_set_am_handler api worker TEST_AM_ID (world s)
      in (status, log_call (C_set_am_handler worker TEST_AM_ID) (s\<lparr>world := w\<rparr>)))"

section \<open>All the messages with one peer\<close>

fun do_iterations :: "nat \<Rightarrow> 'w ucp_api \<Rightarrow> cs_config \<Rightarrow> nat \<Rightarrow> nat \<Rightarrow> send_recv_type \<Rightarrow> bool \<Rightarrow>
    nat \<Rightarrow> int \<Rightarrow> 'w cs \<Rightarrow> (int \<times> int \<times> 'w cs) option" where
  "do_iterations fuel api cfg worker ep typ is_server 0 i s = Some (0, i, s)"
| "do_iterations fuel api cfg worker ep typ is_server (Suc k) i s = do {
     (ret, s) \<leftarrow> client_server_communication fuel api cfg worker ep typ is_server i s;
     if ret \<noteq> 0 then Some (ret, i, s)
     else do_iterations fuel api cfg worker ep typ is_server k (i + 1) s
   }"

definition client_server_do_work :: "nat \<Rightarrow> 'w ucp_api \<Rightarrow> cs_config \<Rightarrow> nat \<Rightarrow> nat \<Rightarrow> send_recv_type \<Rightarrow>
    bool \<Rightarrow> 'w cs \<Rightarrow> (int \<times> 'w cs) option" where
  "client_server_do_work fuel api cfg worker ep typ is_server s = do {
     let s = s\<lparr>connection_closed := False\<rparr>;
     (ret, i, s) \<leftarrow> do_iterations fuel api cfg worker ep typ is_server (nat (num_iterations cfg)) 0 s;
     if ret \<noteq> 0 then Some (ret, s)
     else do {
       let s = s\<lparr>cs_out := cs_out s @ [Out_fin is_server]\<rparr>;
       let (status, s) = (if \<not> is_server \<and> typ = CLIENT_SERVER_SEND_RECV_AM
                          then register_am_recv_callback api worker s else (UCS_OK, s));
       if status \<noteq> UCS_OK then Some (-1, s)
       else do {
         (ret, s) \<leftarrow> client_server_communication fuel api cfg worker ep typ (\<not> is_server) (i + 1)
           (cs_signed 32 (i + 1) s);
         if ret \<noteq> 0 then Some (ret, s)
         else do {
           s \<leftarrow> (if is_server then spin fuel connection_closed (ucp_worker_progress api cfg worker) s
                else Some s);
           Some (ret, s)
         }
       }
     }
   }"

section \<open>Server\<close>

text \<open>The loop of \<open>run_server\<close>; it returns on an error, with the endpoint closed.\<close>

fun serve_clients :: "nat \<Rightarrow> nat \<Rightarrow> 'w ucp_api \<Rightarrow> cs_config \<Rightarrow> nat \<Rightarrow> nat \<Rightarrow> send_recv_type \<Rightarrow> 'w cs \<Rightarrow>
    (int \<times> 'w cs) option" where
  "serve_clients 0 fuel api cfg worker data_worker typ s = None"
| "serve_clients (Suc clients) fuel api cfg worker data_worker typ s = do {
     s \<leftarrow> spin fuel (\<lambda>s. conn_request (srv_ctx s) \<noteq> None) (ucp_worker_progress api cfg worker) s;
     req \<leftarrow> conn_request (srv_ctx s);
     let (status, server_ep, s) = server_create_ep api data_worker req s;
     if status \<noteq> UCS_OK then Some (-1, s)
     else do {
       (ret, s) \<leftarrow> client_server_do_work fuel api cfg data_worker server_ep typ True s;
       s \<leftarrow> ep_close fuel api cfg data_worker server_ep True s;
       if ret \<noteq> 0 then Some (ret, s)
       else serve_clients clients fuel api cfg worker data_worker typ
              (s\<lparr>srv_ctx := (srv_ctx s)\<lparr>conn_request := None\<rparr>, cs_out := cs_out s @ [Out_waiting]\<rparr>)
     }
   }"

definition run_server :: "nat \<Rightarrow> nat \<Rightarrow> 'w ucp_api \<Rightarrow> cs_config \<Rightarrow> nat \<Rightarrow> nat \<Rightarrow> string option \<Rightarrow>
    send_recv_type \<Rightarrow> 'w cs \<Rightarrow> (int \<times> 'w cs) option" where
  "run_server clients fuel api cfg ucp_context worker listen_address typ s =
     (let (ret, data_worker, s) = init_worker api ucp_context s in
      if ret \<noteq> 0 then Some (ret, s)
      else
        let (status, s) = (if typ = CLIENT_SERVER_SEND_RECV_AM
                           then register_am_recv_callback api data_worker s else (UCS_OK, s)) in
        if status \<noteq> UCS_OK then Some (-1, log_call (C_worker_destroy data_worker) s)
        else
          let s = s\<lparr>srv_ctx := (srv_ctx s)\<lparr>conn_request := None\<rparr>\<rparr>;
              (status, s) = start_server api cfg worker listen_address s in
          if status \<noteq> UCS_OK then Some (-1, log_call (C_worker_destroy data_worker) s)
          else do {
            (ret, s) \<leftarrow> serve_clients clients fuel api cfg worker data_worker typ s;
            let s = log_call (C_listener_destroy (listener (srv_ctx s))) s;
            Some (ret, log_call (C_worker_destroy data_worker) s)
          })"

section \<open>Client and main\<close>

definition run_client :: "nat \<Rightarrow> 'w ucp_api \<Rightarrow> cs_config \<Rightarrow> nat \<Rightarrow> string \<Rightarrow> send_recv_type \<Rightarrow> 'w cs \<Rightarrow>
    (int \<times> 'w cs) option" where
  "run_client fuel api cfg worker address typ s =
     (let (status, client_ep, s) = start_client api cfg worker address s in
      if status \<noteq> UCS_OK then Some (-1, s)
      else do {
        (ret, s) \<leftarrow> client_server_do_work fuel api cfg worker client_ep typ False s;
        s \<leftarrow> ep_close fuel api cfg worker client_ep True s;
        Some (ret, s)
      })"

definition init_features :: "send_recv_type \<Rightarrow> ucp_feature" where
  "init_features typ =
     (if typ = CLIENT_SERVER_SEND_RECV_STREAM then UCP_FEATURE_STREAM
      else if typ = CLIENT_SERVER_SEND_RECV_TAG then UCP_FEATURE_TAG else UCP_FEATURE_AM)"

definition init_context :: "'w ucp_api \<Rightarrow> send_recv_type \<Rightarrow> 'w cs \<Rightarrow> int \<times> nat \<times> nat \<times> 'w cs" where
  "init_context api typ s =
     (let (status, ctx, w) = api_init api (init_features typ) (world s);
          s = log_if (status = UCS_OK) (C_init ctx) (s\<lparr>world := w\<rparr>)
      in if status \<noteq> UCS_OK then (-1, ctx, 0, s)
         else let (ret, worker, s) = init_worker api ctx s
              in if ret \<noteq> 0 then (ret, ctx, worker, log_call (C_cleanup ctx) s)
                 else (ret, ctx, worker, s))"

definition cs_start :: "heap \<Rightarrow> 'w \<Rightarrow> 'w cs" where
  "cs_start h w = \<lparr>connection_closed = True,
     am_data_desc = \<lparr>complete = False, is_rndv = False, desc = 0, recv_buf = None\<rparr>, cs_heap = h,
     iovs = (\<lambda>_. None), ctxs = (\<lambda>_. None), next_id = 0,
     srv_ctx = \<lparr>conn_request = None, listener = 0\<rparr>, cs_trace = [], cs_out = [], world = w\<rparr>"

definition cs_main :: "nat \<Rightarrow> nat \<Rightarrow> 'w ucp_api \<Rightarrow> bool \<Rightarrow> string list \<Rightarrow> 'w cs \<Rightarrow> (int \<times> 'w cs) option" where
  "cs_main clients fuel api hc argv s =
     (case cs_parse_cmd hc argv of
        Inl ret \<Rightarrow> Some (ret, s)
      | Inr (cfg, args) \<Rightarrow>
          let (ret, ctx, worker, s) = init_context api (comm_type args) s in
          if ret \<noteq> 0 then Some (ret, s)
          else do {
            (ret, s) \<leftarrow> (case server_addr args of
                None \<Rightarrow> run_server clients fuel api cfg ctx worker (listen_addr args) (comm_type args) s
              | Some a \<Rightarrow> run_client fuel api cfg worker a (comm_type args) s);
            Some (ret, log_call (C_cleanup ctx) (log_call (C_worker_destroy worker) s))
          })"

end
