(* ===== verification/Cs_Resources.thy ===== *)
theory Cs_Resources
  imports Cs_Session
begin

text \<open>
  What \<open>ucp_client_server.c\<close> owns: the UCP context, workers, listener, endpoints and requests.
  The trace of external calls obeys the resource protocol: nothing is released that is not live,
  and every path through the program releases what it acquired. This holds for any behaviour of
  the UCP library.
\<close>

section \<open>Resources of the calls\<close>

datatype cs_res = R_context nat | R_worker nat | R_listener nat | R_ep nat | R_request nat

fun cs_acquires :: "cs_call \<Rightarrow> cs_res option" where
  "cs_acquires (C_init c) = Some (R_context c)"
| "cs_acquires (C_worker_create w) = Some (R_worker w)"
| "cs_acquires (C_listener_create l) = Some (R_listener l)"
| "cs_acquires (C_ep_create w ep) = Some (R_ep ep)"
| "cs_acquires (C_send op ep bs (Ptr_REQ r)) = Some (R_request r)"
| "cs_acquires (C_recv op hnd ts (Ptr_REQ r)) = Some (R_request r)"
| "cs_acquires (C_close_request r) = Some (R_request r)"
| "cs_acquires _ = None"

fun cs_releases :: "cs_call \<Rightarrow> cs_res option" where
  "cs_releases (C_cleanup c) = Some (R_context c)"
| "cs_releases (C_worker_destroy w) = Some (R_worker w)"
| "cs_releases (C_listener_destroy l) = Some (R_listener l)"
| "cs_releases (C_ep_close ep) = Some (R_ep ep)"
| "cs_releases (C_request_free r) = Some (R_request r)"
| "cs_releases _ = None"

interpretation csr: resource_protocol cs_acquires cs_releases
proof
  fix c show "cs_acquires c = None \<or> cs_releases c = None" by (cases c) auto
qed

definition cs_triple :: "cs_res multiset \<Rightarrow> 'w cs \<Rightarrow> 'w cs \<Rightarrow> cs_res multiset \<Rightarrow> bool" where
  "cs_triple P s s' Q \<longleftrightarrow> listener (srv_ctx s') = listener (srv_ctx s) \<and>
     (\<exists>t. cs_trace s' = cs_trace s @ t \<and> res_triple cs_acquires cs_releases P t Q)"

lemma cs_triple_same:
  "cs_trace s' = cs_trace s \<Longrightarrow> listener (srv_ctx s') = listener (srv_ctx s) \<Longrightarrow> cs_triple P s s' P"
  by (auto simp: cs_triple_def intro: csr.triple_nil)

lemma cs_triple_trans [trans]:
  assumes "cs_triple P s s' Q" "cs_triple Q s' s'' R"
  shows "cs_triple P s s'' R"
proof -
  from assms obtain t u where "listener (srv_ctx s'') = listener (srv_ctx s)"
    "cs_trace s' = cs_trace s @ t" "res_triple cs_acquires cs_releases P t Q"
    "cs_trace s'' = cs_trace s' @ u" "res_triple cs_acquires cs_releases Q u R"
    by (auto simp: cs_triple_def)
  then show ?thesis
    unfolding cs_triple_def by (intro conjI exI[of _ "t @ u"]) (auto intro: csr.triple_seq)
qed

lemma cs_triple_log:
  assumes "cs_trace s' = cs_trace s @ [c]" and "listener (srv_ctx s') = listener (srv_ctx s)"
  shows "cs_releases c = Some r \<Longrightarrow> cs_triple (add_mset r P) s s' P"
    and "cs_acquires c = Some r \<Longrightarrow> cs_triple P s s' (add_mset r P)"
    and "cs_releases c = None \<Longrightarrow> cs_acquires c = None \<Longrightarrow> cs_triple P s s' P"
  using assms csr.triple_release csr.triple_acquire csr.triple_neutral
  by (auto simp: cs_triple_def)

section \<open>Operations that make no external call\<close>

text \<open>They leave the trace and the server context as they are.\<close>

lemma frame_on_heap [simp, frame_simps]:
  "cs_trace (on_heap f s) = cs_trace s" "srv_ctx (on_heap f s) = srv_ctx s"
  by (simp_all add: on_heap_def)

lemma frame_cs_fault [simp, frame_simps]:
  "cs_trace (cs_fault f s) = cs_trace s" "srv_ctx (cs_fault f s) = srv_ctx s"
  by (simp_all add: cs_fault_def)

lemma frame_signed [simp, frame_simps]:
  "cs_trace (cs_signed w v s) = cs_trace s" "srv_ctx (cs_signed w v s) = srv_ctx s"
  "cs_trace (prints_eval cfg i s) = cs_trace s" "srv_ctx (prints_eval cfg i s) = srv_ctx s"
  by (simp_all add: cs_signed_def prints_eval_def Let_def)

lemma frame_iov_read [simp, frame_simps]:
  "cs_trace (snd (iov_read a i s)) = cs_trace s" "srv_ctx (snd (iov_read a i s)) = srv_ctx s"
  by (auto simp: iov_read_def split: option.splits)

lemma frame_iov_write [simp, frame_simps]:
  "cs_trace (iov_write a i v s) = cs_trace s" "srv_ctx (iov_write a i v s) = srv_ctx s"
  by (auto simp: iov_write_def split: option.splits)

lemma frame_iov_alloc [simp, frame_simps]:
  "cs_trace (snd (iov_alloc cfg s)) = cs_trace s" "srv_ctx (snd (iov_alloc cfg s)) = srv_ctx s"
  by (auto simp: iov_alloc_def Let_def)

lemma frame_iov_free [simp, frame_simps]:
  "cs_trace (iov_free a s) = cs_trace s" "srv_ctx (iov_free a s) = srv_ctx s"
  by (auto simp: iov_free_def split: option.splits)

lemma fold_keeps: "(\<And>x s. f (g x s) = f s) \<Longrightarrow> f (fold g xs s) = f s"
  by (induction xs arbitrary: s) auto

lemma frame_buffer_free [simp, frame_simps]:
  "cs_trace (buffer_free cfg iov s) = cs_trace s" "srv_ctx (buffer_free cfg iov s) = srv_ctx s"
  unfolding buffer_free_def by (auto intro!: fold_keeps simp: split_beta)

lemma frame_buffer_malloc_from [simp, frame_simps]:
  "cs_trace (snd (buffer_malloc_from cfg iov is s)) = cs_trace s"
  "srv_ctx (snd (buffer_malloc_from cfg iov is s)) = srv_ctx s"
  by (induction "is" arbitrary: s) (auto simp: Let_def split_beta)

lemma frame_fill_buffer_from [simp, frame_simps]:
  "cs_trace (snd (fill_buffer_from cfg iov is s)) = cs_trace s"
  "srv_ctx (snd (fill_buffer_from cfg iov is s)) = srv_ctx s"
  by (induction "is" arbitrary: s) (auto simp: Let_def split_beta)

lemma frame_am_scatter [simp, frame_simps]:
  "cs_trace (am_scatter cfg iov is bs s) = cs_trace s"
  "srv_ctx (am_scatter cfg iov is bs s) = srv_ctx s"
  by (induction "is" arbitrary: bs s) (auto simp: Let_def split_beta)

lemma frame_common_cb [simp, frame_simps]:
  "cs_trace (common_cb u s) = cs_trace s" "srv_ctx (common_cb u s) = srv_ctx s"
  by (auto simp: common_cb_def split: option.splits)

lemma frame_am_data_cb [simp, frame_simps]:
  "cs_trace (snd (ucp_am_data_cb cfg hl d n s)) = cs_trace s"
  "srv_ctx (snd (ucp_am_data_cb cfg hl d n s)) = srv_ctx s"
  by (auto simp: ucp_am_data_cb_def Let_def split: am_payload.splits)

lemma frame_print_str16 [simp, frame_simps]:
  "cs_trace (print_str16 p s) = cs_trace s" "srv_ctx (print_str16 p s) = srv_ctx s"
  by (simp_all add: print_str16_def Let_def)

lemma frame_print_result [simp, frame_simps]:
  "cs_trace (print_result cfg b iov i s) = cs_trace s"
  "srv_ctx (print_result cfg b iov i s) = srv_ctx s"
  unfolding print_result_def print_iov_def
  by (simp_all add: Let_def split_beta fold_keeps[of cs_trace] fold_keeps[of srv_ctx])

lemma frame_fill_request_param [simp, frame_simps]:
  "cs_trace (snd (fill_request_param cfg iov b c s)) = cs_trace s"
  "srv_ctx (snd (fill_request_param cfg iov b c s)) = srv_ctx s"
  by (auto simp: fill_request_param_def buffer_malloc_def fill_buffer_def Let_def split_beta)

lemma frame_ctx [simp, frame_simps]:
  "cs_trace (snd (push_ctx s)) = cs_trace s" "srv_ctx (snd (push_ctx s)) = srv_ctx s"
  "cs_trace (pop_ctx c s) = cs_trace s" "srv_ctx (pop_ctx c s) = srv_ctx s"
  by (simp_all add: push_ctx_def pop_ctx_def)

section \<open>The library's side\<close>

lemma triple_dispatch: "cs_triple P s (dispatch api cfg e s) P"
proof (cases e)
  case (Lib_cb cb u)
  then show ?thesis
    by (cases cb) (auto simp: send_cb_def stream_recv_cb_def tag_recv_cb_def am_recv_cb_def
                        intro: cs_triple_same)
next
  case (Lib_conn_request r)
  let ?t = "if conn_request (srv_ctx s) = None then [] else [C_reject (listener (srv_ctx s)) r]"
  have "cs_trace (dispatch api cfg e s) = cs_trace s @ ?t"
    "listener (srv_ctx (dispatch api cfg e s)) = listener (srv_ctx s)"
    using Lib_conn_request by (auto simp: server_conn_handle_cb_def Let_def split_beta)
  then show ?thesis
    by (cases "conn_request (srv_ctx s) = None") (auto intro: cs_triple_log(3) cs_triple_same)
qed (auto simp: err_cb_def intro: cs_triple_same)

lemma triple_dispatch_all: "cs_triple P s (dispatch_all api cfg evs s) P"
  unfolding dispatch_all_def
proof (induction evs arbitrary: s)
  case Nil
  then show ?case by (auto intro: cs_triple_same)
next
  case (Cons e evs)
  have "cs_triple P s (dispatch api cfg e s) P" by (rule triple_dispatch)
  also note Cons.IH[of "dispatch api cfg e s"]
  finally show ?case by simp
qed

lemma triple_progress: "cs_triple P s (ucp_worker_progress api cfg worker s) P"
proof -
  let ?s = "s\<lparr>world := snd (api_progress api worker (world s))\<rparr>"
  have "cs_triple P s ?s P" by (rule cs_triple_same) simp_all
  also have "cs_triple P ?s (ucp_worker_progress api cfg worker s) P"
    by (simp add: ucp_worker_progress_def triple_dispatch_all split_beta)
  finally show ?thesis .
qed

lemma triple_spin:
  assumes "spin fuel fin (ucp_worker_progress api cfg worker) s = Some s'"
  shows "cs_triple P s s' P"
  using assms
  by (rule spin_inv[where P = "\<lambda>u. cs_triple P s u P"])
     (auto intro: cs_triple_same cs_triple_trans triple_progress)

section \<open>Requests\<close>

fun request_res :: "ucs_ptr \<Rightarrow> cs_res multiset" where
  "request_res (Ptr_REQ r) = {#R_request r#}"
| "request_res _ = {#}"

lemma triple_send:
  assumes "ucp_send_nbx api cfg op ep msg len param s = (r, s')"
  shows "cs_triple P s s' (P + request_res r)"
proof -
  obtain bs h where b: "read_targets (msg_targets msg len s) (cs_heap s) = (bs, h)" by fastforce
  obtain q evs w where a: "api_send api op ep bs param (world s) = (q, evs, w)" using prod_cases3 by blast
  let ?s = "s\<lparr>cs_heap := h, world := w, cs_trace := cs_trace s @ [C_send op ep bs q]\<rparr>"
  have q: "q = r" "s' = dispatch_all api cfg evs ?s"
    using assms a b by (auto simp: ucp_send_nbx_def)
  have "cs_triple P s ?s (P + request_res q)"
    by (cases q) (auto intro!: cs_triple_log)
  also have "cs_triple (P + request_res q) ?s s' (P + request_res q)"
    unfolding q(2) by (rule triple_dispatch_all)
  finally show ?thesis using q by simp
qed

lemma triple_recv:
  assumes "ucp_recv_nbx api cfg op hnd msg len param s = (r, s')"
  shows "cs_triple P s s' (P + request_res r)"
proof -
  let ?ts = "msg_targets msg len s"
  obtain q evs w where a: "api_recv api op hnd ?ts param (world s) = (q, evs, w)" using prod_cases3 by blast
  let ?s = "s\<lparr>world := w, cs_trace := cs_trace s @ [C_recv op hnd ?ts q]\<rparr>"
  have q: "q = r" "s' = dispatch_all api cfg evs ?s"
    using assms a by (auto simp: ucp_recv_nbx_def)
  have "cs_triple P s ?s (P + request_res q)"
    by (cases q) (auto intro!: cs_triple_log)
  also have "cs_triple (P + request_res q) ?s s' (P + request_res q)"
    unfolding q(2) by (rule triple_dispatch_all)
  finally show ?thesis using q by simp
qed

lemma triple_request_free: "cs_triple (add_mset (R_request r) P) s (ucp_request_free r s) P"
  by (rule cs_triple_log(1)[of _ _ "C_request_free r"]) (auto simp: ucp_request_free_def)

lemma frame_check_status [simp, frame_simps]:
  "cs_trace (snd (ucp_request_check_status api r s)) = cs_trace s"
  "srv_ctx (snd (ucp_request_check_status api r s)) = srv_ctx s"
  by (simp_all add: ucp_request_check_status_def split_beta)

lemma triple_request_wait:
  assumes "request_wait fuel api cfg worker request ctx s = Some (st, s')"
  shows "cs_triple (P + request_res request) s s' P"
proof (cases request)
  case (Ptr_REQ r)
  with assms obtain s1 where sp: "spin fuel (ctx_complete ctx) (ucp_worker_progress api cfg worker) s = Some s1"
    and s': "s' = ucp_request_free r (snd (ucp_request_check_status api r s1))"
    by (auto simp: request_wait_def Let_def split_beta split: bind_splits)
  have "cs_triple (add_mset (R_request r) P) s s1 (add_mset (R_request r) P)"
    using sp by (rule triple_spin)
  also have "cs_triple (add_mset (R_request r) P) s1 (snd (ucp_request_check_status api r s1))
      (add_mset (R_request r) P)" by (rule cs_triple_same) simp_all
  also have "cs_triple (add_mset (R_request r) P) (snd (ucp_request_check_status api r s1)) s' P"
    unfolding s' by (rule triple_request_free)
  finally show ?thesis using Ptr_REQ by simp
qed (use assms in \<open>auto simp: request_wait_def intro: cs_triple_same\<close>)

lemma triple_request_finalize:
  assumes "request_finalize fuel api cfg worker request ctx b iov i s = Some (ret, s')"
  shows "cs_triple (P + request_res request) s s' P"
proof -
  from assms obtain st s1 where w: "request_wait fuel api cfg worker request ctx s = Some (st, s1)"
    and t: "cs_trace s' = cs_trace s1" "listener (srv_ctx s') = listener (srv_ctx s1)"
    by (auto simp: request_finalize_def Let_def split: bind_splits if_splits)
  have "cs_triple (P + request_res request) s s1 P" using w by (rule triple_request_wait)
  also have "cs_triple P s1 s' P" using t by (rule cs_triple_same)
  finally show ?thesis .
qed


section \<open>One message\<close>

text \<open>The common prologue of the three functions: nothing but memory is touched.\<close>

lemma prologue_trace:
  assumes "iov_alloc cfg s = (iov, s1)" "push_ctx s1 = (ctx, s2)"
    "fill_request_param cfg iov b ctx s2 = (fp, s3)"
  shows "cs_trace s3 = cs_trace s" "listener (srv_ctx s3) = listener (srv_ctx s)"
  using frame_iov_alloc[of cfg s] frame_ctx(1,2)[of s1] frame_fill_request_param[of cfg iov b ctx s2]
    assms by simp_all

lemma triple_start_and_wait:
  assumes start: "cs_triple P s1 s2 (P + request_res request)"
    and fin: "request_finalize fuel api cfg worker request ctx b iov i s2 = Some (ret, s3)"
    and same: "cs_trace s1 = cs_trace s" "listener (srv_ctx s1) = listener (srv_ctx s)"
  shows "cs_triple P s (pop_ctx ctx s3) P"
proof -
  have "cs_triple P s s1 P" using same by (rule cs_triple_same)
  also note start
  also have "cs_triple (P + request_res request) s2 s3 P" using fin by (rule triple_request_finalize)
  also have "cs_triple P s3 (pop_ctx ctx s3) P" by (rule cs_triple_same) simp_all
  finally show ?thesis .
qed

lemma triple_send_recv_stream:
  assumes "send_recv_stream fuel api cfg worker ep b i s = Some (ret, s')"
  shows "cs_triple P s s' P"
proof -
  obtain iov s1 ctx s2 fp s3 where pro: "iov_alloc cfg s = (iov, s1)" "push_ctx s1 = (ctx, s2)"
    "fill_request_param cfg iov (\<not> b) ctx s2 = (fp, s3)" by (metis surj_pair)
  note tr = prologue_trace[OF pro]
  show ?thesis
  proof (cases fp)
    case None
    with assms pro have "s' = pop_ctx ctx s3" by (simp add: send_recv_stream_def)
    with tr show ?thesis by (auto intro: cs_triple_same)
  next
    case (Some m)
    then obtain msg len param where m: "fp = Some (msg, len, param)" by (cases m) auto
    show ?thesis
      using assms pro m tr
      by (auto simp: send_recv_stream_def split: bind_splits if_splits prod.splits
               intro!: triple_start_and_wait elim: triple_send triple_recv)
  qed
qed

lemma triple_send_recv_tag:
  assumes "send_recv_tag fuel api cfg worker ep b i s = Some (ret, s')"
  shows "cs_triple P s s' P"
proof -
  obtain iov s1 ctx s2 fp s3 where pro: "iov_alloc cfg s = (iov, s1)" "push_ctx s1 = (ctx, s2)"
    "fill_request_param cfg iov (\<not> b) ctx s2 = (fp, s3)" by (metis surj_pair)
  note tr = prologue_trace[OF pro]
  show ?thesis
  proof (cases fp)
    case None
    with assms pro have "s' = pop_ctx ctx s3" by (simp add: send_recv_tag_def)
    with tr show ?thesis by (auto intro: cs_triple_same)
  next
    case (Some m)
    then obtain msg len param where m: "fp = Some (msg, len, param)" by (cases m) auto
    show ?thesis
      using assms pro m tr
      by (auto simp: send_recv_tag_def split: bind_splits if_splits prod.splits
               intro!: triple_start_and_wait elim: triple_send triple_recv)
  qed
qed

lemma triple_am_receive:
  assumes "am_receive fuel api cfg worker iov msg len params s = Some (r, s')"
  shows "cs_triple P s s' (P + request_res r)"
proof -
  let ?s0 = "s\<lparr>am_data_desc := (am_data_desc s)\<lparr>recv_buf := iov\<rparr>\<rparr>"
  from assms obtain s1 where
    sp: "spin fuel (\<lambda>s. complete (am_data_desc s)) (ucp_worker_progress api cfg worker) ?s0 = Some s1"
    by (auto simp: am_receive_def Let_def split: bind_splits)
  let ?s1 = "s1\<lparr>am_data_desc := (am_data_desc s1)\<lparr>complete := False\<rparr>\<rparr>"
  have "cs_triple P s ?s0 P" by (rule cs_triple_same) simp_all
  also have "cs_triple P ?s0 s1 P" using sp by (rule triple_spin)
  also have "cs_triple P s1 ?s1 P" by (rule cs_triple_same) simp_all
  also have "cs_triple P ?s1 s' (P + request_res r)"
    using assms sp by (auto simp: am_receive_def Let_def split: if_splits
        intro!: cs_triple_same triple_recv)
  finally show ?thesis .
qed

lemma triple_send_recv_am:
  assumes "send_recv_am fuel api cfg worker ep b i s = Some (ret, s')"
  shows "cs_triple P s s' P"
proof -
  obtain iov s1 ctx s2 fp s3 where pro: "iov_alloc cfg s = (iov, s1)" "push_ctx s1 = (ctx, s2)"
    "fill_request_param cfg iov (\<not> b) ctx s2 = (fp, s3)" by (metis surj_pair)
  note tr = prologue_trace[OF pro]
  show ?thesis
  proof (cases fp)
    case None
    with assms pro have "s' = pop_ctx ctx s3" by (simp add: send_recv_am_def)
    with tr show ?thesis by (auto intro: cs_triple_same)
  next
    case (Some m)
    then obtain msg len param where m: "fp = Some (msg, len, param)" by (cases m) auto
    show ?thesis
      using assms pro m tr
      by (auto simp: send_recv_am_def split: bind_splits if_splits prod.splits
               intro!: triple_start_and_wait elim: triple_send triple_am_receive)
  qed
qed

lemma triple_communication:
  "client_server_communication fuel api cfg worker ep typ b i s = Some (ret, s') \<Longrightarrow> cs_triple P s s' P"
  by (auto simp: client_server_communication_def split: if_splits
        intro: triple_send_recv_stream triple_send_recv_tag triple_send_recv_am cs_triple_same)


section \<open>Sessions\<close>

lemma frame_log_call [simp]:
  "cs_trace (log_call c s) = cs_trace s @ [c]" "srv_ctx (log_call c s) = srv_ctx s"
  by (simp_all add: log_call_def)

lemma triple_do_iterations:
  "do_iterations fuel api cfg worker ep typ b k i s = Some (ret, i', s') \<Longrightarrow> cs_triple P s s' P"
proof (induction k arbitrary: i s)
  case 0
  then show ?case by (auto intro: cs_triple_same)
next
  case (Suc k)
  then obtain r s1 where c: "client_server_communication fuel api cfg worker ep typ b i s = Some (r, s1)"
    by (auto split: bind_splits)
  from Suc c show ?case
    by (auto split: if_splits intro: triple_communication cs_triple_trans)
qed

lemma triple_register:
  "register_am_recv_callback api worker s = (st, s') \<Longrightarrow> cs_triple P s s' P"
  by (auto simp: register_am_recv_callback_def split_beta
        intro!: cs_triple_log(3)[of _ _ "C_set_am_handler worker TEST_AM_ID"])

lemma triple_do_work:
  assumes "client_server_do_work fuel api cfg worker ep typ b s = Some (ret, s')"
  shows "cs_triple P s s' P"
proof -
  let ?s0 = "s\<lparr>connection_closed := False\<rparr>"
  from assms obtain r i s1 where
    it: "do_iterations fuel api cfg worker ep typ b (nat (num_iterations cfg)) 0 ?s0 = Some (r, i, s1)"
    by (auto simp: client_server_do_work_def Let_def split: bind_splits)
  have "cs_triple P s ?s0 P" by (rule cs_triple_same) simp_all
  also have "cs_triple P ?s0 s1 P" using it by (rule triple_do_iterations)
  finally have one: "cs_triple P s s1 P" .
  let ?s1 = "s1\<lparr>cs_out := cs_out s1 @ [Out_fin b]\<rparr>"
  have two: "cs_triple P s ?s1 P"
    using one by (rule cs_triple_trans) (rule cs_triple_same, simp_all)
  obtain st s2 where reg: "(if \<not> b \<and> typ = CLIENT_SERVER_SEND_RECV_AM
      then register_am_recv_callback api worker ?s1 else (UCS_OK, ?s1)) = (st, s2)" by fastforce
  then have "cs_triple P ?s1 s2 P" by (auto split: if_splits intro: triple_register cs_triple_same)
  with two have three: "cs_triple P s s2 P" by (rule cs_triple_trans)
  show ?thesis
  proof (cases "r = 0 \<and> st = UCS_OK")
    case False
    with assms it reg one three show ?thesis
      by (auto simp: client_server_do_work_def Let_def split: if_splits)
  next
    case True
    with assms it reg obtain r2 s3 where
      fin: "client_server_communication fuel api cfg worker ep typ (\<not> b) (i + 1) (cs_signed 32 (i + 1) s2) = Some (r2, s3)"
      by (auto simp: client_server_do_work_def Let_def split: bind_splits)
    have "cs_triple P s2 (cs_signed 32 (i + 1) s2) P" by (rule cs_triple_same) simp_all
    from cs_triple_trans[OF cs_triple_trans[OF three this] triple_communication[OF fin]]
    have four: "cs_triple P s s3 P" .
    have "cs_triple P s3 s' P"
      using assms it reg fin True
      by (auto simp: client_server_do_work_def Let_def split: bind_splits if_splits
               intro: triple_spin cs_triple_same)
    with four show ?thesis by (rule cs_triple_trans)
  qed
qed

lemma triple_poll_close:
  assumes "poll_until fuel (\<lambda>s. ucp_request_check_status api r (ucp_worker_progress api cfg worker s))
     again s = Some (st, s')"
  shows "cs_triple P s s' P"
  using assms
proof (rule poll_until_inv[where P = "\<lambda>u. cs_triple P s u P"])
  show "cs_triple P s s P" by (rule cs_triple_same) simp_all
  fix u assume u: "cs_triple P s u P"
  note u
  also have "cs_triple P u (ucp_worker_progress api cfg worker u) P" by (rule triple_progress)
  also have "cs_triple P (ucp_worker_progress api cfg worker u)
      (snd (ucp_request_check_status api r (ucp_worker_progress api cfg worker u))) P"
    by (rule cs_triple_same) simp_all
  finally show "cs_triple P s (snd (ucp_request_check_status api r (ucp_worker_progress api cfg worker u))) P" .
qed

lemma triple_ep_close:
  assumes "ep_close fuel api cfg worker ep force s = Some s'"
  shows "cs_triple (add_mset (R_ep ep) P) s s' P"
proof -
  obtain q evs w where a: "api_ep_close api ep force (world s) = (q, evs, w)" using prod_cases3 by blast
  let ?s1 = "log_call (C_ep_close ep) (s\<lparr>world := w\<rparr>)"
  let ?s2 = "case q of Ptr_REQ r \<Rightarrow> log_call (C_close_request r) ?s1 | _ \<Rightarrow> ?s1"
  let ?s3 = "dispatch_all api cfg evs ?s2"
  have "cs_triple (add_mset (R_ep ep) P) s ?s1 P"
    by (rule cs_triple_log(1)[of _ _ "C_ep_close ep"]) simp_all
  also have "cs_triple P ?s1 ?s2 (P + request_res q)"
    by (cases q) (auto intro: cs_triple_same cs_triple_log(2)[where c = "C_close_request _"])
  also have "cs_triple (P + request_res q) ?s2 ?s3 (P + request_res q)" by (rule triple_dispatch_all)
  also have "cs_triple (P + request_res q) ?s3 s' P"
  proof (cases q)
    case (Ptr_REQ r)
    with assms a obtain st s4 where
      p: "poll_until fuel (\<lambda>s. ucp_request_check_status api r (ucp_worker_progress api cfg worker s))
           (\<lambda>st. st = UCS_INPROGRESS) ?s3 = Some (st, s4)" and s': "s' = ucp_request_free r s4"
      by (auto simp: ep_close_def split: bind_splits)
    from p have "cs_triple (P + request_res q) ?s3 s4 (P + request_res q)" by (rule triple_poll_close)
    also have "cs_triple (P + request_res q) s4 s' P"
      using Ptr_REQ s' triple_request_free by simp
    finally show ?thesis .
  qed (use assms a in \<open>auto simp: ep_close_def intro: cs_triple_same\<close>)
  finally show ?thesis .
qed

lemma triple_create_ep:
  assumes "server_create_ep api w req s = (st, ep, s')"
  shows "cs_triple P s s' (if st = UCS_OK then add_mset (R_ep ep) P else P)"
  using assms
  by (auto simp: server_create_ep_def log_if_def split_beta
      intro!: cs_triple_same cs_triple_log(2)[where c = "C_ep_create _ _"] split: if_splits)

lemma triple_start_client:
  assumes "start_client api cfg w a s = (st, ep, s')"
  shows "cs_triple P s s' (if st = UCS_OK then add_mset (R_ep ep) P else P)"
  using assms
  by (auto simp: start_client_def log_if_def Let_def split_beta
      intro!: cs_triple_same cs_triple_log(2)[where c = "C_ep_create _ _"] split: if_splits)

lemma triple_init_worker:
  assumes "init_worker api c s = (ret, w, s')"
  shows "cs_triple P s s' (if ret = 0 then add_mset (R_worker w) P else P)"
  using assms
  by (auto simp: init_worker_def log_if_def split_beta
      intro!: cs_triple_same cs_triple_log(2)[where c = "C_worker_create _"] split: if_splits)

lemma triple_serve_clients:
  "serve_clients n fuel api cfg worker dw typ s = Some (ret, s') \<Longrightarrow> cs_triple P s s' P"
proof (induction n arbitrary: s)
  case 0
  then show ?case by simp
next
  case (Suc n)
  from Suc.prems obtain s1 req where
    sp: "spin fuel (\<lambda>s. conn_request (srv_ctx s) \<noteq> None) (ucp_worker_progress api cfg worker) s = Some s1"
    and req: "conn_request (srv_ctx s1) = Some req"
    by (auto split: bind_splits)
  obtain st ep s2 where ce: "server_create_ep api dw req s1 = (st, ep, s2)" using prod_cases3 by blast
  have one: "cs_triple P s s2 (if st = UCS_OK then add_mset (R_ep ep) P else P)"
    using triple_spin[OF sp] triple_create_ep[OF ce] by (rule cs_triple_trans)
  show ?case
  proof (cases "st = UCS_OK")
    case False
    with Suc.prems sp req ce one show ?thesis by simp
  next
    case True
    with Suc.prems sp req ce obtain r s3 s4 where
      dw: "client_server_do_work fuel api cfg dw ep typ True s2 = Some (r, s3)" and
      cl: "ep_close fuel api cfg dw ep True s3 = Some s4" and
      rest: "(if r \<noteq> 0 then Some (r, s4) else serve_clients n fuel api cfg worker dw typ
         (s4\<lparr>srv_ctx := (srv_ctx s4)\<lparr>conn_request := None\<rparr>, cs_out := cs_out s4 @ [Out_waiting]\<rparr>))
         = Some (ret, s')"
      by (auto split: bind_splits)
    let ?s5 = "s4\<lparr>srv_ctx := (srv_ctx s4)\<lparr>conn_request := None\<rparr>, cs_out := cs_out s4 @ [Out_waiting]\<rparr>"
    from one True have "cs_triple P s s2 (add_mset (R_ep ep) P)" by simp
    also note triple_do_work[OF dw]
    also note triple_ep_close[OF cl]
    finally have two: "cs_triple P s s4 P" .
    have "cs_triple P s4 ?s5 P" by (rule cs_triple_same) simp_all
    with two have three: "cs_triple P s ?s5 P" by (rule cs_triple_trans)
    from rest two three Suc.IH[of ?s5] show ?thesis
      by (auto split: if_splits intro: cs_triple_trans)
  qed
qed


lemma triple_start_server:
  assumes "start_server api cfg worker a s = (st, s')"
  shows "\<exists>t. cs_trace s' = cs_trace s @ t \<and>
     res_triple cs_acquires cs_releases P t
       (if st = UCS_OK then add_mset (R_listener (listener (srv_ctx s'))) P else P)"
proof -
  let ?addr = "set_sock_addr (net_pton api) cfg a"
  obtain q l w where c: "api_listener_create api worker ?addr (world s) = (q, l, w)"
    using prod_cases3 by blast
  obtain q2 ad w2 where qy: "api_listener_query api l w = (q2, ad, w2)" using prod_cases3 by blast
  note d = start_server_def log_if_def Let_def log_call_def
  consider "q \<noteq> UCS_OK" | "q = UCS_OK" "q2 \<noteq> UCS_OK" | "q = UCS_OK" "q2 = UCS_OK" by blast
  then show ?thesis
  proof cases
    case 1
    with assms c show ?thesis by (auto simp: d)
  next
    case 2
    with assms c qy have "cs_trace s' = cs_trace s @ [C_listener_create l, C_listener_destroy l]" "st = q2"
      by (auto simp: d)
    moreover have "res_triple cs_acquires cs_releases P [C_listener_create l, C_listener_destroy l] P"
      by (rule csr.triple_cons[OF csr.triple_acquire csr.triple_release]) simp_all
    ultimately show ?thesis using 2 by auto
  next
    case 3
    with assms c qy have "cs_trace s' = cs_trace s @ [C_listener_create l]" "st = UCS_OK"
      "listener (srv_ctx s') = l" by (auto simp: d)
    moreover have "res_triple cs_acquires cs_releases P [C_listener_create l] (add_mset (R_listener l) P)"
      by (rule csr.triple_acquire) simp
    ultimately show ?thesis by auto
  qed
qed

text \<open>
  From here on the listener field changes, so the statements are about the trace alone.
\<close>

definition cs_conforms :: "cs_res multiset \<Rightarrow> 'w cs \<Rightarrow> 'w cs \<Rightarrow> cs_res multiset \<Rightarrow> bool" where
  "cs_conforms P s s' Q \<longleftrightarrow>
     (\<exists>t. cs_trace s' = cs_trace s @ t \<and> res_triple cs_acquires cs_releases P t Q)"

lemma conforms_triple: "cs_triple P s s' Q \<Longrightarrow> cs_conforms P s s' Q"
  by (auto simp: cs_triple_def cs_conforms_def)

lemma conforms_trans [trans]:
  assumes "cs_conforms P s s' Q" "cs_conforms Q s' s'' R"
  shows "cs_conforms P s s'' R"
proof -
  from assms obtain t u where "cs_trace s' = cs_trace s @ t" "res_triple cs_acquires cs_releases P t Q"
    "cs_trace s'' = cs_trace s' @ u" "res_triple cs_acquires cs_releases Q u R"
    by (auto simp: cs_conforms_def)
  then show ?thesis
    unfolding cs_conforms_def by (intro exI[of _ "t @ u"]) (auto intro: csr.triple_seq)
qed

lemma conforms_release: "cs_releases c = Some r \<Longrightarrow> cs_conforms (add_mset r P) s (log_call c s) P"
  by (rule conforms_triple, rule cs_triple_log(1)) simp_all

lemma conforms_run_server:
  assumes "run_server n fuel api cfg ctx worker a typ s = Some (ret, s')"
  shows "cs_conforms P s s' P"
proof -
  obtain r dw s1 where iw: "init_worker api ctx s = (r, dw, s1)" using prod_cases3 by blast
  note one = triple_init_worker[OF iw, of P, THEN conforms_triple]
  show ?thesis
  proof (cases "r = 0")
    case False
    with assms iw one show ?thesis by (simp add: run_server_def)
  next
    case True
    let ?W = "add_mset (R_worker dw) P"
    obtain st s2 where reg: "(if typ = CLIENT_SERVER_SEND_RECV_AM
        then register_am_recv_callback api dw s1 else (UCS_OK, s1)) = (st, s2)" by fastforce
    then have "cs_triple ?W s1 s2 ?W" by (auto split: if_splits intro: triple_register cs_triple_same)
    with one True have two: "cs_conforms P s s2 ?W"
      by (auto intro: conforms_trans conforms_triple)
    let ?s3 = "s2\<lparr>srv_ctx := (srv_ctx s2)\<lparr>conn_request := None\<rparr>\<rparr>"
    have "cs_triple ?W s2 ?s3 ?W" by (rule cs_triple_same) simp_all
    with two have three: "cs_conforms P s ?s3 ?W" by (auto intro: conforms_trans conforms_triple)
    obtain st2 s4 where ss: "start_server api cfg worker a ?s3 = (st2, s4)" by fastforce
    let ?L = "R_listener (listener (srv_ctx s4))"
    have "cs_conforms ?W ?s3 s4 (if st2 = UCS_OK then add_mset ?L ?W else ?W)"
      using triple_start_server[OF ss] by (simp add: cs_conforms_def)
    with three have four: "cs_conforms P s s4 (if st2 = UCS_OK then add_mset ?L ?W else ?W)"
      by (rule conforms_trans)
    have destroy: "cs_conforms ?W u (log_call (C_worker_destroy dw) u) P" for u :: "'a cs"
      by (rule conforms_release) simp
    consider "st \<noteq> UCS_OK" | "st = UCS_OK" "st2 \<noteq> UCS_OK" | "st = UCS_OK" "st2 = UCS_OK" by blast
    then show ?thesis
    proof cases
      case 1
      with assms iw True reg two destroy show ?thesis
        by (auto simp: run_server_def intro: conforms_trans)
    next
      case 2
      with assms iw True reg ss four destroy show ?thesis
        by (auto simp: run_server_def intro: conforms_trans)
    next
      case 3
      with assms iw True reg ss obtain s5 where
        sv: "serve_clients n fuel api cfg worker dw typ s4 = Some (ret, s5)" and
        s': "s' = log_call (C_worker_destroy dw) (log_call (C_listener_destroy (listener (srv_ctx s5))) s5)"
        by (auto simp: run_server_def Let_def split: bind_splits)
      note t5 = triple_serve_clients[OF sv, of "add_mset ?L ?W"]
      then have l: "listener (srv_ctx s5) = listener (srv_ctx s4)" by (simp add: cs_triple_def)
      from four 3 have "cs_conforms P s s4 (add_mset ?L ?W)" by simp
      also note conforms_triple[OF t5]
      also have "cs_conforms (add_mset ?L ?W) s5
          (log_call (C_listener_destroy (listener (srv_ctx s5))) s5) ?W"
        by (rule conforms_release) (simp add: l)
      also note destroy
      finally show ?thesis using s' by simp
    qed
  qed
qed

lemma conforms_run_client:
  assumes "run_client fuel api cfg worker a typ s = Some (ret, s')"
  shows "cs_conforms P s s' P"
proof -
  obtain st ep s1 where sc: "start_client api cfg worker a s = (st, ep, s1)" using prod_cases3 by blast
  note one = triple_start_client[OF sc, of P, THEN conforms_triple]
  show ?thesis
  proof (cases "st = UCS_OK")
    case False
    with assms sc one show ?thesis by (simp add: run_client_def)
  next
    case True
    with assms sc obtain s2 where
      dw: "client_server_do_work fuel api cfg worker ep typ False s1 = Some (ret, s2)" and
      cl: "ep_close fuel api cfg worker ep True s2 = Some s'"
      by (auto simp: run_client_def split: bind_splits)
    from one True have "cs_conforms P s s1 (add_mset (R_ep ep) P)" by simp
    also note triple_do_work[OF dw, THEN conforms_triple]
    also note triple_ep_close[OF cl, THEN conforms_triple]
    finally show ?thesis .
  qed
qed

lemma conforms_init_context:
  assumes "init_context api typ s = (ret, ctx, w, s')"
  shows "cs_conforms P s s' (if ret = 0 then add_mset (R_worker w) (add_mset (R_context ctx) P) else P)"
proof -
  obtain q c w1 where i: "api_init api (init_features typ) (world s) = (q, c, w1)"
    using prod_cases3 by blast
  let ?s1 = "log_call (C_init c) (s\<lparr>world := w1\<rparr>)"
  obtain r w2 s2 where iw: "init_worker api c ?s1 = (r, w2, s2)" using prod_cases3 by blast
  have "cs_triple P s ?s1 (add_mset (R_context c) P)"
    by (rule cs_triple_log(2)[of _ _ "C_init c"]) simp_all
  then have one: "cs_conforms P s ?s1 (add_mset (R_context c) P)" by (rule conforms_triple)
  note two = conforms_trans[OF one triple_init_worker[OF iw, THEN conforms_triple]]
  consider "q \<noteq> UCS_OK" | "q = UCS_OK" "r \<noteq> 0" | "q = UCS_OK" "r = 0" by blast
  then show ?thesis
  proof cases
    case 1
    with assms i show ?thesis
      by (auto simp: init_context_def log_if_def intro!: conforms_triple cs_triple_same)
  next
    case 2
    with assms i iw have "s' = log_call (C_cleanup c) s2" "ret \<noteq> 0"
      by (auto simp: init_context_def log_if_def)
    moreover have "cs_conforms (add_mset (R_context c) P) s2 (log_call (C_cleanup c) s2) P"
      by (rule conforms_release) simp
    ultimately show ?thesis using two 2 by (auto intro: conforms_trans)
  next
    case 3
    with assms i iw two show ?thesis by (auto simp: init_context_def log_if_def)
  qed
qed

lemma conforms_main:
  assumes "cs_main n fuel api hc argv s = Some (ret, s')"
  shows "cs_conforms P s s' P"
proof (cases "cs_parse_cmd hc argv")
  case (Inl r)
  with assms show ?thesis by (auto simp: cs_main_def intro!: conforms_triple cs_triple_same)
next
  case (Inr ca)
  obtain cfg args where ca: "ca = (cfg, args)" by fastforce
  obtain r c w s1 where ic: "init_context api (comm_type args) s = (r, c, w, s1)"
    using prod_cases4 by blast
  note one = conforms_init_context[OF ic, of P]
  show ?thesis
  proof (cases "r = 0")
    case False
    with assms Inr ca ic one show ?thesis by (simp add: cs_main_def)
  next
    case True
    let ?R = "add_mset (R_worker w) (add_mset (R_context c) P)"
    from assms Inr ca ic True obtain s2 where
      run: "(case server_addr args of
           None \<Rightarrow> run_server n fuel api cfg c w (listen_addr args) (comm_type args) s1
         | Some a \<Rightarrow> run_client fuel api cfg w a (comm_type args) s1) = Some (ret, s2)" and
      s': "s' = log_call (C_cleanup c) (log_call (C_worker_destroy w) s2)"
      by (auto simp: cs_main_def split: bind_splits)
    from one True have "cs_conforms P s s1 ?R" by simp
    also from run have "cs_conforms ?R s1 s2 ?R"
      by (auto split: option.splits intro: conforms_run_server conforms_run_client)
    also have "cs_conforms ?R s2 (log_call (C_worker_destroy w) s2) (add_mset (R_context c) P)"
      by (rule conforms_release) simp
    also have "cs_conforms (add_mset (R_context c) P) (log_call (C_worker_destroy w) s2) s' P"
      unfolding s' by (rule conforms_release) simp
    finally show ?thesis .
  qed
qed

end
