(* ===== verification/Cs_Memory.thy ===== *)
theory Cs_Memory
  imports Cs_Resources
begin

text \<open>
  Memory discipline of one message exchange: buffers, the array that lists them and the request
  context are all gone when a \<open>send_recv\<close> function returns, on every path and whatever the library
  does in between.
\<close>

section \<open>What the library cannot change\<close>

definition quiet :: "'w cs \<Rightarrow> 'w cs \<Rightarrow> bool" where
  "quiet s s' \<longleftrightarrow> shape (cs_heap s') = shape (cs_heap s) \<and>
     next_blk (cs_heap s') = next_blk (cs_heap s) \<and> iovs s' = iovs s \<and>
     dom (ctxs s') = dom (ctxs s) \<and> next_id s' = next_id s"

lemma quiet_refl [simp]: "quiet s s"
  by (simp add: quiet_def)

lemma quiet_trans [trans]: "quiet s s' \<Longrightarrow> quiet s' s'' \<Longrightarrow> quiet s s''"
  by (simp add: quiet_def)

lemma quiet_fault [simp]: "quiet s (cs_fault f s)"
  by (simp add: quiet_def cs_fault_def on_heap_def)

lemma quiet_signed [simp]: "quiet s (cs_signed w v s)"
  by (simp add: cs_signed_def quiet_def cs_fault_def on_heap_def)

lemma quiet_prints_eval [simp]: "quiet s (prints_eval cfg i s)"
  by (auto simp: prints_eval_def Let_def intro: quiet_trans quiet_signed)

lemma quiet_iov_read [simp]: "quiet s (snd (iov_read a i s))"
  by (auto simp: iov_read_def split: option.splits)

lemma quiet_copy_in [simp]: "quiet s (on_heap (mem_type_copy_in cfg p bs) s)"
  by (auto simp: quiet_def on_heap_def mem_type_copy_in_def)

lemma quiet_am_scatter: "quiet s (am_scatter cfg iov is bs s)"
proof (induction "is" arbitrary: bs s)
  case Nil
  then show ?case by simp
next
  case (Cons i "is")
  obtain v s1 where r: "iov_read iov i s = (v, s1)" by fastforce
  let ?s2 = "if iov_length v \<le> length bs
      then on_heap (mem_type_copy_in cfg (iov_buffer v) (take (iov_length v) bs)) s1
      else cs_fault OutOfBounds s1"
  have "quiet s s1" using quiet_iov_read[of s iov i] r by simp
  also have "quiet s1 ?s2" by simp
  also have "quiet ?s2 (am_scatter cfg iov is (drop (iov_length v) bs) ?s2)" by (rule Cons.IH)
  finally show ?case using r by (simp add: Let_def)
qed

lemma quiet_am_data_cb: "quiet s (snd (ucp_am_data_cb cfg hl d n s))"
proof -
  let ?s = "cs_signed 64 (iov_cnt cfg * test_string_length cfg) s"
  have "quiet u (u\<lparr>am_data_desc := x\<rparr>)" for x and u :: "'a cs" by (simp add: quiet_def)
  then have "quiet ?s (snd (ucp_am_data_cb cfg hl d n s))"
    by (auto simp: ucp_am_data_cb_def Let_def split: am_payload.splits
             intro: quiet_trans[OF _ quiet_am_scatter])
  with quiet_signed show ?thesis by (rule quiet_trans)
qed

lemma quiet_common_cb: "quiet s (common_cb u s)"
  by (auto simp: common_cb_def quiet_def cs_fault_def on_heap_def split: option.splits)

lemma quiet_dispatch: "quiet s (dispatch api cfg e s)"
proof (cases e)
  case (Lib_write p bs)
  then show ?thesis by (simp add: quiet_def on_heap_def)
next
  case (Lib_cb cb u)
  then show ?thesis
    by (cases cb) (auto simp: send_cb_def stream_recv_cb_def tag_recv_cb_def am_recv_cb_def quiet_common_cb)
next
  case (Lib_conn_request r)
  then show ?thesis by (auto simp: server_conn_handle_cb_def Let_def split_beta quiet_def)
next
  case (Lib_err ep st)
  then show ?thesis by (simp add: err_cb_def quiet_def)
qed (simp add: quiet_am_data_cb)

lemma quiet_dispatch_all: "quiet s (dispatch_all api cfg evs s)"
  unfolding dispatch_all_def
  by (induction evs arbitrary: s) (auto intro: quiet_trans quiet_dispatch)

lemma quiet_progress: "quiet s (ucp_worker_progress api cfg worker s)"
proof -
  have "quiet s (s\<lparr>world := w\<rparr>)" for w by (simp add: quiet_def)
  then show ?thesis
    by (auto simp: ucp_worker_progress_def split_beta intro: quiet_trans quiet_dispatch_all)
qed

lemma quiet_spin:
  assumes "spin fuel fin (ucp_worker_progress api cfg worker) s = Some s'"
  shows "quiet s s'"
  using assms
  by (rule spin_inv[where P = "\<lambda>u. quiet s u"]) (auto intro: quiet_trans quiet_progress)

lemma quiet_read_targets:
  "read_targets ts h = (bs, h') \<Longrightarrow> shape h' = shape h \<and> next_blk h' = next_blk h"
proof (induction ts arbitrary: h bs)
  case (Cons t ts)
  then show ?case
    by (cases t) (fastforce simp: load_def Let_def split: option.splits prod.splits)
qed simp

lemma quiet_send:
  assumes "ucp_send_nbx api cfg op ep msg len param s = (r, s')"
  shows "quiet s s'"
proof -
  obtain bs h where b: "read_targets (msg_targets msg len s) (cs_heap s) = (bs, h)" by fastforce
  obtain q evs w where a: "api_send api op ep bs param (world s) = (q, evs, w)" using prod_cases3 by blast
  let ?s = "s\<lparr>cs_heap := h, world := w, cs_trace := cs_trace s @ [C_send op ep bs q]\<rparr>"
  have "quiet s ?s" using quiet_read_targets[OF b] by (simp add: quiet_def)
  also have "quiet ?s (dispatch_all api cfg evs ?s)" by (rule quiet_dispatch_all)
  finally show ?thesis using assms a b by (auto simp: ucp_send_nbx_def)
qed

lemma quiet_recv:
  assumes "ucp_recv_nbx api cfg op hnd msg len param s = (r, s')"
  shows "quiet s s'"
proof -
  let ?ts = "msg_targets msg len s"
  obtain q evs w where a: "api_recv api op hnd ?ts param (world s) = (q, evs, w)" using prod_cases3 by blast
  let ?s = "s\<lparr>world := w, cs_trace := cs_trace s @ [C_recv op hnd ?ts q]\<rparr>"
  have "quiet s ?s" by (simp add: quiet_def)
  also have "quiet ?s (dispatch_all api cfg evs ?s)" by (rule quiet_dispatch_all)
  finally show ?thesis using assms a by (auto simp: ucp_recv_nbx_def)
qed

lemma quiet_am_receive:
  assumes "am_receive fuel api cfg worker iov msg len params s = Some (r, s')"
  shows "quiet s s'"
proof -
  let ?s0 = "s\<lparr>am_data_desc := (am_data_desc s)\<lparr>recv_buf := iov\<rparr>\<rparr>"
  from assms obtain s1 where
    sp: "spin fuel (\<lambda>s. complete (am_data_desc s)) (ucp_worker_progress api cfg worker) ?s0 = Some s1"
    by (auto simp: am_receive_def Let_def split: bind_splits)
  let ?s1 = "s1\<lparr>am_data_desc := (am_data_desc s1)\<lparr>complete := False\<rparr>\<rparr>"
  have "quiet s ?s0" by (simp add: quiet_def)
  also have "quiet ?s0 s1" using sp by (rule quiet_spin)
  also have "quiet s1 ?s1" by (simp add: quiet_def)
  also have "quiet ?s1 s'"
    using assms sp by (auto simp: am_receive_def Let_def split: if_splits intro!: quiet_recv)
  finally show ?thesis .
qed

lemma quiet_request_wait:
  assumes "request_wait fuel api cfg worker request ctx s = Some (st, s')"
  shows "quiet s s'"
proof (cases request)
  case (Ptr_REQ r)
  with assms obtain s1 where sp: "spin fuel (ctx_complete ctx) (ucp_worker_progress api cfg worker) s = Some s1"
    and s': "s' = ucp_request_free r (snd (ucp_request_check_status api r s1))"
    by (auto simp: request_wait_def Let_def split_beta split: bind_splits)
  have "quiet s s1" using sp by (rule quiet_spin)
  also have "quiet s1 s'"
    unfolding s' by (simp add: quiet_def ucp_request_free_def ucp_request_check_status_def split_beta)
  finally show ?thesis .
qed (use assms in \<open>auto simp: request_wait_def\<close>)

section \<open>Printing\<close>

lemma shape_mem_type_memcpy [simp]: "shape (mem_type_memcpy hc tmt d s n h) = shape h"
  by (auto simp: mem_type_memcpy_def split: ucs_memory_type.splits)

lemma quiet_print_step:
  "quiet s (print_str16 msg (on_heap (mem_type_memcpy hc tmt msg p n) (snd (iov_read iov i s))))"
proof -
  have "quiet u (print_str16 msg u)" for u :: "'a cs"
    by (simp add: print_str16_def Let_def quiet_def cs_fault_def on_heap_def)
  moreover have "quiet u (on_heap (mem_type_memcpy hc tmt msg p n) u)" for u :: "'a cs"
    by (auto simp: quiet_def on_heap_def mem_type_memcpy_def split: ucs_memory_type.splits)
  ultimately show ?thesis by (meson quiet_iov_read quiet_trans)
qed

lemma shape_c_free_grown:
  assumes "heap_wf h" "shape h' = shape (grown MHost bs h)"
  shows "shape (c_free (Addr (next_blk h) 0) h') = shape h"
proof -
  from assms(2) have "shape h' (next_blk h) = Some (MHost, length bs)" by (simp add: shape_def)
  then obtain k where k: "blocks h' (next_blk h) = Some k" "b_kind k = MHost" by (auto simp: shape_def)
  have "shape (c_free (Addr (next_blk h) 0) h') = (shape h')(next_blk h := None)"
    using k by (auto simp: c_free_block shape_def fun_eq_iff)
  also have "\<dots> = shape h"
    unfolding assms(2) using assms(1) by (auto simp: shape_def fun_eq_iff)
  finally show ?thesis .
qed

text \<open>Printing allocates a temporary and gives it back; only the block counter moves.\<close>

definition settled :: "'w cs \<Rightarrow> 'w cs \<Rightarrow> bool" where
  "settled s s' \<longleftrightarrow> shape (cs_heap s') = shape (cs_heap s) \<and> heap_wf (cs_heap s') \<and>
     iovs s' = iovs s \<and> dom (ctxs s') = dom (ctxs s) \<and> next_id s' = next_id s"

lemma quiet_settled: "quiet s s' \<Longrightarrow> heap_wf (cs_heap s) \<Longrightarrow> settled s s'"
  using heap_wf_shape[of "cs_heap s'" "cs_heap s"] by (simp add: quiet_def settled_def)

lemma settled_trans [trans]: "settled s s' \<Longrightarrow> settled s' s'' \<Longrightarrow> settled s s''"
  by (simp add: settled_def)

lemma settled_print_result:
  assumes "heap_wf (cs_heap s)"
  shows "settled s (print_result cfg b iov i s)"
proof -
  let ?n = "size_t (test_string_length cfg)" and ?t = "cs_signed 32 (i + 1) s"
  let ?s0 = "?t\<lparr>cs_out := cs_out ?t @ [Out_iteration b (i + 1)]\<rparr>"
  have t: "quiet s ?t" by simp
  have wf: "heap_wf (cs_heap ?t)" using quiet_settled[OF t assms] by (simp add: settled_def)
  obtain msg h where m: "c_malloc ?n (cs_heap ?t) = (msg, h)" by fastforce
  let ?step = "\<lambda>idx u. print_str16 msg (on_heap (mem_type_memcpy (have_cuda cfg) (test_mem_type cfg)
      msg (iov_buffer (fst (iov_read iov idx u))) ?n) (snd (iov_read iov idx u)))"
  let ?s1 = "?s0\<lparr>cs_heap := h\<rparr>" and ?s2 = "fold ?step [0..<n_iov cfg] (?s0\<lparr>cs_heap := h\<rparr>)"
  have q: "quiet u (fold ?step xs u)" for xs and u :: "'a cs"
    by (induction xs arbitrary: u) (auto intro: quiet_trans quiet_print_step)
  have res: "print_result cfg b iov i s = on_heap (c_free msg) ?s2"
    using m by (simp add: print_result_def print_iov_def Let_def split_beta)
  have keep: "iovs ?s2 = iovs ?t" "dom (ctxs ?s2) = dom (ctxs ?t)" "next_id ?s2 = next_id ?t"
    "shape (cs_heap ?s2) = shape h" "next_blk (cs_heap ?s2) = next_blk h"
    using q[of ?s1 "[0..<n_iov cfg]"] by (simp_all add: quiet_def)
  have "shape (c_free msg (cs_heap ?s2)) = shape (cs_heap ?t) \<and> heap_wf (c_free msg (cs_heap ?s2))"
  proof (cases "oom (cs_heap ?t) (attempts (cs_heap ?t))")
    case True
    with m have "msg = NULLp" "h = tried (cs_heap ?t)" by (auto simp: c_malloc_cases)
    with keep(4,5) wf heap_wf_shape[of "cs_heap ?s2" "cs_heap ?t"] show ?thesis by simp
  next
    case False
    with m have a: "msg = Addr (next_blk (cs_heap ?t)) 0" "h = grown MHost (junk_bytes ?n (cs_heap ?t)) (cs_heap ?t)"
      by (auto simp: c_malloc_cases)
    have "heap_wf (cs_heap ?s2)" using heap_wf_shape[OF keep(4,5)] a(2) wf by simp
    with shape_c_free_grown[OF wf, of "cs_heap ?s2"] a keep(4) show ?thesis by simp
  qed
  with res keep t show ?thesis by (simp add: settled_def on_heap_def quiet_def)
qed


section \<open>Buffers\<close>

lemma fold_iov_read:
  assumes "iovs s d = Some l" "set is \<subseteq> {..<length l}"
  shows "fold (\<lambda>idx s. let (v, s) = iov_read (Some d) idx s in on_heap (F (iov_buffer v)) s) is s =
     on_heap (fold F (map (\<lambda>i. iov_buffer (l ! i)) is)) s"
  using assms
  by (induction "is" arbitrary: s) (auto simp: iov_read_def on_heap_def)

lemma buffer_free_eval:
  assumes "iovs s d = Some l" "length l = n_iov cfg"
  shows "buffer_free cfg (Some d) s =
     s\<lparr>cs_heap := fold (mem_type_free (have_cuda cfg) (test_mem_type cfg)) (map iov_buffer l) (cs_heap s),
       iovs := (iovs s)(d := None)\<rparr>"
proof -
  have "map (\<lambda>i. iov_buffer (l ! i)) [0..<n_iov cfg] = map iov_buffer l"
    by (rule nth_equalityI) (auto simp: assms(2))
  then have "fold (\<lambda>idx s. let (v, s) = iov_read (Some d) idx s in
        on_heap (mem_type_free (have_cuda cfg) (test_mem_type cfg) (iov_buffer v)) s) [0..<n_iov cfg] s =
      on_heap (fold (mem_type_free (have_cuda cfg) (test_mem_type cfg)) (map iov_buffer l)) s"
    using fold_iov_read[OF assms(1), of "[0..<n_iov cfg]" "mem_type_free (have_cuda cfg) (test_mem_type cfg)"] assms(2)
    by (simp add: atLeast0LessThan)
  with assms(1) show ?thesis by (simp add: buffer_free_def iov_free_def on_heap_def)
qed

text \<open>
  State \<open>s\<close> holds a full array \<open>d\<close> of buffers; without them its heap is that of \<open>s0\<close>.
\<close>

definition holding :: "cs_config \<Rightarrow> nat \<Rightarrow> 'w cs \<Rightarrow> 'w cs \<Rightarrow> bool" where
  "holding cfg d s0 s \<longleftrightarrow> iovs s0 d = None \<and> heap_wf (cs_heap s) \<and>
     (\<exists>l. iovs s = (iovs s0)(d \<mapsto> l) \<and> length l = n_iov cfg \<and>
        mt.pool (test_mem_type cfg) (have_cuda cfg) (size_t (test_string_length cfg))
          (map iov_buffer l) (cs_heap s) \<and>
        mt.rest (map iov_buffer l) (cs_heap s) = shape (cs_heap s0))"

text \<open>Everything has been given back.\<close>

definition restored :: "'w cs \<Rightarrow> 'w cs \<Rightarrow> bool" where
  "restored s0 s \<longleftrightarrow> shape (cs_heap s) = shape (cs_heap s0) \<and> heap_wf (cs_heap s) \<and> iovs s = iovs s0"

lemma holding_settled: "holding cfg d s0 s \<Longrightarrow> settled s s' \<Longrightarrow> holding cfg d s0 s'"
  unfolding holding_def settled_def
  using mt.pool_shape[of "cs_heap s'" "cs_heap s"] mt.rest_shape[of "cs_heap s'" "cs_heap s"]
  by auto

lemma holding_quiet: "holding cfg d s0 s \<Longrightarrow> quiet s s' \<Longrightarrow> holding cfg d s0 s'"
  using holding_settled quiet_settled by (metis holding_def)

lemma restored_buffer_free:
  assumes "holding cfg d s0 s"
  shows "restored s0 (buffer_free cfg (Some d) s)"
    and "dom (ctxs (buffer_free cfg (Some d) s)) = dom (ctxs s)"
    and "next_id (buffer_free cfg (Some d) s) = next_id s"
proof -
  from assms obtain l where l: "iovs s = (iovs s0)(d \<mapsto> l)" "length l = n_iov cfg"
    "mt.pool (test_mem_type cfg) (have_cuda cfg) (size_t (test_string_length cfg))
          (map iov_buffer l) (cs_heap s)"
    "mt.rest (map iov_buffer l) (cs_heap s) = shape (cs_heap s0)"
    "heap_wf (cs_heap s)" "iovs s0 d = None"
    by (auto simp: holding_def)
  have ev: "buffer_free cfg (Some d) s =
     s\<lparr>cs_heap := fold (mem_type_free (have_cuda cfg) (test_mem_type cfg)) (map iov_buffer l) (cs_heap s),
       iovs := (iovs s)(d := None)\<rparr>"
    using l(1,2) by (intro buffer_free_eval) auto
  from mt.free_pool[OF l(3,5)] l(1,4,6) ev
  show "restored s0 (buffer_free cfg (Some d) s)"
    by (auto simp: restored_def fun_upd_idem)
  show "dom (ctxs (buffer_free cfg (Some d) s)) = dom (ctxs s)"
    "next_id (buffer_free cfg (Some d) s) = next_id s"
    using ev by simp_all
qed

lemma buffer_malloc_from_spec:
  assumes "iovs s = (iovs s0)(d \<mapsto> xs @ replicate m null_iov)" "iovs s0 d = None"
    and "length xs + m = n_iov cfg" "heap_wf (cs_heap s)"
    and "mt.pool (test_mem_type cfg) (have_cuda cfg) (size_t (test_string_length cfg))
          (map iov_buffer xs) (cs_heap s)"
    and "mt.rest (map iov_buffer xs) (cs_heap s) = shape (cs_heap s0)"
    and "buffer_malloc_from cfg (Some d) [length xs..<n_iov cfg] s = (r, s')"
  shows "(if r = 0 then holding cfg d s0 s' else restored s0 s') \<and>
     dom (ctxs s') = dom (ctxs s) \<and> next_id s' = next_id s"
  using assms
proof (induction m arbitrary: xs s)
  case 0
  then have eq: "r = 0" "s' = s" "length xs = n_iov cfg" by auto
  have "holding cfg d s0 s"
    unfolding holding_def using 0 by (intro conjI exI[of _ xs]) (simp_all add: fun_upd_def)
  with eq show ?case by simp
next
  case (Suc m)
  let ?len = "size_t (test_string_length cfg)"
  obtain p h where a: "mem_type_malloc (have_cuda cfg) (test_mem_type cfg) ?len (cs_heap s) = (p, h)"
    by fastforce
  let ?v = "\<lparr>iov_buffer = p, iov_length = ?len\<rparr>"
  let ?s = "s\<lparr>cs_heap := h, iovs := (iovs s0)(d \<mapsto> (xs @ [?v]) @ replicate m null_iov)\<rparr>"
  have w: "iov_write (Some d) (length xs) ?v (s\<lparr>cs_heap := h\<rparr>) = ?s"
    using Suc.prems(1) by (simp add: iov_write_def fun_upd_def cong: if_cong)
  have up: "[length xs..<n_iov cfg] = length xs # [length (xs @ [?v])..<n_iov cfg]"
    using Suc.prems(3) by (simp add: upt_conv_Cons)
  note al = mt.pool_alloc[OF Suc.prems(5,4) a]
  have pl: "mt.pool (test_mem_type cfg) (have_cuda cfg) ?len (map iov_buffer (xs @ [?v])) (cs_heap ?s)"
    and rs: "mt.rest (map iov_buffer (xs @ [?v])) (cs_heap ?s) = shape (cs_heap s0)"
    and wf: "heap_wf (cs_heap ?s)"
    using al Suc.prems(6) by simp_all
  show ?case
  proof (cases "p = NULLp")
    case True
    have "\<forall>q\<in>set (map iov_buffer (replicate m null_iov)). mt_inert (test_mem_type cfg) q"
      by (simp add: null_iov_def)
    note in_ = mt.pool_inert[OF this] mt.rest_inert[OF this]
    let ?l = "(xs @ [?v]) @ replicate m null_iov"
    have m: "map iov_buffer ?l = map iov_buffer (xs @ [?v]) @ map iov_buffer (replicate m null_iov)"
      by (rule map_append)
    have "mt.pool (test_mem_type cfg) (have_cuda cfg) ?len (map iov_buffer ?l) (cs_heap ?s)"
      "mt.rest (map iov_buffer ?l) (cs_heap ?s) = shape (cs_heap s0)"
      unfolding m in_ by (rule pl, rule rs)
    moreover have "length ?l = n_iov cfg" "iovs ?s = (iovs s0)(d \<mapsto> ?l)" using Suc.prems(3) by simp_all
    ultimately have "holding cfg d s0 ?s"
      unfolding holding_def using wf Suc.prems(2) by blast
    note f = restored_buffer_free[OF this]
    from Suc.prems(7) True a w have "r = -1" "s' = buffer_free cfg (Some d) ?s"
      unfolding up by (auto simp: Let_def)
    with f show ?thesis by simp
  next
    case False
    with Suc.prems(7) a w have "buffer_malloc_from cfg (Some d) [length (xs @ [?v])..<n_iov cfg] ?s = (r, s')"
      unfolding up by (simp add: Let_def)
    with Suc.IH[of ?s "xs @ [?v]"] pl rs wf Suc.prems(2,3) show ?thesis by simp
  qed
qed

subsection \<open>Filling\<close>

lemma mem_type_memcpy_next [simp]: "next_blk (mem_type_memcpy hc tmt d s n h) = next_blk h"
  by (auto simp: mem_type_memcpy_def split: ucs_memory_type.splits)

lemma generate_test_string_shape:
  assumes "heap_wf h" "generate_test_string hc tmt str n h = (r, h')"
  shows "shape h' = shape h \<and> heap_wf h'"
proof (cases "oom h (attempts h)")
  case True
  with assms show ?thesis by (auto simp: generate_test_string_def c_malloc_cases)
next
  case False
  let ?g = "grown MHost (junk_bytes n h) h"
  let ?h1 = "mem_type_memcpy hc tmt str (Addr (next_blk h) 0) n
     (fill_pattern (size_t (int n - 1)) 0 (Addr (next_blk h) 0) ?g)"
  have s: "shape ?h1 = shape ?g" "next_blk ?h1 = next_blk ?g" by (simp_all add: fill_pattern_shape)
  then have "heap_wf ?h1" using heap_wf_shape[of ?h1 ?g] assms(1) by simp
  moreover have "h' = c_free (Addr (next_blk h) 0) ?h1"
    using assms(2) False by (auto simp: generate_test_string_def c_malloc_cases Let_def)
  ultimately show ?thesis using shape_c_free_grown[OF assms(1) s(1)] by simp
qed

lemma settled_fill_buffer_from:
  assumes "heap_wf (cs_heap s)"
  shows "settled s (snd (fill_buffer_from cfg iov is s))"
  using assms
proof (induction "is" arbitrary: s)
  case Nil
  then show ?case by (simp add: settled_def)
next
  case (Cons i "is")
  obtain v s1 where r: "iov_read iov i s = (v, s1)" by fastforce
  obtain ret h where g: "generate_test_string (have_cuda cfg) (test_mem_type cfg) (iov_buffer v)
      (iov_length v) (cs_heap s1) = (ret, h)" by fastforce
  have "quiet s s1" using quiet_iov_read[of s iov i] r by simp
  with Cons.prems have one: "settled s s1" by (simp add: quiet_settled)
  then have wf: "heap_wf (cs_heap s1)" by (simp add: settled_def)
  from generate_test_string_shape[OF wf g] have "settled s1 (s1\<lparr>cs_heap := h\<rparr>)"
    by (simp add: settled_def)
  with one have two: "settled s (s1\<lparr>cs_heap := h\<rparr>)" by (rule settled_trans)
  then have "heap_wf (cs_heap (s1\<lparr>cs_heap := h\<rparr>))" by (simp add: settled_def)
  from Cons.IH[OF this] two show ?case
    using r g by (auto simp: Let_def intro: settled_trans)
qed

section \<open>One message leaves no memory behind\<close>

lemma fill_request_param_spec:
  assumes "iovs s = (iovs s0)(d \<mapsto> replicate (n_iov cfg) null_iov)" "iovs s0 d = None"
    and "heap_wf (cs_heap s)" "shape (cs_heap s) = shape (cs_heap s0)"
    and "fill_request_param cfg (Some d) b ctx s = (fp, s')" "ctxs s ctx \<noteq> None"
  shows "(if fp = None then restored s0 s' else holding cfg d s0 s') \<and>
     dom (ctxs s') = dom (ctxs s) \<and> next_id s' = next_id s"
proof -
  obtain r s1 where bm: "buffer_malloc cfg (Some d) s = (r, s1)" by fastforce
  have one: "(if r = 0 then holding cfg d s0 s1 else restored s0 s1) \<and>
     dom (ctxs s1) = dom (ctxs s) \<and> next_id s1 = next_id s"
    using buffer_malloc_from_spec[of s s0 d "[]" "n_iov cfg" cfg r s1] assms(1-4) bm
    by (simp add: buffer_malloc_def)
  show ?thesis
  proof (cases "r = 0")
    case False
    with assms(5) bm one show ?thesis by (auto simp: fill_request_param_def)
  next
    case True
    obtain r2 s2 where fb: "(if b then fill_buffer cfg (Some d) s1 else (0, s1)) = (r2, s2)" by fastforce
    from one True have h1: "holding cfg d s0 s1" by simp
    then have "heap_wf (cs_heap s1)" by (simp add: holding_def)
    with fb have two: "settled s1 s2"
      using settled_fill_buffer_from[of s1 cfg "Some d" "[0..<n_iov cfg]"]
      by (auto simp: fill_buffer_def settled_def split: if_splits)
    with h1 have h2: "holding cfg d s0 s2" by (rule holding_settled)
    show ?thesis
    proof (cases "r2 = 0")
      case False
      with assms(5) bm True fb have "fp = None" "s' = buffer_free cfg (Some d) s2"
        by (auto simp: fill_request_param_def)
      with restored_buffer_free[OF h2] one two show ?thesis by (auto simp: settled_def)
    next
      case r2: True
      obtain v s3 where ir: "(if iov_cnt cfg = 1 then iov_read (Some d) 0 s2 else (null_iov, s2)) = (v, s3)"
        by fastforce
      have q: "quiet s2 s3"
      proof (cases "iov_cnt cfg = 1")
        case True
        with ir have "s3 = snd (iov_read (Some d) 0 s2)" by simp
        then show ?thesis using quiet_iov_read[of s2 "Some d" 0] by simp
      next
        case False
        with ir show ?thesis by simp
      qed
      with h2 have h3: "holding cfg d s0 s3" by (rule holding_quiet)
      have dm: "dom (ctxs s3) = dom (ctxs s)" "next_id s3 = next_id s"
        using q one two by (simp_all add: quiet_def settled_def)
      from assms(5) bm True fb r2 ir have fp: "fp \<noteq> None" "s' = s3\<lparr>ctxs := (ctxs s3)(ctx \<mapsto> False)\<rparr>"
        by (auto simp: fill_request_param_def)
      have "ctx \<in> dom (ctxs s)" using assms(6) by blast
      then have "dom (ctxs s') = dom (ctxs s)" using fp(2) dm by auto
      moreover have "holding cfg d s0 s'" using h3 fp(2) by (simp add: holding_def)
      ultimately show ?thesis using fp(1) fp(2) dm(2) by (simp only: if_False) simp
    qed
  qed
qed

definition cs_wf :: "'w cs \<Rightarrow> bool" where
  "cs_wf s \<longleftrightarrow> heap_wf (cs_heap s) \<and> (\<forall>i \<ge> next_id s. iovs s i = None \<and> ctxs s i = None)"

text \<open>The memory of the program is the same again: blocks, arrays and request contexts.\<close>

definition no_leak :: "'w cs \<Rightarrow> 'w cs \<Rightarrow> bool" where
  "no_leak s s' \<longleftrightarrow> shape (cs_heap s') = shape (cs_heap s) \<and> iovs s' = iovs s \<and>
     dom (ctxs s') = dom (ctxs s) \<and> cs_wf s'"

lemma request_finalize_restored:
  assumes h: "holding cfg d s0 s"
    and rf: "request_finalize fuel api cfg worker request ctx b (Some d) i s = Some (ret, s')"
  shows "restored s0 s' \<and> dom (ctxs s') = dom (ctxs s) \<and> next_id s' = next_id s"
proof -
  from rf obtain st s1 where rw: "request_wait fuel api cfg worker request ctx s = Some (st, s1)"
    by (auto simp: request_finalize_def split: bind_splits)
  have q: "quiet s s1" using rw by (rule quiet_request_wait)
  with h have h1: "holding cfg d s0 s1" by (rule holding_quiet)
  then have wf: "heap_wf (cs_heap s1)" by (simp add: holding_def)
  define u where "u = (if st = UCS_OK then prints_eval cfg i s1 else s1)"
  define s2 where "s2 = (if st = UCS_OK \<and> prints cfg i then print_result cfg b (Some d) i u else u)"
  have u: "settled s1 u" using quiet_settled[OF quiet_prints_eval wf] wf by (simp add: u_def settled_def)
  then have "heap_wf (cs_heap u)" by (simp add: settled_def)
  from settled_print_result[OF this] this have "settled u s2" by (simp add: s2_def settled_def)
  with u have st: "settled s1 s2" by (rule settled_trans)
  with h1 have h2: "holding cfg d s0 s2" by (rule holding_settled)
  have "s' = buffer_free cfg (Some d) s2"
    using rf rw by (auto simp: request_finalize_def s2_def u_def Let_def split: if_splits)
  with restored_buffer_free[OF h2] st q show ?thesis by (simp add: settled_def quiet_def)
qed

lemma n_iov_alloc:
  "0 < iov_cnt cfg \<Longrightarrow> iov_cnt cfg * 16 < 2 ^ 64 \<Longrightarrow> size_t (iov_cnt cfg * 16) div 16 = n_iov cfg"
  by (simp add: n_iov_def size_t_def nat_div_distrib[symmetric])

text \<open>
  What the three exchanges share: set up, one library call that gives a request, wait and clean up.
\<close>

definition exchange :: "(nat option \<Rightarrow> msg_ref \<Rightarrow> nat \<Rightarrow> ucp_request_param \<Rightarrow> 'w cs \<Rightarrow> (ucs_ptr \<times> 'w cs) option) \<Rightarrow>
    nat \<Rightarrow> 'w ucp_api \<Rightarrow> cs_config \<Rightarrow> nat \<Rightarrow> bool \<Rightarrow> int \<Rightarrow> 'w cs \<Rightarrow> (int \<times> 'w cs) option" where
  "exchange call fuel api cfg worker is_server current_iter s =
     (let (iov, s) = iov_alloc cfg s; (ctx, s) = push_ctx s;
          (fp, s) = fill_request_param cfg iov (\<not> is_server) ctx s
      in case fp of
           None \<Rightarrow> Some (-1, pop_ctx ctx s)
         | Some (msg, msg_length, param) \<Rightarrow> do {
             (request, s) \<leftarrow> call iov msg msg_length param s;
             (ret, s) \<leftarrow> request_finalize fuel api cfg worker request ctx is_server iov current_iter s;
             Some (ret, pop_ctx ctx s)
           })"

lemma exchange_no_leak:
  assumes wf: "cs_wf s" and ok: "\<not> oom (cs_heap s) (attempts (cs_heap s))"
    and cnt: "0 < iov_cnt cfg" "iov_cnt cfg * 16 < 2 ^ 64"
    and q: "\<And>iov msg len param u r u'. call iov msg len param u = Some (r, u') \<Longrightarrow> quiet u u'"
    and ex: "exchange call fuel api cfg worker b i s = Some (ret, s')"
  shows "no_leak s s'"
proof -
  let ?d = "next_id s" and ?c = "Suc (next_id s)"
  define sa where "sa = snd (iov_alloc cfg s)"
  define s1 where "s1 = snd (push_ctx sa)"
  have al: "iov_alloc cfg s = (Some ?d, sa)" "push_ctx sa = (?c, s1)"
    using ok by (simp_all add: iov_alloc_def Let_def push_ctx_def s1_def sa_def)
  have s1: "iovs s1 = (iovs s)(?d \<mapsto> replicate (n_iov cfg) null_iov)" "cs_heap s1 = tried (cs_heap s)"
    "dom (ctxs s1) = insert ?c (dom (ctxs s))" "next_id s1 = Suc ?c"
    unfolding s1_def sa_def iov_alloc_def Let_def n_iov_alloc[OF cnt]
    using ok by (simp_all add: push_ctx_def on_heap_def)
  have fresh: "iovs s ?d = None" "ctxs s ?c = None" "ctxs s1 ?c \<noteq> None"
    using wf s1(3) by (auto simp: cs_wf_def)
  have wf1: "heap_wf (cs_heap s1)" "shape (cs_heap s1) = shape (cs_heap s)"
    using wf by (simp_all add: s1(2) cs_wf_def)
  obtain fp s2 where fp: "fill_request_param cfg (Some ?d) (\<not> b) ?c s1 = (fp, s2)" by fastforce
  note spec = fill_request_param_spec[OF s1(1) fresh(1) wf1 fp fresh(3)]
  have "\<exists>s3. restored s s3 \<and> dom (ctxs s3) = dom (ctxs s1) \<and> next_id s3 = next_id s1 \<and> s' = pop_ctx ?c s3"
  proof (cases fp)
    case None
    with ex al fp spec show ?thesis by (auto simp: exchange_def)
  next
    case (Some p)
    obtain msg len param where p: "p = (msg, len, param)" by (cases p) auto
    from ex al fp Some p obtain req s3 s4 where
      c: "call (Some ?d) msg len param s2 = Some (req, s3)" and
      f: "request_finalize fuel api cfg worker req ?c b (Some ?d) i s3 = Some (ret, s4)" and
      s': "s' = pop_ctx ?c s4"
      by (auto simp: exchange_def split: bind_splits)
    from q[OF c] have "quiet s2 s3" .
    moreover have "holding cfg ?d s s2" using spec Some by simp
    ultimately have "holding cfg ?d s s3" by (metis holding_quiet)
    from request_finalize_restored[OF this f] spec \<open>quiet s2 s3\<close> s'
    show ?thesis by (auto simp: quiet_def)
  qed
  then obtain s3 where s3: "restored s s3" "dom (ctxs s3) = dom (ctxs s1)" "next_id s3 = next_id s1"
    "s' = pop_ctx ?c s3" by blast
  have dom: "dom (ctxs s') = dom (ctxs s)" using s3(2,4) s1(3) fresh(2) by (auto simp: pop_ctx_def)
  have "ctxs s' j = None" if "j \<ge> next_id s'" for j
  proof -
    have "j \<ge> next_id s" using that s3(3,4) s1(4) by (simp add: pop_ctx_def)
    then have "j \<notin> dom (ctxs s)" using wf by (auto simp: cs_wf_def)
    then show ?thesis using dom by blast
  qed
  with dom show ?thesis
    using s3 s1(4) wf by (auto simp: no_leak_def restored_def cs_wf_def pop_ctx_def)
qed

text \<open>The library call that moves the message, by communication type.\<close>

definition send_op_of :: "send_recv_type \<Rightarrow> send_op" where
  "send_op_of typ = (if typ = CLIENT_SERVER_SEND_RECV_STREAM then Stream_send
     else if typ = CLIENT_SERVER_SEND_RECV_TAG then Tag_send TAG else Am_send TEST_AM_ID)"

definition message_call :: "nat \<Rightarrow> 'w ucp_api \<Rightarrow> cs_config \<Rightarrow> nat \<Rightarrow> nat \<Rightarrow> send_recv_type \<Rightarrow> bool \<Rightarrow>
    nat option \<Rightarrow> msg_ref \<Rightarrow> nat \<Rightarrow> ucp_request_param \<Rightarrow> 'w cs \<Rightarrow> (ucs_ptr \<times> 'w cs) option" where
  "message_call fuel api cfg worker ep typ is_server iov msg len param s =
     (if \<not> is_server then
        Some (ucp_send_nbx api cfg (send_op_of typ) ep msg len (param\<lparr>param_cb := Some Cb_send\<rparr>) s)
      else if typ = CLIENT_SERVER_SEND_RECV_STREAM then
        Some (ucp_recv_nbx api cfg Stream_recv ep msg len
                (param\<lparr>op_attr_mask := op_attr_mask param \<union> {UCP_OP_ATTR_FIELD_FLAGS},
                       param_waitall := True, param_cb := Some Cb_stream_recv\<rparr>) s)
      else if typ = CLIENT_SERVER_SEND_RECV_TAG then
        Some (ucp_recv_nbx api cfg (Tag_recv TAG 0) worker msg len (param\<lparr>param_cb := Some Cb_tag_recv\<rparr>) s)
      else am_receive fuel api cfg worker iov msg len param s)"

lemma communication_exchange:
  assumes "typ \<in> {1, 2, 4}"
  shows "client_server_communication fuel api cfg worker ep typ b i s =
     exchange (message_call fuel api cfg worker ep typ b) fuel api cfg worker b i s"
proof -
  consider "typ = 1" | "typ = 2" | "typ = 4" using assms by auto
  then show ?thesis
  proof cases
    case 1
    then show ?thesis
      by (auto simp: client_server_communication_def send_recv_stream_def exchange_def message_call_def
            send_op_of_def Let_def split_beta split: option.splits)
  next
    case 2
    then show ?thesis
      by (auto simp: client_server_communication_def send_recv_tag_def exchange_def message_call_def
            send_op_of_def Let_def split_beta split: option.splits)
  next
    case 3
    then show ?thesis
      by (auto simp: client_server_communication_def send_recv_am_def exchange_def message_call_def
            send_op_of_def Let_def split_beta split: option.splits)
  qed
qed

lemma quiet_message_call:
  "message_call fuel api cfg worker ep typ b iov msg len param u = Some (r, u') \<Longrightarrow> quiet u u'"
  by (auto simp: message_call_def split: if_splits intro: quiet_send quiet_recv quiet_am_receive)

lemma communication_no_leak:
  assumes "cs_wf s" "\<not> oom (cs_heap s) (attempts (cs_heap s))"
    and "0 < iov_cnt cfg" "iov_cnt cfg * 16 < 2 ^ 64"
    and "client_server_communication fuel api cfg worker ep typ b i s = Some (ret, s')"
  shows "no_leak s s'"
proof (cases "typ \<in> {1, 2, 4}")
  case True
  from assms(5)[unfolded communication_exchange[OF True]] show ?thesis
    by (rule exchange_no_leak[OF assms(1-4), rotated]) (rule quiet_message_call)
next
  case False
  with assms(1,5) show ?thesis by (auto simp: client_server_communication_def no_leak_def)
qed

end
