(* ===== verification/Cs_Payload.thy ===== *)
theory Cs_Payload
  imports Cs_Memory
begin

text \<open>
  What the messages of \<open>ucp_client_server.c\<close> contain: the bytes the client hands to UCP are the
  test strings, one per buffer, and the bytes an eager active message carries end up in the
  receive buffers in order.
\<close>

section \<open>The buffers of a message\<close>

definition buf_len :: "cs_config \<Rightarrow> nat" where
  "buf_len cfg = size_t (test_string_length cfg)"

text \<open>The entries of the array when buffer \<open>i\<close> is block \<open>base + i\<close>.\<close>

definition iov_at :: "cs_config \<Rightarrow> nat \<Rightarrow> nat \<Rightarrow> ucp_dt_iov" where
  "iov_at cfg base i = \<lparr>iov_buffer = Addr (base + i) 0, iov_length = buf_len cfg\<rparr>"

definition calm :: "heap \<Rightarrow> bool" where
  "calm h \<longleftrightarrow> heap_wf h \<and> (\<forall>a. \<not> oom h a) \<and> \<not> faulted h"

text \<open>The first \<open>k\<close> buffers satisfy \<open>P\<close>; all of them are there.\<close>

definition bufs :: "cs_config \<Rightarrow> nat \<Rightarrow> (nat \<Rightarrow> byte list \<Rightarrow> bool) \<Rightarrow> nat \<Rightarrow> nat \<Rightarrow> heap \<Rightarrow> bool" where
  "bufs cfg base P k m h \<longleftrightarrow> calm h \<and> base + m \<le> next_blk h \<and>
     (\<forall>i<m. \<exists>bs. length bs = buf_len cfg \<and> (i < k \<longrightarrow> P i bs) \<and>
        blocks h (base + i) = Some \<lparr>b_kind = kind_of (test_mem_type cfg), b_bytes = bs\<rparr>)"

lemma bufs_grow:
  assumes "bufs cfg base P 0 j h" "next_blk h = base + j"
  shows "bufs cfg base P 0 (Suc j) (grown (kind_of (test_mem_type cfg)) (junk_bytes (buf_len cfg) h) h)"
  using assms by (auto simp: bufs_def calm_def faulted_def less_Suc_eq)

lemma buffer_malloc_from_ok:
  assumes "type_ok (test_mem_type cfg) (have_cuda cfg)"
    and "iovs s d = Some (map (iov_at cfg base) [0..<j] @ replicate m null_iov)"
    and "j + m = n_iov cfg" "next_blk (cs_heap s) = base + j" "bufs cfg base P 0 j (cs_heap s)"
  shows "\<exists>h'. buffer_malloc_from cfg (Some d) [j..<n_iov cfg] s =
       (0, s\<lparr>cs_heap := h', iovs := (iovs s)(d \<mapsto> map (iov_at cfg base) [0..<n_iov cfg])\<rparr>) \<and>
     bufs cfg base P 0 (n_iov cfg) h'"
  using assms(2-)
proof (induction m arbitrary: j s)
  case 0
  then show ?case by (intro exI[of _ "cs_heap s"]) (auto simp: fun_upd_idem)
next
  case (Suc m)
  let ?h = "grown (kind_of (test_mem_type cfg)) (junk_bytes (buf_len cfg) (cs_heap s)) (cs_heap s)"
  let ?l = "map (iov_at cfg base) [0..<Suc j] @ replicate m null_iov"
  let ?s = "s\<lparr>cs_heap := ?h, iovs := (iovs s)(d \<mapsto> ?l)\<rparr>"
  have a: "mem_type_malloc (have_cuda cfg) (test_mem_type cfg) (buf_len cfg) (cs_heap s) =
      (Addr (base + j) 0, ?h)"
    using mem_type_malloc_ok[OF assms(1)] Suc.prems(3,4) by (simp add: bufs_def calm_def)
  have w: "iov_write (Some d) j (iov_at cfg base j) (s\<lparr>cs_heap := ?h\<rparr>) = ?s"
    using Suc.prems(1,2) by (simp add: iov_write_def list_update_append)
  have up: "[j..<n_iov cfg] = j # [Suc j..<n_iov cfg]"
    using Suc.prems(2) by (simp add: upt_conv_Cons)
  have step: "buffer_malloc_from cfg (Some d) [j..<n_iov cfg] s =
      buffer_malloc_from cfg (Some d) [Suc j..<n_iov cfg] ?s"
    unfolding up using a w by (simp add: buf_len_def[symmetric] iov_at_def[symmetric] Let_def)
  have "bufs cfg base P 0 (Suc j) (cs_heap ?s)"
    using bufs_grow[OF Suc.prems(4,3)] by simp
  with Suc.IH[of ?s "Suc j"] Suc.prems(2,3) show ?case
    unfolding step by (simp cong: if_cong)
qed

lemma fill_buffer_from_ok:
  assumes "type_ok (test_mem_type cfg) (have_cuda cfg)" "0 < buf_len cfg" "buf_len cfg \<le> 2 ^ 31"
    and "iovs s d = Some (map (iov_at cfg base) [0..<n_iov cfg])"
    and "j \<le> n_iov cfg" "bufs cfg base (\<lambda>i bs. \<exists>c. bs = test_pattern (buf_len cfg) c) j (n_iov cfg) (cs_heap s)"
  shows "\<exists>s'. fill_buffer_from cfg (Some d) [j..<n_iov cfg] s = (0, s') \<and> iovs s' = iovs s \<and>
     bufs cfg base (\<lambda>i bs. \<exists>c. bs = test_pattern (buf_len cfg) c) (n_iov cfg) (n_iov cfg) (cs_heap s') \<and>
     ctxs s' = ctxs s"
  using assms(4-)
proof (induction "n_iov cfg - j" arbitrary: j s)
  case 0
  then show ?case by auto
next
  case (Suc m)
  let ?P = "\<lambda>i bs. \<exists>c. bs = test_pattern (buf_len cfg) c"
  let ?K = "kind_of (test_mem_type cfg)" and ?h = "cs_heap s"
  from Suc.hyps(2) have j: "j < n_iov cfg" by simp
  with Suc.prems(3) obtain bs where bs: "length bs = buf_len cfg"
    "blocks ?h (base + j) = Some \<lparr>b_kind = ?K, b_bytes = bs\<rparr>" by (auto simp: bufs_def)
  define pat where "pat = test_pattern (buf_len cfg) (junk ?h (next_blk ?h) (buf_len cfg - 1))"
  let ?h' = "with_string (base + j) 0 pat \<lparr>b_kind = ?K, b_bytes = bs\<rparr> ?h"
  let ?s = "s\<lparr>cs_heap := ?h'\<rparr>"
  have c: "calm ?h" using Suc.prems(3) by (simp add: bufs_def)
  have lp: "length pat = buf_len cfg" using assms(2) by (simp add: pat_def)
  have g: "generate_test_string (have_cuda cfg) (test_mem_type cfg) (Addr (base + j) 0) (buf_len cfg) ?h = (0, ?h')"
    unfolding pat_def using c bs assms(1-3) by (intro generate_test_string_ok) (auto simp: calm_def)
  have up: "[j..<n_iov cfg] = j # [Suc j..<n_iov cfg]" using j by (simp add: upt_conv_Cons)
  have step: "fill_buffer_from cfg (Some d) [j..<n_iov cfg] s =
      fill_buffer_from cfg (Some d) [Suc j..<n_iov cfg] ?s"
    unfolding up using g j Suc.prems(1) by (simp add: iov_read_def iov_at_def)
  have b': "blocks ?h' = (blocks ?h)(base + j \<mapsto> \<lparr>b_kind = ?K, b_bytes = pat\<rparr>)"
    using bs lp by (simp add: with_string_def splice_all)
  have "calm ?h'" "next_blk ?h' = Suc (next_blk ?h)"
    using c bs by (auto simp: calm_def with_string_def faulted_def heap_wf_def)
  moreover have "\<forall>i<n_iov cfg. \<exists>bs. length bs = buf_len cfg \<and> (i < Suc j \<longrightarrow> ?P i bs) \<and>
      blocks ?h' (base + i) = Some \<lparr>b_kind = ?K, b_bytes = bs\<rparr>"
  proof (intro allI impI)
    fix i assume i: "i < n_iov cfg"
    show "\<exists>bs. length bs = buf_len cfg \<and> (i < Suc j \<longrightarrow> ?P i bs) \<and>
      blocks ?h' (base + i) = Some \<lparr>b_kind = ?K, b_bytes = bs\<rparr>"
    proof (cases "i = j")
      case True
      with b' lp show ?thesis by (intro exI[of _ pat]) (auto simp: pat_def)
    next
      case False
      with i Suc.prems(3) b' show ?thesis by (auto simp: bufs_def less_Suc_eq)
    qed
  qed
  ultimately have "bufs cfg base ?P (Suc j) (n_iov cfg) (cs_heap ?s)"
    using Suc.prems(3) by (auto simp: bufs_def)
  with Suc.hyps(1)[of "Suc j" ?s] Suc.hyps(2) Suc.prems(1) j show ?case
    unfolding step by simp
qed

section \<open>What is sent\<close>

lemma read_targets_ok:
  "\<forall>t\<in>set ts. access any_kind (fst t) (snd t) h = None \<Longrightarrow>
     read_targets ts h = (concat (map (\<lambda>t. peek (fst t) (snd t) h) ts), h)"
  by (induction ts) (auto simp: load_def)

definition targets_at :: "cs_config \<Rightarrow> nat \<Rightarrow> (ptr \<times> nat) list" where
  "targets_at cfg base = map (\<lambda>i. (Addr (base + i) 0, buf_len cfg)) [0..<n_iov cfg]"

lemma read_targets_bufs:
  assumes "bufs cfg base P k (n_iov cfg) h"
  shows "read_targets (targets_at cfg base) h =
     (concat (map (\<lambda>i. b_bytes (the (blocks h (base + i)))) [0..<n_iov cfg]), h)"
proof -
  have "access any_kind (Addr (base + i) 0) (buf_len cfg) h = None \<and>
      peek (Addr (base + i) 0) (buf_len cfg) h = b_bytes (the (blocks h (base + i)))"
    if "i < n_iov cfg" for i
    using assms that by (fastforce simp: bufs_def access_def peek_def)
  then show ?thesis
    by (subst read_targets_ok) (auto simp: targets_at_def comp_def intro!: arg_cong[of _ _ concat])
qed

lemma msg_targets_at:
  assumes "iovs s d = Some (map (iov_at cfg base) [0..<n_iov cfg])" "0 < n_iov cfg"
  shows "msg_targets (if n_iov cfg = 1 then Msg_buffer (Addr base 0) else Msg_iov (Some d))
     (if n_iov cfg = 1 then buf_len cfg else n_iov cfg) s = targets_at cfg base"
  using assms by (auto simp: targets_at_def iov_at_def comp_def)

lemma bufs_patterns:
  assumes "bufs cfg base (\<lambda>i bs. \<exists>c. bs = test_pattern n c) m m h"
  shows "\<exists>cs. length cs = m \<and> (\<forall>i<m. b_bytes (the (blocks h (base + i))) = test_pattern n (cs ! i))"
proof -
  have "\<forall>i\<in>{..<m}. \<exists>c. b_bytes (the (blocks h (base + i))) = test_pattern n c"
    using assms by (fastforce simp: bufs_def)
  then obtain f where "\<forall>i\<in>{..<m}. b_bytes (the (blocks h (base + i))) = test_pattern n (f i)"
    by (metis bchoice)
  then show ?thesis by (intro exI[of _ "map f [0..<m]"]) auto
qed

lemma fill_request_param_client:
  assumes ty: "type_ok (test_mem_type cfg) (have_cuda cfg)"
    and len: "0 < buf_len cfg" "buf_len cfg \<le> 2 ^ 31"
    and cnt: "0 < iov_cnt cfg" "iov_cnt cfg < 2 ^ 64"
    and s: "calm (cs_heap s)" "iovs s d = Some (replicate (n_iov cfg) null_iov)"
  shows "\<exists>msg msg_length param s' cs.
     fill_request_param cfg (Some d) True ctx s = (Some (msg, msg_length, param), s') \<and>
     \<not> faulted (cs_heap s') \<and> length cs = n_iov cfg \<and>
     read_targets (msg_targets msg msg_length s') (cs_heap s') =
       (concat (map (test_pattern (buf_len cfg)) cs), cs_heap s') \<and>
     param_user_data param = ctx \<and> ctxs s' ctx = Some False"
proof -
  let ?base = "next_blk (cs_heap s)" and ?P = "\<lambda>i bs. \<exists>c. bs = test_pattern (buf_len cfg) c"
  have n: "(iov_cnt cfg = 1) = (n_iov cfg = 1)" "0 < n_iov cfg" using cnt by (auto simp: n_iov_def)
  have "bufs cfg ?base ?P 0 0 (cs_heap s)" using s(1) by (simp add: bufs_def)
  then obtain s1 where s1: "buffer_malloc cfg (Some d) s = (0, s1)"
    "iovs s1 d = Some (map (iov_at cfg ?base) [0..<n_iov cfg])"
    "bufs cfg ?base ?P 0 (n_iov cfg) (cs_heap s1)"
    using buffer_malloc_from_ok[OF ty, of s d ?base 0 "n_iov cfg" ?P] s(2)
    by (auto simp: buffer_malloc_def)
  then obtain s2 where s2: "fill_buffer cfg (Some d) s1 = (0, s2)" "iovs s2 = iovs s1"
    "bufs cfg ?base ?P (n_iov cfg) (n_iov cfg) (cs_heap s2)"
    using fill_buffer_from_ok[OF ty len, of s1 d ?base 0] by (auto simp: fill_buffer_def)
  let ?s' = "s2\<lparr>ctxs := (ctxs s2)(ctx \<mapsto> False)\<rparr>"
  let ?msg = "if n_iov cfg = 1 then Msg_buffer (Addr ?base 0) else Msg_iov (Some d)"
  let ?ml = "if n_iov cfg = 1 then buf_len cfg else n_iov cfg"
  have iv: "iovs s2 d = Some (map (iov_at cfg ?base) [0..<n_iov cfg])" using s1(2) s2(2) by simp
  then have r: "iov_read (Some d) 0 s2 = (iov_at cfg ?base 0, s2)" using n(2) by (simp add: iov_read_def)
  have ni: "size_t (iov_cnt cfg) = n_iov cfg" by (simp add: n_iov_def)
  have fp: "\<exists>param. fill_request_param cfg (Some d) True ctx s = (Some (?msg, ?ml, param), ?s') \<and>
      param_user_data param = ctx"
    unfolding fill_request_param_def ni
    using s1(1) s2(1) r n(1) by (auto simp: iov_at_def)
  from bufs_patterns[OF s2(3)] obtain cs where cs: "length cs = n_iov cfg"
    "\<forall>i<n_iov cfg. b_bytes (the (blocks (cs_heap s2) (?base + i))) = test_pattern (buf_len cfg) (cs ! i)"
    by blast
  have "map (\<lambda>i. b_bytes (the (blocks (cs_heap s2) (?base + i)))) [0..<n_iov cfg] =
      map (test_pattern (buf_len cfg)) cs"
    by (rule nth_equalityI) (simp_all add: cs)
  then have rd: "read_targets (targets_at cfg ?base) (cs_heap s2) =
      (concat (map (test_pattern (buf_len cfg)) cs), cs_heap s2)"
    using read_targets_bufs[OF s2(3)] by simp
  have mt: "msg_targets ?msg ?ml ?s' = targets_at cfg ?base"
    using msg_targets_at[of ?s' d cfg ?base] iv n(2) by simp
  have nf: "\<not> faulted (cs_heap ?s')" using s2(3) by (simp add: bufs_def calm_def)
  have "read_targets (msg_targets ?msg ?ml ?s') (cs_heap ?s') =
      (concat (map (test_pattern (buf_len cfg)) cs), cs_heap ?s')"
    unfolding mt using rd by simp
  moreover have "ctxs ?s' ctx = Some False" by simp
  ultimately show ?thesis using fp nf cs(1) by blast
qed

text \<open>The bytes behind the message descriptor are what the trace records.\<close>

lemma dispatch_trace: "\<exists>t. cs_trace (dispatch_all api cfg evs s) = cs_trace s @ t"
  using triple_dispatch_all[of "{#}" s api cfg evs] by (auto simp: cs_triple_def)

lemma send_trace:
  assumes "read_targets (msg_targets msg len s) (cs_heap s) = (bs, h)"
  shows "\<exists>r s' t. ucp_send_nbx api cfg op ep msg len param s = (r, s') \<and>
     cs_trace s' = cs_trace s @ C_send op ep bs r # t"
proof -
  obtain q evs w where a: "api_send api op ep bs param (world s) = (q, evs, w)" using prod_cases3 by blast
  let ?s = "s\<lparr>cs_heap := h, world := w, cs_trace := cs_trace s @ [C_send op ep bs q]\<rparr>"
  from dispatch_trace[of api cfg evs ?s] obtain t where
    "cs_trace (dispatch_all api cfg evs ?s) = cs_trace s @ C_send op ep bs q # t" by auto
  with a assms show ?thesis by (simp add: ucp_send_nbx_def)
qed

section \<open>What is received\<close>

text \<open>An eager active message is cut into pieces of the buffer length.\<close>

lemma am_scatter_ok:
  assumes ty: "type_ok (test_mem_type cfg) (have_cuda cfg)"
    and "iovs s d = Some (map (iov_at cfg base) [0..<n_iov cfg])"
    and "j \<le> n_iov cfg" "length bs = n_iov cfg * buf_len cfg"
    and "bufs cfg base (\<lambda>i c. c = take (buf_len cfg) (drop (i * buf_len cfg) bs)) j (n_iov cfg) (cs_heap s)"
  shows "\<exists>h'. am_scatter cfg (Some d) [j..<n_iov cfg] (drop (j * buf_len cfg) bs) s = s\<lparr>cs_heap := h'\<rparr> \<and>
     bufs cfg base (\<lambda>i c. c = take (buf_len cfg) (drop (i * buf_len cfg) bs)) (n_iov cfg) (n_iov cfg) h'"
  using assms(2-)
proof (induction "n_iov cfg - j" arbitrary: j s)
  case 0
  then show ?case by (intro exI[of _ "cs_heap s"]) auto
next
  case (Suc m)
  let ?L = "buf_len cfg" and ?K = "kind_of (test_mem_type cfg)" and ?h = "cs_heap s"
  let ?P = "\<lambda>i c. c = take ?L (drop (i * ?L) bs)"
  let ?c = "take ?L (drop (j * ?L) bs)"
  from Suc.hyps(2) have j: "j < n_iov cfg" by simp
  then have le: "Suc j * ?L \<le> n_iov cfg * ?L" by (intro mult_right_mono) auto
  then have lc: "length ?c = ?L" "?L \<le> length (drop (j * ?L) bs)" using Suc.prems(3) by auto
  from j Suc.prems(4) obtain old where old: "length old = ?L"
    "blocks ?h (base + j) = Some \<lparr>b_kind = ?K, b_bytes = old\<rparr>" by (auto simp: bufs_def)
  let ?h' = "?h\<lparr>blocks := (blocks ?h)(base + j \<mapsto> \<lparr>b_kind = ?K, b_bytes = ?c\<rparr>)\<rparr>"
  have st: "mem_type_copy_in cfg (Addr (base + j) 0) ?c ?h = ?h'"
    using ty old lc by (simp add: mem_type_copy_in_def mem_simps splice_all)
  have up: "[j..<n_iov cfg] = j # [Suc j..<n_iov cfg]" using j by (simp add: upt_conv_Cons)
  have step: "am_scatter cfg (Some d) [j..<n_iov cfg] (drop (j * ?L) bs) s =
      am_scatter cfg (Some d) [Suc j..<n_iov cfg] (drop (Suc j * ?L) bs) (s\<lparr>cs_heap := ?h'\<rparr>)"
    unfolding up using j Suc.prems(1) lc(2) st
    by (simp add: iov_read_def iov_at_def on_heap_def add.commute Let_def)
  have "calm ?h'" using Suc.prems(4) old by (auto simp: bufs_def calm_def faulted_def heap_wf_def)
  then have "bufs cfg base ?P (Suc j) (n_iov cfg) ?h'"
    using Suc.prems(4) lc(1) by (auto simp: bufs_def less_Suc_eq)
  with Suc.hyps(1)[of "Suc j" "s\<lparr>cs_heap := ?h'\<rparr>"] Suc.hyps(2) Suc.prems(1,3) j show ?case
    unfolding step by auto
qed

lemma concat_pieces:
  "length bs = m * n \<Longrightarrow> concat (map (\<lambda>i. take n (drop (i * n) bs)) [0..<m]) = bs"
proof (induction m arbitrary: bs)
  case (Suc m)
  have "concat (map (\<lambda>i. take n (drop (i * n) bs)) [0..<Suc m]) =
      take n bs @ concat (map (\<lambda>i. take n (drop (i * n) (drop n bs))) [0..<m])"
    by (simp add: map_upt_Suc comp_def add.commute del: upt_Suc)
  also have "\<dots> = take n bs @ drop n bs" using Suc.prems by (subst Suc.IH) auto
  finally show ?case by simp
qed simp

lemma cs_signed_fits: "n < 2 ^ 63 \<Longrightarrow> v = int n \<Longrightarrow> cs_signed 64 v s = s"
  by (simp add: cs_signed_def)

lemma ucp_am_data_cb_eager:
  assumes ty: "type_ok (test_mem_type cfg) (have_cuda cfg)"
    and iv: "iovs s d = Some (map (iov_at cfg base) [0..<n_iov cfg])" "recv_buf (am_data_desc s) = Some d"
    and b: "bufs cfg base P 0 (n_iov cfg) (cs_heap s)"
    and len: "size_t (iov_cnt cfg * test_string_length cfg) = n_iov cfg * buf_len cfg"
      "length bs = n_iov cfg * buf_len cfg" "length bs < 2 ^ 63" "iov_cnt cfg * test_string_length cfg = int (length bs)"
  shows "\<exists>s'. ucp_am_data_cb cfg hl (Eager bs) (length bs) s = (UCS_OK, s') \<and>
     complete (am_data_desc s') \<and> \<not> is_rndv (am_data_desc s') \<and> \<not> faulted (cs_heap s') \<and>
     read_targets (targets_at cfg base) (cs_heap s') = (bs, cs_heap s')"
proof -
  let ?Q = "\<lambda>i c. c = take (buf_len cfg) (drop (i * buf_len cfg) bs)"
  let ?s = "s\<lparr>am_data_desc := (am_data_desc s)\<lparr>complete := True, is_rndv := False\<rparr>\<rparr>"
  have "bufs cfg base ?Q 0 (n_iov cfg) (cs_heap ?s)" using b by (simp add: bufs_def)
  with am_scatter_ok[OF ty, of ?s d base 0 bs] iv(1) len(2) obtain h' where
    h': "am_scatter cfg (Some d) [0..<n_iov cfg] bs ?s = ?s\<lparr>cs_heap := h'\<rparr>"
    "bufs cfg base ?Q (n_iov cfg) (n_iov cfg) h'" by auto
  have "map (\<lambda>i. b_bytes (the (blocks h' (base + i)))) [0..<n_iov cfg] =
      map (\<lambda>i. take (buf_len cfg) (drop (i * buf_len cfg) bs)) [0..<n_iov cfg]"
    using h'(2) by (intro map_cong refl) (force simp: bufs_def)
  then have "read_targets (targets_at cfg base) h' = (bs, h')"
    using read_targets_bufs[OF h'(2)] concat_pieces[OF len(2)] by (simp only:)
  moreover have "\<not> faulted h'" using h'(2) by (simp add: bufs_def calm_def)
  ultimately show ?thesis
    using h'(1) iv(2) len(1) by (simp add: ucp_am_data_cb_def cs_signed_fits[OF len(3,4)] len(2) Let_def)
qed

section \<open>The two ends of a message\<close>

lemma client_message_sent:
  assumes "type_ok (test_mem_type cfg) (have_cuda cfg)"
    and "0 < test_string_length cfg" "test_string_length cfg \<le> 2 ^ 31"
    and "0 < iov_cnt cfg" "iov_cnt cfg < 2 ^ 64"
    and "calm (cs_heap s)" "iovs s d = Some (replicate (n_iov cfg) null_iov)"
  shows "\<exists>msg msg_length param s1 cs.
     fill_request_param cfg (Some d) True ctx s = (Some (msg, msg_length, param), s1) \<and>
     \<not> faulted (cs_heap s1) \<and> length cs = n_iov cfg \<and> ctxs s1 ctx = Some False \<and>
     (\<forall>api op ep param'. \<exists>r s2 t. ucp_send_nbx api cfg op ep msg msg_length param' s1 = (r, s2) \<and>
        cs_trace s2 = cs_trace s1 @
          C_send op ep (concat (map (test_pattern (nat (test_string_length cfg))) cs)) r # t)"
proof -
  have len: "buf_len cfg = nat (test_string_length cfg)" using assms(2,3) by (simp add: buf_len_def)
  have "0 < buf_len cfg" "buf_len cfg \<le> 2 ^ 31" using assms(2,3) len by (auto simp: nat_le_iff)
  from fill_request_param_client[OF assms(1) this assms(4-7), of ctx]
  obtain msg msg_length param s1 cs where
    fp: "fill_request_param cfg (Some d) True ctx s = (Some (msg, msg_length, param), s1)"
    "\<not> faulted (cs_heap s1)" "length cs = n_iov cfg" "ctxs s1 ctx = Some False"
    "read_targets (msg_targets msg msg_length s1) (cs_heap s1) =
       (concat (map (test_pattern (buf_len cfg)) cs), cs_heap s1)"
    by auto
  have "\<exists>r s2 t. ucp_send_nbx api cfg op ep msg msg_length param' s1 = (r, s2) \<and>
        cs_trace s2 = cs_trace s1 @ C_send op ep (concat (map (test_pattern (buf_len cfg)) cs)) r # t"
    for api op ep param'
    using send_trace[OF fp(5)] by blast
  with fp(1-4) show ?thesis unfolding len[symmetric] by blast
qed

lemma eager_message_scattered:
  assumes "type_ok (test_mem_type cfg) (have_cuda cfg)" "0 < iov_cnt cfg" "0 \<le> test_string_length cfg"
    and "iov_cnt cfg * test_string_length cfg < 2 ^ 63" "iov_cnt cfg < 2 ^ 64" "test_string_length cfg < 2 ^ 64"
    and "calm (cs_heap s)" "iovs s d = Some (replicate (n_iov cfg) null_iov)"
    and "recv_buf (am_data_desc s) = Some d"
    and "int (length bs) = iov_cnt cfg * test_string_length cfg"
  shows "\<exists>s1 s2. buffer_malloc cfg (Some d) s = (0, s1) \<and>
     ucp_am_data_cb cfg hl (Eager bs) (length bs) s1 = (UCS_OK, s2) \<and>
     complete (am_data_desc s2) \<and> \<not> is_rndv (am_data_desc s2) \<and> \<not> faulted (cs_heap s2) \<and>
     read_targets (msg_targets (Msg_iov (Some d)) (n_iov cfg) s2) (cs_heap s2) = (bs, cs_heap s2)"
proof -
  have n: "int (n_iov cfg) = iov_cnt cfg" "int (buf_len cfg) = test_string_length cfg"
    using assms(2-6) by (simp_all add: n_iov_def buf_len_def)
  then have "int (length bs) = int (n_iov cfg * buf_len cfg)" using assms(10) by simp
  then have lb: "length bs = n_iov cfg * buf_len cfg" by (simp only: of_nat_eq_iff)
  have l63: "length bs < 2 ^ 63" using assms(4) unfolding assms(10)[symmetric] by simp
  then have "length bs < 2 ^ 64" by simp
  then have "size_t (iov_cnt cfg * test_string_length cfg) = length bs"
    unfolding assms(10)[symmetric] by (rule size_t_of_nat)
  with lb have sz: "size_t (iov_cnt cfg * test_string_length cfg) = n_iov cfg * buf_len cfg" by simp
  let ?base = "next_blk (cs_heap s)" and ?P = "\<lambda>i bs. True"
  have "bufs cfg ?base ?P 0 0 (cs_heap s)" using assms(7) by (simp add: bufs_def)
  then obtain s1 where s1: "buffer_malloc cfg (Some d) s = (0, s1)"
    "iovs s1 d = Some (map (iov_at cfg ?base) [0..<n_iov cfg])"
    "bufs cfg ?base ?P 0 (n_iov cfg) (cs_heap s1)" "am_data_desc s1 = am_data_desc s"
    using buffer_malloc_from_ok[OF assms(1), of s d ?base 0 "n_iov cfg" ?P] assms(8)
    by (auto simp: buffer_malloc_def)
  from s1(4) ucp_am_data_cb_eager[OF assms(1) s1(2) _ s1(3) sz lb l63 assms(10)[symmetric], of hl] assms(9) obtain s2 where
    s2: "ucp_am_data_cb cfg hl (Eager bs) (length bs) s1 = (UCS_OK, s2)"
    "complete (am_data_desc s2)" "\<not> is_rndv (am_data_desc s2)" "\<not> faulted (cs_heap s2)"
    "read_targets (targets_at cfg ?base) (cs_heap s2) = (bs, cs_heap s2)" by auto
  have "iovs s2 = iovs s1" using quiet_am_data_cb[of s1 cfg hl "Eager bs" "length bs"] s2(1)
    by (simp add: quiet_def)
  then have "msg_targets (Msg_iov (Some d)) (n_iov cfg) s2 = targets_at cfg ?base"
    using s1(2) by (simp add: targets_at_def iov_at_def comp_def)
  with s1(1) s2 show ?thesis by auto
qed

end
