(* ===== verification/Cs_Receive.thy ===== *)
theory Cs_Receive
  imports Cs_Payload
begin

text \<open>
  The receiving side of one message of \<open>ucp_client_server.c\<close>, from the allocation of the buffers to
  their release: what the library writes is what the program prints, in each of the three modes.
\<close>

section \<open>Delivery\<close>

text \<open>What a receive does when it completes: the bytes go to the target memory in order.\<close>

fun writes :: "(ptr \<times> nat) list \<Rightarrow> byte list \<Rightarrow> lib_event list" where
  "writes [] bs = []"
| "writes ((p, n) # ts) bs = Lib_write p (take n bs) # writes ts (drop n bs)"

text \<open>
  A receive that is posted when the library is in state \<open>w\<close> gets the message \<open>bs\<close>: it completes at
  once, or its request completes later, with the callback it was given.
\<close>

definition receive_completes :: "'w ucp_api \<Rightarrow> nat \<Rightarrow> nat \<Rightarrow> recv_op \<Rightarrow> nat \<Rightarrow> byte list \<Rightarrow> 'w \<Rightarrow> bool" where
  "receive_completes api worker k op hnd bs w \<longleftrightarrow> (\<forall>ts param. sum_list (map snd ts) = length bs \<longrightarrow>
     (case api_recv api op hnd ts param w of (r, evs, w1) \<Rightarrow>
        (r = Ptr_NULL \<and> evs = writes ts bs) \<or>
        (\<exists>q w2 w3. r = Ptr_REQ q \<and> evs = [] \<and>
           arrives (api_progress api worker) k (writes ts bs @ [Lib_cb (the (param_cb param)) (Some (param_user_data param))]) w1 w2 \<and>
           api_check_status api q w2 = (UCS_OK, w3))))"

text \<open>
  The message \<open>bs\<close> reaches a program that waits for it in the given mode; an active message may be
  eager, or announced and then fetched.
\<close>

definition message_arrives :: "'w ucp_api \<Rightarrow> nat \<Rightarrow> nat \<Rightarrow> nat \<Rightarrow> send_recv_type \<Rightarrow> byte list \<Rightarrow> 'w \<Rightarrow> bool" where
  "message_arrives api worker ep k mode bs w \<longleftrightarrow>
     (if mode = CLIENT_SERVER_SEND_RECV_STREAM then receive_completes api worker k Stream_recv ep bs w
      else if mode = CLIENT_SERVER_SEND_RECV_TAG then receive_completes api worker k (Tag_recv TAG 0) worker bs w
      else (\<exists>w'. arrives (api_progress api worker) k [Lib_am_data 0 (Eager bs) (length bs)] w w') \<or>
           (\<exists>w' i. arrives (api_progress api worker) k [Lib_am_data 0 (Rndv i) (length bs)] w w' \<and>
              receive_completes api worker k (Am_recv_data i) worker bs w'))"

lemma spin_arrives:
  assumes "arrives (api_progress api worker) k evs (world s) w'" "k < fuel"
    and "\<And>w. \<not> fin (s\<lparr>world := w\<rparr>)" "fin (dispatch_all api cfg evs (s\<lparr>world := w'\<rparr>))"
  shows "spin fuel fin (ucp_worker_progress api cfg worker) s = Some (dispatch_all api cfg evs (s\<lparr>world := w'\<rparr>))"
  using assms
proof (induction k arbitrary: fuel s)
  case 0
  from "0.prems"(3)[of "world s"] have "\<not> fin s" by simp
  with "0.prems" show ?case by (cases fuel) (auto simp: ucp_worker_progress_def)
next
  case (Suc k)
  then obtain w1 where w1: "api_progress api worker (world s) = ([], w1)" "arrives (api_progress api worker) k evs w1 w'" by auto
  from Suc.prems(3)[of "world s"] have "\<not> fin s" by simp
  with Suc.IH[of "s\<lparr>world := w1\<rparr>" "fuel - 1"] Suc.prems w1 show ?case
    by (cases fuel) (auto simp: ucp_worker_progress_def dispatch_all_def)
qed

section \<open>The buffers in use\<close>

text \<open>Buffer \<open>i\<close> holds the \<open>i\<close>-th piece of \<open>bs\<close>.\<close>

definition piece :: "cs_config \<Rightarrow> byte list \<Rightarrow> nat \<Rightarrow> byte list" where
  "piece cfg bs i = take (buf_len cfg) (drop (i * buf_len cfg) bs)"

abbreviation holds :: "cs_config \<Rightarrow> nat \<Rightarrow> byte list \<Rightarrow> nat \<Rightarrow> heap \<Rightarrow> bool" where
  "holds cfg base bs k h \<equiv> bufs cfg base (\<lambda>i c. c = piece cfg bs i) k (n_iov cfg) h"

lemma writes_ok:
  assumes "j \<le> n_iov cfg" "length bs = n_iov cfg * buf_len cfg" "holds cfg base bs j (cs_heap s)"
  shows "\<exists>h'. dispatch_all api cfg (writes (map (\<lambda>i. (Addr (base + i) 0, buf_len cfg)) [j..<n_iov cfg])
       (drop (j * buf_len cfg) bs)) s = s\<lparr>cs_heap := h'\<rparr> \<and> holds cfg base bs (n_iov cfg) h'"
  using assms
proof (induction "n_iov cfg - j" arbitrary: j s)
  case 0
  then show ?case by (intro exI[of _ "cs_heap s"]) (auto simp: dispatch_all_def)
next
  case (Suc m)
  let ?L = "buf_len cfg" and ?K = "kind_of (test_mem_type cfg)" and ?h = "cs_heap s"
  let ?c = "piece cfg bs j"
  from Suc.hyps(2) have j: "j < n_iov cfg" by simp
  then have "Suc j * ?L \<le> n_iov cfg * ?L" by (intro mult_right_mono) auto
  then have lc: "length ?c = ?L" using Suc.prems(2) by (auto simp: piece_def)
  from j Suc.prems(3) obtain old where old: "length old = ?L"
    "blocks ?h (base + j) = Some \<lparr>b_kind = ?K, b_bytes = old\<rparr>" by (auto simp: bufs_def)
  let ?h' = "?h\<lparr>blocks := (blocks ?h)(base + j \<mapsto> \<lparr>b_kind = ?K, b_bytes = ?c\<rparr>)\<rparr>"
  have st: "store any_kind (Addr (base + j) 0) ?c ?h = ?h'"
    using old lc by (simp add: mem_simps splice_all)
  have up: "[j..<n_iov cfg] = j # [Suc j..<n_iov cfg]" using j by (simp add: upt_conv_Cons)
  have step: "dispatch_all api cfg (writes (map (\<lambda>i. (Addr (base + i) 0, ?L)) [j..<n_iov cfg]) (drop (j * ?L) bs)) s =
      dispatch_all api cfg (writes (map (\<lambda>i. (Addr (base + i) 0, ?L)) [Suc j..<n_iov cfg]) (drop (Suc j * ?L) bs))
        (s\<lparr>cs_heap := ?h'\<rparr>)"
    unfolding up using st by (simp add: dispatch_all_def on_heap_def piece_def add.commute)
  have "calm ?h'" using Suc.prems(3) old by (auto simp: bufs_def calm_def faulted_def heap_wf_def)
  then have "holds cfg base bs (Suc j) ?h'" using Suc.prems(3) lc by (auto simp: bufs_def less_Suc_eq)
  with Suc.hyps(1)[of "Suc j" "s\<lparr>cs_heap := ?h'\<rparr>"] Suc.hyps(2) Suc.prems(2) j show ?case
    unfolding step by auto
qed

section \<open>Printing\<close>

text \<open>What \<open>%.16s\<close> prints of a buffer.\<close>

definition printed :: "byte list \<Rightarrow> cs_out" where
  "printed c = Out_message (takeWhile (\<lambda>x. x \<noteq> 0) (take 16 c))"

abbreviation copy_print :: "cs_config \<Rightarrow> nat option \<Rightarrow> ptr \<Rightarrow> nat \<Rightarrow> 'w cs \<Rightarrow> 'w cs" where
  "copy_print cfg iov msg idx s \<equiv>
     (let (v, s) = iov_read iov idx s;
          s = on_heap (mem_type_memcpy (have_cuda cfg) (test_mem_type cfg) msg (iov_buffer v) (size_t (test_string_length cfg))) s
      in print_str16 msg s)"

text \<open>The temporary string of \<open>print_iov\<close>, beyond the buffers.\<close>

definition temp_at :: "cs_config \<Rightarrow> nat \<Rightarrow> nat \<Rightarrow> heap \<Rightarrow> bool" where
  "temp_at cfg base b h \<longleftrightarrow> base + n_iov cfg \<le> b \<and> b < next_blk h \<and>
     (\<exists>bs. blocks h b = Some \<lparr>b_kind = MHost, b_bytes = bs\<rparr> \<and> length bs = buf_len cfg)"

lemma length_takeWhile_all: "length (takeWhile P xs) = length xs \<longleftrightarrow> (\<forall>x\<in>set xs. P x)"
  by (metis takeWhile_eq_all_conv length_takeWhile_le takeWhile_eq_take take_all_iff order_refl)

lemma copy_print_ok:
  assumes ty: "type_ok (test_mem_type cfg) (have_cuda cfg)" and L: "16 \<le> buf_len cfg \<or> 0 \<in> set (piece cfg bs j)"
    and iv: "iovs s d = Some (map (iov_at cfg base) [0..<n_iov cfg])" and j: "j < n_iov cfg"
    and h: "holds cfg base bs (n_iov cfg) (cs_heap s)" "temp_at cfg base b (cs_heap s)"
  shows "\<exists>h'. copy_print cfg (Some d) (Addr b 0) j s = s\<lparr>cs_heap := h', cs_out := cs_out s @ [printed (piece cfg bs j)]\<rparr> \<and>
     holds cfg base bs (n_iov cfg) h' \<and> temp_at cfg base b h' \<and> (\<forall>x. x \<noteq> b \<longrightarrow> blocks h' x = blocks (cs_heap s) x)"
proof -
  let ?h = "cs_heap s" and ?K = "kind_of (test_mem_type cfg)" and ?L = "buf_len cfg"
  from h(1) j have src: "blocks ?h (base + j) = Some \<lparr>b_kind = ?K, b_bytes = piece cfg bs j\<rparr>" "length (piece cfg bs j) = ?L"
    by (auto simp: bufs_def)
  from h(2) obtain old where old: "blocks ?h b = Some \<lparr>b_kind = MHost, b_bytes = old\<rparr>" "length old = ?L" "base + n_iov cfg \<le> b"
    "b < next_blk ?h" by (auto simp: temp_at_def)
  let ?h' = "?h\<lparr>blocks := (blocks ?h)(b \<mapsto> \<lparr>b_kind = MHost, b_bytes = piece cfg bs j\<rparr>)\<rparr>"
  have ne: "base + i \<noteq> b" if "i < n_iov cfg" for i using that old(3) by simp
  have "mem_type_memcpy (have_cuda cfg) (test_mem_type cfg) (Addr b 0) (Addr (base + j) 0) ?L ?h = ?h'"
    using mem_type_memcpy_reach[OF ty] src old ne[OF j] by (simp add: mem_simps splice_all)
  moreover have pr: "print_str16 (Addr b 0) (s\<lparr>cs_heap := ?h'\<rparr>) = s\<lparr>cs_heap := ?h', cs_out := cs_out s @ [printed (piece cfg bs j)]\<rparr>"
    using L src(2) length_takeWhile_all[of "\<lambda>c. c \<noteq> 0" "piece cfg bs j"]
    by (cases "16 \<le> ?L") (auto simp: print_str16_def printed_def peek_def Let_def)
  ultimately have "copy_print cfg (Some d) (Addr b 0) j s = s\<lparr>cs_heap := ?h', cs_out := cs_out s @ [printed (piece cfg bs j)]\<rparr>"
    using iv j src(2) pr by (simp add: iov_read_def iov_at_def on_heap_def Let_def flip: buf_len_def)
  moreover have "holds cfg base bs (n_iov cfg) ?h'"
    using h(1) old ne by (auto simp: bufs_def calm_def heap_wf_def faulted_def)
  moreover have "temp_at cfg base b ?h'" using old src(2) by (simp add: temp_at_def)
  ultimately show ?thesis by (intro exI[of _ ?h']) simp
qed

lemma copy_print_all:
  assumes ty: "type_ok (test_mem_type cfg) (have_cuda cfg)" and L: "16 \<le> buf_len cfg \<or> (\<forall>j<n_iov cfg. 0 \<in> set (piece cfg bs j))"
    and "iovs s d = Some (map (iov_at cfg base) [0..<n_iov cfg])" "\<forall>i\<in>set js. i < n_iov cfg"
    and "holds cfg base bs (n_iov cfg) (cs_heap s)" "temp_at cfg base b (cs_heap s)"
  shows "\<exists>h'. fold (\<lambda>idx. copy_print cfg (Some d) (Addr b 0) idx) js s =
       s\<lparr>cs_heap := h', cs_out := cs_out s @ map (\<lambda>i. printed (piece cfg bs i)) js\<rparr> \<and>
     holds cfg base bs (n_iov cfg) h' \<and> temp_at cfg base b h'"
  using assms(3-)
proof (induction js arbitrary: s)
  case Nil
  then show ?case by (intro exI[of _ "cs_heap s"]) simp
next
  case (Cons j js)
  from copy_print_ok[OF ty _ Cons.prems(1) _ Cons.prems(3,4), of j] L Cons.prems(2) obtain h1 where
    1: "copy_print cfg (Some d) (Addr b 0) j s = s\<lparr>cs_heap := h1, cs_out := cs_out s @ [printed (piece cfg bs j)]\<rparr>"
    "holds cfg base bs (n_iov cfg) h1" "temp_at cfg base b h1" by auto
  let ?s = "s\<lparr>cs_heap := h1, cs_out := cs_out s @ [printed (piece cfg bs j)]\<rparr>"
  from Cons.IH[of ?s] Cons.prems(1,2) 1(2,3) obtain h' where
    "fold (\<lambda>idx. copy_print cfg (Some d) (Addr b 0) idx) js ?s =
       ?s\<lparr>cs_heap := h', cs_out := cs_out ?s @ map (\<lambda>i. printed (piece cfg bs i)) js\<rparr>"
    "holds cfg base bs (n_iov cfg) h'" "temp_at cfg base b h'" by auto
  with 1(1) show ?case by (intro exI[of _ h']) simp
qed

lemma print_iov_ok:
  assumes ty: "type_ok (test_mem_type cfg) (have_cuda cfg)" and L: "16 \<le> buf_len cfg \<or> (\<forall>j<n_iov cfg. 0 \<in> set (piece cfg bs j))"
    and iv: "iovs s d = Some (map (iov_at cfg base) [0..<n_iov cfg])"
    and h: "holds cfg base bs (n_iov cfg) (cs_heap s)"
  shows "\<exists>h'. print_iov cfg (Some d) s =
       s\<lparr>cs_heap := h', cs_out := cs_out s @ map (\<lambda>i. printed (piece cfg bs i)) [0..<n_iov cfg]\<rparr> \<and>
     holds cfg base bs (n_iov cfg) h'"
proof -
  let ?h = "cs_heap s" and ?b = "next_blk (cs_heap s)"
  let ?h1 = "grown MHost (junk_bytes (buf_len cfg) ?h) ?h"
  have m: "c_malloc (buf_len cfg) ?h = (Addr ?b 0, ?h1)" using h by (simp add: c_malloc_cases bufs_def calm_def)
  have "holds cfg base bs (n_iov cfg) ?h1" using h by (fastforce simp: bufs_def calm_def faulted_def)
  moreover have "temp_at cfg base ?b ?h1" using h by (simp add: temp_at_def bufs_def)
  ultimately obtain h2 where 2: "fold (\<lambda>idx. copy_print cfg (Some d) (Addr ?b 0) idx) [0..<n_iov cfg] (s\<lparr>cs_heap := ?h1\<rparr>) =
       s\<lparr>cs_heap := h2, cs_out := cs_out s @ map (\<lambda>i. printed (piece cfg bs i)) [0..<n_iov cfg]\<rparr>"
    "holds cfg base bs (n_iov cfg) h2" "temp_at cfg base ?b h2"
    using copy_print_all[OF ty L, of "s\<lparr>cs_heap := ?h1\<rparr>" d base "[0..<n_iov cfg]" ?b] iv by auto
  let ?h3 = "h2\<lparr>blocks := (blocks h2)(?b := None)\<rparr>"
  have "c_free (Addr ?b 0) h2 = ?h3" using 2(3) by (auto simp: temp_at_def mem_simps)
  moreover have "holds cfg base bs (n_iov cfg) ?h3"
    using 2(2,3) by (auto simp: bufs_def temp_at_def calm_def heap_wf_def faulted_def)
  ultimately show ?thesis using m 2(1)
    by (intro exI[of _ ?h3]) (simp add: print_iov_def on_heap_def buf_len_def[symmetric] Let_def)
qed

section \<open>Release\<close>

lemma free_bufs_ok:
  assumes ty: "type_ok (test_mem_type cfg) (have_cuda cfg)"
    and "iovs s d = Some (map (iov_at cfg base) [0..<n_iov cfg])" "\<not> faulted (cs_heap s)" "j \<le> n_iov cfg"
    and "\<forall>i. j \<le> i \<and> i < n_iov cfg \<longrightarrow> (\<exists>bs. blocks (cs_heap s) (base + i) = Some \<lparr>b_kind = kind_of (test_mem_type cfg), b_bytes = bs\<rparr>)"
  shows "\<exists>h'. fold (\<lambda>idx s. let (v, s) = iov_read (Some d) idx s
       in on_heap (mem_type_free (have_cuda cfg) (test_mem_type cfg) (iov_buffer v)) s) [j..<n_iov cfg] s = s\<lparr>cs_heap := h'\<rparr> \<and>
     \<not> faulted h'"
  using assms(2-)
proof (induction "n_iov cfg - j" arbitrary: j s)
  case 0
  then show ?case by (intro exI[of _ "cs_heap s"]) auto
next
  case (Suc m)
  from Suc.hyps(2) have j: "j < n_iov cfg" by simp
  let ?h = "(cs_heap s)\<lparr>blocks := (blocks (cs_heap s))(base + j := None)\<rparr>"
  have up: "[j..<n_iov cfg] = j # [Suc j..<n_iov cfg]" using j by (simp add: upt_conv_Cons)
  from Suc.prems(4) j obtain bs where "blocks (cs_heap s) (base + j) = Some \<lparr>b_kind = kind_of (test_mem_type cfg), b_bytes = bs\<rparr>" by blast
  then have "mem_type_free (have_cuda cfg) (test_mem_type cfg) (Addr (base + j) 0) (cs_heap s) = ?h"
    using ty by (cases "test_mem_type cfg") (simp_all add: mem_type_free_def mem_simps)
  with Suc.hyps(1)[of "Suc j" "s\<lparr>cs_heap := ?h\<rparr>"] Suc.hyps(2) Suc.prems j show ?case
    unfolding up by (simp add: iov_read_def iov_at_def on_heap_def faulted_def)
qed

lemma buffer_free_ok:
  assumes "type_ok (test_mem_type cfg) (have_cuda cfg)"
    and "iovs s d = Some (map (iov_at cfg base) [0..<n_iov cfg])" "holds cfg base bs k (cs_heap s)"
  shows "\<exists>h'. buffer_free cfg (Some d) s = s\<lparr>cs_heap := h', iovs := (iovs s)(d := None)\<rparr> \<and> \<not> faulted h'"
  using free_bufs_ok[OF assms(1,2), of 0] assms(2,3)
  by (fastforce simp: buffer_free_def iov_free_def bufs_def calm_def)

section \<open>One message received\<close>

lemma finalize_ok:
  assumes ty: "type_ok (test_mem_type cfg) (have_cuda cfg)" and L: "prints cfg i \<longrightarrow> 16 \<le> buf_len cfg \<or> (\<forall>j<n_iov cfg. 0 \<in> set (piece cfg bs j))"
    and it: "0 \<le> i" "i < 2 ^ 31 - 1" "- (2 ^ 31) < num_iterations cfg" "num_iterations cfg < 2 ^ 31"
    and w: "request_wait fuel api cfg worker request ctx s = Some (UCS_OK, s1)"
    and iv: "iovs s1 d = Some (map (iov_at cfg base) [0..<n_iov cfg])"
    and h: "holds cfg base bs (n_iov cfg) (cs_heap s1)"
  shows "\<exists>s'. request_finalize fuel api cfg worker request ctx is_server (Some d) i s = Some (0, s') \<and>
     \<not> faulted (cs_heap s') \<and> cs_out s' = cs_out s1 @ (if prints cfg i
       then Out_iteration is_server (i + 1) # map (\<lambda>i. printed (piece cfg bs i)) [0..<n_iov cfg] else [])"
proof -
  define s2 where "s2 = (if prints cfg i then print_result cfg is_server (Some d) i s1 else s1)"
  have "iovs s2 d = Some (map (iov_at cfg base) [0..<n_iov cfg]) \<and> holds cfg base bs (n_iov cfg) (cs_heap s2) \<and>
     cs_out s2 = cs_out s1 @ (if prints cfg i
       then Out_iteration is_server (i + 1) # map (\<lambda>i. printed (piece cfg bs i)) [0..<n_iov cfg] else [])"
    using print_iov_ok[OF ty, of bs "s1\<lparr>cs_out := cs_out s1 @ [Out_iteration is_server (i + 1)]\<rparr>" d base] iv h L it
    by (auto simp: s2_def print_result_def cs_signed_def Let_def)
  moreover from this buffer_free_ok[OF ty, of s2 d base bs "n_iov cfg"] obtain h' where
    "buffer_free cfg (Some d) s2 = s2\<lparr>cs_heap := h', iovs := (iovs s2)(d := None)\<rparr>" "\<not> faulted h'" by blast
  moreover have "prints_eval cfg i s1 = s1" using it by (simp add: prints_eval_def cs_signed_def Let_def)
  ultimately show ?thesis using w by (auto simp: request_finalize_def s2_def Let_def)
qed

lemma fill_request_param_server:
  assumes ty: "type_ok (test_mem_type cfg) (have_cuda cfg)" and cnt: "0 < iov_cnt cfg" "iov_cnt cfg < 2 ^ 64"
    and s: "calm (cs_heap s)" "iovs s d = Some (replicate (n_iov cfg) null_iov)"
  shows "\<exists>msg len param h base. fill_request_param cfg (Some d) False ctx s =
       (Some (msg, len, param), s\<lparr>cs_heap := h, iovs := (iovs s)(d \<mapsto> map (iov_at cfg base) [0..<n_iov cfg]),
          ctxs := (ctxs s)(ctx \<mapsto> False)\<rparr>) \<and>
     holds cfg base bs 0 h \<and> param_user_data param = ctx \<and>
     (\<forall>u. iovs u d = Some (map (iov_at cfg base) [0..<n_iov cfg]) \<longrightarrow> msg_targets msg len (u :: 'w cs) = targets_at cfg base)"
proof -
  let ?base = "next_blk (cs_heap s)"
  let ?msg = "if n_iov cfg = 1 then Msg_buffer (Addr ?base 0) else Msg_iov (Some d)"
  let ?ml = "if n_iov cfg = 1 then buf_len cfg else n_iov cfg"
  have n: "(iov_cnt cfg = 1) = (n_iov cfg = 1)" "0 < n_iov cfg" using cnt by (auto simp: n_iov_def)
  have "bufs cfg ?base (\<lambda>i c. c = piece cfg bs i) 0 0 (cs_heap s)" using s(1) by (simp add: bufs_def)
  then obtain h where h: "buffer_malloc cfg (Some d) s =
      (0, s\<lparr>cs_heap := h, iovs := (iovs s)(d \<mapsto> map (iov_at cfg ?base) [0..<n_iov cfg])\<rparr>)" "holds cfg ?base bs 0 h"
    using buffer_malloc_from_ok[OF ty, of s d ?base 0 "n_iov cfg"] s(2) by (auto simp: buffer_malloc_def)
  let ?s = "s\<lparr>cs_heap := h, iovs := (iovs s)(d \<mapsto> map (iov_at cfg ?base) [0..<n_iov cfg])\<rparr>"
  have r: "iov_read (Some d) 0 ?s = (iov_at cfg ?base 0, ?s)" using n(2) by (simp add: iov_read_def)
  have ni: "size_t (iov_cnt cfg) = n_iov cfg" by (simp add: n_iov_def)
  have "\<exists>param. fill_request_param cfg (Some d) False ctx s = (Some (?msg, ?ml, param), ?s\<lparr>ctxs := (ctxs s)(ctx \<mapsto> False)\<rparr>) \<and>
      param_user_data param = ctx"
    unfolding fill_request_param_def ni using h(1) r n(1) by (auto simp: iov_at_def)
  moreover have "msg_targets ?msg ?ml u = targets_at cfg ?base"
    if "iovs u d = Some (map (iov_at cfg ?base) [0..<n_iov cfg])" for u :: "'w cs"
    using msg_targets_at[OF that n(2)] .
  ultimately show ?thesis using h(2) by blast
qed

lemma dispatch_cb: "dispatch api cfg (Lib_cb cb u) s = common_cb u s"
  by (cases cb) (simp_all add: send_cb_def stream_recv_cb_def tag_recv_cb_def am_recv_cb_def)

text \<open>A receive whose buffers are ready, and the wait for it.\<close>

lemma receive_ok:
  assumes rc: "receive_completes api worker k op hnd bs (world s)" and k: "k < fuel"
    and ts: "msg_targets msg len s = targets_at cfg base" and lb: "length bs = n_iov cfg * buf_len cfg"
    and h: "holds cfg base bs 0 (cs_heap s)" and c: "ctxs s ctx = Some False" "param_user_data param = ctx"
  shows "\<exists>r s1 s2. ucp_recv_nbx api cfg op hnd msg len param s = (r, s1) \<and>
     request_wait fuel api cfg worker r ctx s1 = Some (UCS_OK, s2) \<and>
     iovs s2 = iovs s \<and> cs_out s2 = cs_out s \<and> holds cfg base bs (n_iov cfg) (cs_heap s2)"
proof -
  let ?ts = "targets_at cfg base"
  obtain r evs w1 where a: "api_recv api op hnd ?ts param (world s) = (r, evs, w1)" using prod_cases3 by blast
  let ?s = "s\<lparr>world := w1, cs_trace := cs_trace s @ [C_recv op hnd ?ts r]\<rparr>"
  have W: "\<exists>h'. dispatch_all api cfg (writes ?ts bs) u = u\<lparr>cs_heap := h'\<rparr> \<and> holds cfg base bs (n_iov cfg) h'"
    if "cs_heap u = cs_heap s" for u
    using writes_ok[of 0 cfg bs base u api] lb h that by (simp add: targets_at_def)
  have "sum_list (map snd ?ts) = length bs" using lb by (simp add: targets_at_def comp_def sum_list_triv)
  from rc[unfolded receive_completes_def, rule_format, OF this, of param]
  a c(2) consider
    (now) "r = Ptr_NULL" "evs = writes ?ts bs"
  | (later) q w2 w3 where "r = Ptr_REQ q" "evs = []"
      "arrives (api_progress api worker) k (writes ?ts bs @ [Lib_cb (the (param_cb param)) (Some ctx)]) w1 w2" "api_check_status api q w2 = (UCS_OK, w3)"
    by auto
  then show ?thesis
  proof cases
    case now
    from W[of ?s] obtain h' where "dispatch_all api cfg (writes ?ts bs) ?s = ?s\<lparr>cs_heap := h'\<rparr>"
      "holds cfg base bs (n_iov cfg) h'" by auto
    with now a ts show ?thesis by (auto simp: ucp_recv_nbx_def request_wait_def)
  next
    case later
    let ?evs = "writes ?ts bs @ [Lib_cb (the (param_cb param)) (Some ctx)]"
    from W[of "?s\<lparr>world := w2\<rparr>"] obtain h' where h': "dispatch_all api cfg (writes ?ts bs) (?s\<lparr>world := w2\<rparr>) = ?s\<lparr>world := w2, cs_heap := h'\<rparr>"
      "holds cfg base bs (n_iov cfg) h'" by auto
    have d: "dispatch_all api cfg ?evs (?s\<lparr>world := w2\<rparr>) = ?s\<lparr>world := w2, cs_heap := h', ctxs := (ctxs s)(ctx \<mapsto> True)\<rparr>"
      using h'(1) c(1) by (simp add: dispatch_all_def dispatch_cb common_cb_def)
    have "spin fuel (ctx_complete ctx) (ucp_worker_progress api cfg worker) ?s = Some (dispatch_all api cfg ?evs (?s\<lparr>world := w2\<rparr>))"
      using later(3) k c(1) d by (intro spin_arrives) (simp_all add: ctx_complete_def)
    with later a ts d h'(2) show ?thesis
      by (simp add: ucp_recv_nbx_def request_wait_def dispatch_all_def ucp_request_check_status_def ucp_request_free_def Let_def)
  qed
qed

text \<open>The same for an active message.\<close>

lemma am_receive_ok:
  assumes ty: "type_ok (test_mem_type cfg) (have_cuda cfg)"
    and ar: "(\<exists>w'. arrives (api_progress api worker) k [Lib_am_data 0 (Eager bs) (length bs)] (world s) w') \<or>
      (\<exists>w' i. arrives (api_progress api worker) k [Lib_am_data 0 (Rndv i) (length bs)] (world s) w' \<and>
        receive_completes api worker k (Am_recv_data i) worker bs w')" and k: "k < fuel"
    and iv: "iovs s d = Some (map (iov_at cfg base) [0..<n_iov cfg])"
    and ts: "\<And>u :: 'w cs. iovs u d = Some (map (iov_at cfg base) [0..<n_iov cfg]) \<Longrightarrow> msg_targets msg len u = targets_at cfg base"
    and lb: "length bs = n_iov cfg * buf_len cfg" "iov_cnt cfg * test_string_length cfg = int (length bs)" "length bs < 2 ^ 63"
    and h: "holds cfg base bs 0 (cs_heap s)" and c: "ctxs s ctx = Some False" "param_user_data param = ctx"
    and nc: "\<not> complete (am_data_desc s)"
  shows "\<exists>r s1 s2. am_receive fuel api cfg worker (Some d) msg len param (s :: 'w cs) = Some (r, s1) \<and>
     request_wait fuel api cfg worker r ctx s1 = Some (UCS_OK, s2) \<and>
     iovs s2 = iovs s \<and> cs_out s2 = cs_out s \<and> holds cfg base bs (n_iov cfg) (cs_heap s2)"
proof -
  let ?s = "s\<lparr>am_data_desc := (am_data_desc s)\<lparr>recv_buf := Some d\<rparr>\<rparr>"
  let ?fin = "\<lambda>s. complete (am_data_desc s)"
  have cb: "size_t (int (length bs)) = length bs" using lb(3) by (simp add: size_t_of_nat)
  from ar show ?thesis
  proof (elim disjE exE conjE)
    fix w' assume a: "arrives (api_progress api worker) k [Lib_am_data 0 (Eager bs) (length bs)] (world s) w'"
    let ?s1 = "?s\<lparr>world := w', am_data_desc := (am_data_desc ?s)\<lparr>complete := True, is_rndv := False\<rparr>\<rparr>"
    from am_scatter_ok[OF ty, of ?s1 d base 0 bs] iv lb(1) h obtain h' where
      h': "am_scatter cfg (Some d) [0..<n_iov cfg] bs ?s1 = ?s1\<lparr>cs_heap := h'\<rparr>" "holds cfg base bs (n_iov cfg) h'"
      by (auto simp: piece_def)
    then have d: "dispatch_all api cfg [Lib_am_data 0 (Eager bs) (length bs)] (?s\<lparr>world := w'\<rparr>) = ?s1\<lparr>cs_heap := h'\<rparr>"
      using cb by (simp add: dispatch_all_def ucp_am_data_cb_def cs_signed_fits[OF lb(3) refl] lb(2) Let_def)
    have "spin fuel ?fin (ucp_worker_progress api cfg worker) ?s = Some (?s1\<lparr>cs_heap := h'\<rparr>)"
      unfolding d[symmetric] using a k nc d by (intro spin_arrives) simp_all
    with h'(2) show ?thesis by (simp add: am_receive_def request_wait_def Let_def)
  next
    fix w' i assume a: "arrives (api_progress api worker) k [Lib_am_data 0 (Rndv i) (length bs)] (world s) w'"
      and rc: "receive_completes api worker k (Am_recv_data i) worker bs w'"
    let ?s1 = "?s\<lparr>world := w', am_data_desc := (am_data_desc ?s)\<lparr>complete := True, is_rndv := True, desc := i\<rparr>\<rparr>"
    let ?s2 = "?s1\<lparr>am_data_desc := (am_data_desc ?s1)\<lparr>complete := False\<rparr>\<rparr>"
    let ?param = "param\<lparr>op_attr_mask := op_attr_mask param \<union> {UCP_OP_ATTR_FLAG_NO_IMM_CMPL}, param_cb := Some Cb_am_recv\<rparr>"
    have d: "dispatch_all api cfg [Lib_am_data 0 (Rndv i) (length bs)] (?s\<lparr>world := w'\<rparr>) = ?s1"
      using cb by (simp add: dispatch_all_def ucp_am_data_cb_def cs_signed_fits[OF lb(3) refl] lb(2) Let_def)
    have sp: "spin fuel ?fin (ucp_worker_progress api cfg worker) ?s = Some ?s1"
      unfolding d[symmetric] using a k nc d by (intro spin_arrives) simp_all
    from receive_ok[of api worker k "Am_recv_data i" worker bs ?s2 fuel msg len cfg base ctx ?param] rc k ts[of ?s2] iv lb(1) h c
    obtain r s1 s2 where "ucp_recv_nbx api cfg (Am_recv_data i) worker msg len ?param ?s2 = (r, s1)"
      "request_wait fuel api cfg worker r ctx s1 = Some (UCS_OK, s2)" "iovs s2 = iovs s" "cs_out s2 = cs_out s"
      "holds cfg base bs (n_iov cfg) (cs_heap s2)" by auto
    with sp show ?thesis by (simp add: am_receive_def Let_def)
  qed
qed

text \<open>The whole exchange, in any of the modes.\<close>

lemma message_call_receives:
  assumes "type_ok (test_mem_type cfg) (have_cuda cfg)" "mode \<in> {1, 2, 4}"
    and ar: "message_arrives api worker ep k mode bs (world s)" and "k < fuel"
    and "iovs s d = Some (map (iov_at cfg base) [0..<n_iov cfg])"
    and ts: "\<And>u :: 'w cs. iovs u d = Some (map (iov_at cfg base) [0..<n_iov cfg]) \<Longrightarrow> msg_targets msg len u = targets_at cfg base"
    and "length bs = n_iov cfg * buf_len cfg" "iov_cnt cfg * test_string_length cfg = int (length bs)" "length bs < 2 ^ 63"
    and "holds cfg base bs 0 (cs_heap s)" "ctxs s ctx = Some False" "param_user_data param = ctx" "\<not> complete (am_data_desc s)"
  shows "\<exists>r s1 s2. message_call fuel api cfg worker ep mode True (Some d) msg len param (s :: 'w cs) = Some (r, s1) \<and>
     request_wait fuel api cfg worker r ctx s1 = Some (UCS_OK, s2) \<and>
     iovs s2 = iovs s \<and> cs_out s2 = cs_out s \<and> holds cfg base bs (n_iov cfg) (cs_heap s2)"
proof -
  consider "mode = 1" | "mode = 2" | "mode = 4" using assms(2) by auto
  then show ?thesis
  proof cases
    case 1
    let ?param = "param\<lparr>op_attr_mask := op_attr_mask param \<union> {UCP_OP_ATTR_FIELD_FLAGS},
                       param_waitall := True, param_cb := Some Cb_stream_recv\<rparr>"
    from receive_ok[of api worker k Stream_recv ep bs s fuel msg len cfg base ctx ?param] 1 assms ts[OF assms(5)] show ?thesis
      by (simp add: message_call_def message_arrives_def)
  next
    case 2
    let ?param = "param\<lparr>param_cb := Some Cb_tag_recv\<rparr>"
    from receive_ok[of api worker k "Tag_recv TAG 0" worker bs s fuel msg len cfg base ctx ?param] 2 assms ts[OF assms(5)] show ?thesis
      by (simp add: message_call_def message_arrives_def)
  next
    case 3
    from am_receive_ok[OF assms(1) _ assms(4,5) ts assms(7-13)] 3 ar show ?thesis
      by (simp add: message_call_def message_arrives_def)
  qed
qed

lemma communication_receives:
  assumes ty: "type_ok (test_mem_type cfg) (have_cuda cfg)" and mode: "mode \<in> {1, 2, 4}"
    and L: "0 < test_string_length cfg" "prints cfg i \<longrightarrow> 16 \<le> test_string_length cfg \<or> (\<forall>j<n_iov cfg. 0 \<in> set (piece cfg bs j))"
    and cnt: "0 < iov_cnt cfg" "iov_cnt cfg * 16 < 2 ^ 64" "iov_cnt cfg * test_string_length cfg < 2 ^ 63"
    and it: "0 \<le> i" "i < 2 ^ 31 - 1" "- (2 ^ 31) < num_iterations cfg" "num_iterations cfg < 2 ^ 31"
    and s: "calm (cs_heap s)" "\<not> complete (am_data_desc s)"
    and ar: "message_arrives api worker ep k mode bs (world s)" "k < fuel" "length bs = n_iov cfg * buf_len cfg"
  shows "\<exists>s'. client_server_communication fuel api cfg worker ep mode True i s = Some (0, s') \<and>
     \<not> faulted (cs_heap s') \<and> cs_out s' = cs_out s @ (if prints cfg i
       then Out_iteration True (i + 1) # map (\<lambda>i. printed (piece cfg bs i)) [0..<n_iov cfg] else [])"
proof -
  let ?d = "next_id s"
  let ?s1 = "s\<lparr>cs_heap := tried (cs_heap s), iovs := (iovs s)(?d \<mapsto> replicate (n_iov cfg) null_iov), next_id := Suc ?d\<rparr>"
  obtain ctx s2 where pc: "push_ctx ?s1 = (ctx, s2)" by fastforce
  have s2: "calm (cs_heap s2)" "iovs s2 ?d = Some (replicate (n_iov cfg) null_iov)" "world s2 = world s" "cs_out s2 = cs_out s"
    "am_data_desc s2 = am_data_desc s" using pc s(1) by (auto simp: push_ctx_def calm_def faulted_def)
  have ia: "iov_alloc cfg s = (Some ?d, ?s1)"
    using s(1) n_iov_alloc[OF cnt(1,2)] by (simp add: iov_alloc_def calm_def on_heap_def Let_def)
  have "iov_cnt cfg < 2 ^ 64" using cnt(1,2) by simp
  from fill_request_param_server[OF ty cnt(1) this s2(1,2), of ctx bs] obtain msg len param h base where
    fp: "fill_request_param cfg (Some ?d) False ctx s2 = (Some (msg, len, param),
      s2\<lparr>cs_heap := h, iovs := (iovs s2)(?d \<mapsto> map (iov_at cfg base) [0..<n_iov cfg]), ctxs := (ctxs s2)(ctx \<mapsto> False)\<rparr>)"
    (is "_ = (_, ?s3)") "holds cfg base bs 0 h" "param_user_data param = ctx"
    "\<And>u :: 'a cs. iovs u ?d = Some (map (iov_at cfg base) [0..<n_iov cfg]) \<Longrightarrow> msg_targets msg len u = targets_at cfg base" by blast
  have "1 * test_string_length cfg \<le> iov_cnt cfg * test_string_length cfg" using cnt(1) L(1) by (intro mult_right_mono) simp_all
  from le_less_trans[OF this cnt(3)] have "test_string_length cfg < 2 ^ 64" by simp
  then have n: "int (n_iov cfg) = iov_cnt cfg" "int (buf_len cfg) = test_string_length cfg"
    using cnt(1) L(1) \<open>iov_cnt cfg < 2 ^ 64\<close> by (simp_all add: n_iov_def buf_len_def)
  then have sz: "iov_cnt cfg * test_string_length cfg = int (length bs)" using ar(3) by simp
  with cnt(3) have l63: "length bs < 2 ^ 63" by simp
  have iv: "iovs ?s3 ?d = Some (map (iov_at cfg base) [0..<n_iov cfg])" by simp
  from message_call_receives[OF ty mode _ ar(2) iv fp(4) ar(3) sz l63 _ _ fp(3), of api worker ep] ar(1) fp(2) s2 s(2)
  obtain r s4 s5 where m: "message_call fuel api cfg worker ep mode True (Some ?d) msg len param ?s3 = Some (r, s4)"
    "request_wait fuel api cfg worker r ctx s4 = Some (UCS_OK, s5)"
    "iovs s5 ?d = Some (map (iov_at cfg base) [0..<n_iov cfg])" "cs_out s5 = cs_out s" "holds cfg base bs (n_iov cfg) (cs_heap s5)"
    by auto
  have "prints cfg i \<longrightarrow> 16 \<le> buf_len cfg \<or> (\<forall>j<n_iov cfg. 0 \<in> set (piece cfg bs j))" using L(2) unfolding n(2)[symmetric] by simp
  from finalize_ok[OF ty this it m(2,3,5), of True] m(4) obtain s6 where
    "request_finalize fuel api cfg worker r ctx True (Some ?d) i s4 = Some (0, s6)" "\<not> faulted (cs_heap s6)"
    "cs_out s6 = cs_out s @ (if prints cfg i
       then Out_iteration True (i + 1) # map (\<lambda>i. printed (piece cfg bs i)) [0..<n_iov cfg] else [])" by auto
  then show ?thesis unfolding communication_exchange[OF mode] exchange_def
    using ia pc fp(1) m(1) by (simp add: pop_ctx_def)
qed

section \<open>Test strings\<close>

lemma piece_concat:
  assumes "\<forall>c\<in>set cs. length c = buf_len cfg" "i < length cs"
  shows "piece cfg (concat cs) i = cs ! i"
  using assms
proof (induction cs arbitrary: i)
  case (Cons c cs)
  then show ?case by (cases i) (auto simp: piece_def)
qed simp

text \<open>What is printed of a test string whose last byte is \<open>c\<close>: its letters and that byte if it is not 0.\<close>

definition shown :: "nat \<Rightarrow> byte \<Rightarrow> cs_out" where
  "shown n c = Out_message (take 16 (map test_char [0..<n - 1] @ (if c = 0 then [] else [c])))"

lemma printed_test_pattern: "printed (test_pattern n c) = shown n c"
  by (cases "16 \<le> n - 1") (auto simp: printed_def shown_def test_pattern_def take_map takeWhile_append takeWhile_eq_all_conv take_Cons')

end
