(* ===== verification/Cs_Order.thy ===== *)
theory Cs_Order
  imports Cs_Memory
begin

text \<open>
  Ordering: which messages a session of \<open>ucp_client_server.c\<close> exchanges and in which order, how
  the server treats connection requests, and when a wait returns.
\<close>

section \<open>Messages in the trace\<close>

text \<open>A call that moves data: \<open>True\<close> for a send, with the handle it is posted on.\<close>

fun data_call :: "cs_call \<Rightarrow> (bool \<times> nat) option" where
  "data_call (C_send op ep bs r) = Some (True, ep)"
| "data_call (C_recv op hnd ts r) = Some (False, hnd)"
| "data_call _ = None"

definition messages :: "'w cs \<Rightarrow> (bool \<times> nat) list" where
  "messages s = List.map_filter data_call (cs_trace s)"

definition sent_ops :: "'w cs \<Rightarrow> (send_op \<times> nat) list" where
  "sent_ops s = List.map_filter (\<lambda>c. case c of C_send op ep bs r \<Rightarrow> Some (op, ep) | _ \<Rightarrow> None) (cs_trace s)"

lemma map_filter_append [simp]: "List.map_filter f (xs @ ys) = List.map_filter f xs @ List.map_filter f ys"
  by (simp add: List.map_filter_def)

lemma map_filter_single [simp]:
  "List.map_filter f [x] = (case f x of None \<Rightarrow> [] | Some y \<Rightarrow> [y])"
  by (simp add: List.map_filter_def split: option.splits)

definition mute :: "'w cs \<Rightarrow> 'w cs \<Rightarrow> bool" where
  "mute s s' \<longleftrightarrow> messages s' = messages s \<and> sent_ops s' = sent_ops s"

lemma mute_refl [simp]: "mute s s"
  by (simp add: mute_def)

lemma mute_trans [trans]: "mute s s' \<Longrightarrow> mute s' s'' \<Longrightarrow> mute s s''"
  by (simp add: mute_def)

lemma mute_same: "cs_trace s' = cs_trace s \<Longrightarrow> mute s s'"
  by (simp add: mute_def messages_def sent_ops_def)

lemma mute_dispatch: "mute s (dispatch api cfg e s)"
proof (cases e)
  case (Lib_cb cb u)
  then show ?thesis
    by (cases cb) (auto intro!: mute_same simp: send_cb_def stream_recv_cb_def tag_recv_cb_def am_recv_cb_def)
next
  case (Lib_conn_request r)
  then show ?thesis
    by (auto simp: server_conn_handle_cb_def Let_def split_beta mute_def messages_def sent_ops_def)
qed (auto intro!: mute_same simp: err_cb_def)

lemma mute_dispatch_all: "mute s (dispatch_all api cfg evs s)"
  unfolding dispatch_all_def
  by (induction evs arbitrary: s) (auto intro: mute_trans mute_dispatch)

lemma mute_progress: "mute s (ucp_worker_progress api cfg worker s)"
proof -
  have "mute s (s\<lparr>world := w\<rparr>)" for w by (simp add: mute_same)
  then show ?thesis
    by (auto simp: ucp_worker_progress_def split_beta intro: mute_trans mute_dispatch_all)
qed

lemma mute_spin:
  assumes "spin fuel fin (ucp_worker_progress api cfg worker) s = Some s'"
  shows "mute s s'"
  using assms by (rule spin_inv[where P = "\<lambda>u. mute s u"]) (auto intro: mute_trans mute_progress)

lemma mute_request_wait:
  assumes "request_wait fuel api cfg worker request ctx s = Some (st, s')"
  shows "mute s s'"
proof (cases request)
  case (Ptr_REQ r)
  with assms obtain s1 where sp: "spin fuel (ctx_complete ctx) (ucp_worker_progress api cfg worker) s = Some s1"
    and s': "s' = ucp_request_free r (snd (ucp_request_check_status api r s1))"
    by (auto simp: request_wait_def Let_def split_beta split: bind_splits)
  have "mute s s1" using sp by (rule mute_spin)
  also have "mute s1 s'"
    unfolding s' by (simp add: mute_def messages_def sent_ops_def ucp_request_free_def)
  finally show ?thesis .
qed (use assms in \<open>auto simp: request_wait_def\<close>)

lemma mute_request_finalize:
  assumes "request_finalize fuel api cfg worker request ctx b iov i s = Some (ret, s')"
  shows "mute s s'"
proof -
  from assms obtain st s1 where rw: "request_wait fuel api cfg worker request ctx s = Some (st, s1)"
    by (auto simp: request_finalize_def split: bind_splits)
  have "mute s s1" using rw by (rule mute_request_wait)
  also have "mute s1 s'"
    using assms rw by (intro mute_same) (auto simp: request_finalize_def Let_def split: if_splits)
  finally show ?thesis .
qed

lemma messages_send:
  assumes "ucp_send_nbx api cfg op ep msg len param s = (r, s')"
  shows "messages s' = messages s @ [(True, ep)] \<and> sent_ops s' = sent_ops s @ [(op, ep)]"
proof -
  obtain bs h where b: "read_targets (msg_targets msg len s) (cs_heap s) = (bs, h)" by fastforce
  obtain q evs w where a: "api_send api op ep bs param (world s) = (q, evs, w)" using prod_cases3 by blast
  let ?s = "s\<lparr>cs_heap := h, world := w, cs_trace := cs_trace s @ [C_send op ep bs q]\<rparr>"
  have "s' = dispatch_all api cfg evs ?s" using assms a b by (auto simp: ucp_send_nbx_def)
  with mute_dispatch_all[of ?s api cfg evs] show ?thesis
    by (simp add: mute_def messages_def sent_ops_def)
qed

lemma messages_recv:
  assumes "ucp_recv_nbx api cfg op hnd msg len param s = (r, s')"
  shows "messages s' = messages s @ [(False, hnd)] \<and> sent_ops s' = sent_ops s"
proof -
  let ?ts = "msg_targets msg len s"
  obtain q evs w where a: "api_recv api op hnd ?ts param (world s) = (q, evs, w)" using prod_cases3 by blast
  let ?s = "s\<lparr>world := w, cs_trace := cs_trace s @ [C_recv op hnd ?ts q]\<rparr>"
  have "s' = dispatch_all api cfg evs ?s" using assms a by (auto simp: ucp_recv_nbx_def)
  with mute_dispatch_all[of ?s api cfg evs] show ?thesis
    by (simp add: mute_def messages_def sent_ops_def)
qed

lemma am_receive_sent:
  assumes "am_receive fuel api cfg worker iov msg len params s = Some (r, s')"
  shows "sent_ops s' = sent_ops s"
proof -
  let ?s0 = "s\<lparr>am_data_desc := (am_data_desc s)\<lparr>recv_buf := iov\<rparr>\<rparr>"
  from assms obtain s1 where
    sp: "spin fuel (\<lambda>s. complete (am_data_desc s)) (ucp_worker_progress api cfg worker) ?s0 = Some s1"
    by (auto simp: am_receive_def Let_def split: bind_splits)
  let ?s1 = "s1\<lparr>am_data_desc := (am_data_desc s1)\<lparr>complete := False\<rparr>\<rparr>"
  have "mute s ?s0" by (simp add: mute_same)
  also have "mute ?s0 s1" using sp by (rule mute_spin)
  also have "mute s1 ?s1" by (simp add: mute_same)
  finally have "sent_ops ?s1 = sent_ops s" by (simp add: mute_def)
  then show ?thesis
    using assms sp messages_recv[of api cfg _ worker msg len _ ?s1 r s']
    by (auto simp: am_receive_def Let_def split: if_splits)
qed

lemma communication_messages:
  assumes ty: "typ \<in> {1, 2, 4}"
    and c: "client_server_communication fuel api cfg worker ep typ b i s = Some (0, s')"
  shows "sent_ops s' = sent_ops s @ (if b then [] else [(send_op_of typ, ep)])"
    and "typ \<noteq> 4 \<Longrightarrow> messages s' = messages s @ [(\<not> b, if b \<and> typ = 2 then worker else ep)]"
proof -
  let ?call = "message_call fuel api cfg worker ep typ b"
  from c obtain iov msg len param u r u' where "mute s u"
    and m: "?call iov msg len param u = Some (r, u')" and "mute u' s'"
  proof -
    obtain iov sa where ia: "iov_alloc cfg s = (iov, sa)" by fastforce
    obtain ctx sb where pc: "push_ctx sa = (ctx, sb)" by fastforce
    obtain fp sc where fp: "fill_request_param cfg iov (\<not> b) ctx sb = (fp, sc)" by fastforce
    have "cs_trace sc = cs_trace s"
      using frame_iov_alloc(1)[of cfg s] frame_ctx(1)[of sa] frame_fill_request_param(1)[of cfg iov "\<not> b" ctx sb]
      by (simp add: ia pc fp)
    then have one: "mute s sc" by (rule mute_same)
    from c[unfolded communication_exchange[OF ty] exchange_def] ia pc fp
    obtain msg len param where f: "fp = Some (msg, len, param)"
      by (cases fp) auto
    with c[unfolded communication_exchange[OF ty] exchange_def] ia pc fp
    obtain r u' sd where m: "?call iov msg len param sc = Some (r, u')"
      and rf: "request_finalize fuel api cfg worker r ctx b iov i u' = Some (0, sd)"
      and s': "s' = pop_ctx ctx sd"
      by (auto split: bind_splits)
    have "mute u' sd" using rf by (rule mute_request_finalize)
    also have "mute sd s'" unfolding s' by (rule mute_same) simp
    finally show ?thesis using that one m by blast
  qed
  then have eq: "messages u = messages s" "sent_ops u = sent_ops s"
    "messages s' = messages u'" "sent_ops s' = sent_ops u'"
    by (simp_all add: mute_def)
  show "sent_ops s' = sent_ops s @ (if b then [] else [(send_op_of typ, ep)])"
    unfolding eq(4) eq(2)[symmetric] using m
    by (auto simp: message_call_def split: if_splits
          dest: messages_send messages_recv am_receive_sent)
  show "messages s' = messages s @ [(\<not> b, if b \<and> typ = 2 then worker else ep)]" if "typ \<noteq> 4"
    unfolding eq(3) eq(1)[symmetric] using m ty that
    by (auto simp: message_call_def split: if_splits dest: messages_send messages_recv)
qed

section \<open>A session\<close>

lemma do_iterations_messages:
  assumes "typ \<in> {1, 2, 4}" "do_iterations fuel api cfg worker ep typ b n i s = Some (0, j, s')"
  shows "j = i + int n \<and> sent_ops s' = sent_ops s @ (if b then [] else replicate n (send_op_of typ, ep)) \<and>
     (typ \<noteq> 4 \<longrightarrow> messages s' = messages s @ replicate n (\<not> b, if b \<and> typ = 2 then worker else ep))"
  using assms(2)
proof (induction n arbitrary: i s)
  case 0
  then show ?case by simp
next
  case (Suc n)
  from Suc.prems obtain s1 where
    c: "client_server_communication fuel api cfg worker ep typ b i s = Some (0, s1)" and
    r: "do_iterations fuel api cfg worker ep typ b n (i + 1) s1 = Some (0, j, s')"
    by (auto split: bind_splits if_splits)
  from Suc.IH[OF r] communication_messages[OF assms(1) c] show ?case by auto
qed

text \<open>The states between the stages of a session that succeeds.\<close>

lemma do_work_stages:
  assumes "client_server_do_work fuel api cfg worker ep typ b s = Some (0, s')"
  obtains j s1 s2 s3 where
    "do_iterations fuel api cfg worker ep typ b (nat (num_iterations cfg)) 0 (s\<lparr>connection_closed := False\<rparr>)
       = Some (0, j, s1)"
    "mute s1 s2"
    "client_server_communication fuel api cfg worker ep typ (\<not> b) (j + 1) s2 = Some (0, s3)"
    "mute s3 s'" "b \<longrightarrow> connection_closed s'"
proof -
  from assms obtain j s1 where
    it: "do_iterations fuel api cfg worker ep typ b (nat (num_iterations cfg)) 0 (s\<lparr>connection_closed := False\<rparr>)
       = Some (0, j, s1)"
    by (auto simp: client_server_do_work_def Let_def split: bind_splits if_splits)
  let ?s1 = "s1\<lparr>cs_out := cs_out s1 @ [Out_fin b]\<rparr>"
  obtain st s2 where rg: "(if \<not> b \<and> typ = CLIENT_SERVER_SEND_RECV_AM
      then register_am_recv_callback api worker ?s1 else (UCS_OK, ?s1)) = (st, s2)" by fastforce
  then have mu: "mute s1 s2"
    by (auto simp: register_am_recv_callback_def log_call_def mute_def messages_def sent_ops_def
             split: if_splits prod.splits)
  from assms it rg obtain s3 where
    co: "client_server_communication fuel api cfg worker ep typ (\<not> b) (j + 1) (cs_signed 32 (j + 1) s2) = Some (0, s3)" and
    fi: "(if b then spin fuel connection_closed (ucp_worker_progress api cfg worker) s3 else Some s3) = Some s'"
    by (auto simp: client_server_do_work_def Let_def split: bind_splits if_splits)
  have "mute s3 s'" "b \<longrightarrow> connection_closed s'"
    using fi by (auto split: if_splits intro: mute_spin dest: spin_Some_done)
  moreover have "mute s1 (cs_signed 32 (j + 1) s2)" using mu by (rule mute_trans) (simp add: mute_same)
  ultimately show ?thesis using it co that by blast
qed

section \<open>Connection requests\<close>

fun requests :: "lib_event list \<Rightarrow> nat list" where
  "requests [] = []"
| "requests (Lib_conn_request r # evs) = r # requests evs"
| "requests (_ # evs) = requests evs"

definition rejected :: "'w cs \<Rightarrow> nat list" where
  "rejected s = List.map_filter (\<lambda>c. case c of C_reject l r \<Rightarrow> Some r | _ \<Rightarrow> None) (cs_trace s)"

abbreviation pending :: "'w cs \<Rightarrow> nat option" where
  "pending s \<equiv> conn_request (srv_ctx s)"

lemma conn_handle_cb_effect:
  "pending (server_conn_handle_cb api r s) = (case pending s of None \<Rightarrow> Some r | Some p \<Rightarrow> Some p)"
  "rejected (server_conn_handle_cb api r s) = rejected s @ (if pending s = None then [] else [r])"
  by (auto simp: server_conn_handle_cb_def Let_def split_beta rejected_def split: option.splits)

lemma dispatch_no_request:
  "requests [e] = [] \<Longrightarrow> pending (dispatch api cfg e s) = pending s \<and> rejected (dispatch api cfg e s) = rejected s"
proof (cases e)
  case (Lib_cb cb u)
  then show ?thesis
    by (cases cb) (auto simp: send_cb_def stream_recv_cb_def tag_recv_cb_def am_recv_cb_def rejected_def)
qed (auto simp: err_cb_def rejected_def)

lemma dispatch_requests:
  "pending (dispatch_all api cfg evs s) =
     (case pending s of Some p \<Rightarrow> Some p | None \<Rightarrow> (case requests evs of [] \<Rightarrow> None | r # _ \<Rightarrow> Some r)) \<and>
   rejected (dispatch_all api cfg evs s) =
     rejected s @ (if pending s = None then tl (requests evs) else requests evs)"
  unfolding dispatch_all_def
proof (induction evs arbitrary: s)
  case Nil
  then show ?case by (auto split: option.splits)
next
  case (Cons e evs)
  show ?case
  proof (cases "requests [e] = []")
    case True
    then have "requests (e # evs) = requests evs" by (cases e) auto
    moreover have "pending (dispatch api cfg e s) = pending s" "rejected (dispatch api cfg e s) = rejected s"
      using dispatch_no_request[OF True] by blast+
    ultimately show ?thesis using Cons.IH[of "dispatch api cfg e s"] by (cases "pending s") simp_all
  next
    case False
    then obtain r where "e = Lib_conn_request r" by (cases e) auto
    with Cons.IH[of "dispatch api cfg e s"] conn_handle_cb_effect[of api r s]
    show ?thesis by (auto split: option.splits)
  qed
qed

section \<open>Waiting\<close>

lemma request_wait_returns:
  assumes "ctx_complete ctx ((ucp_worker_progress api cfg worker ^^ k) s)" "k \<le> fuel"
  shows "\<exists>j u s'. j \<le> k \<and> u = (ucp_worker_progress api cfg worker ^^ j) s \<and> ctx_complete ctx u \<and>
     request_wait fuel api cfg worker (Ptr_REQ r) ctx s = Some (fst (api_check_status api r (world u)), s') \<and>
     cs_trace s' = cs_trace u @ [C_request_free r]"
proof -
  let ?p = "ucp_worker_progress api cfg worker"
  from spin_enough[of "ctx_complete ctx" k ?p s k] assms(1) obtain u where u: "spin k (ctx_complete ctx) ?p s = Some u" by auto
  from spin_Some_iter[OF this] obtain j where j: "j \<le> k" "u = (?p ^^ j) s" by blast
  have "spin fuel (ctx_complete ctx) ?p s = Some u" using spin_mono[OF u assms(2)] .
  with spin_Some_done[OF u] j show ?thesis
    by (auto simp: request_wait_def ucp_request_check_status_def ucp_request_free_def split_beta)
qed

end
