(* ===== verification/Cs_Automaton.thy ===== *)
theory Cs_Automaton
  imports Cs_Order
begin

text \<open>
  The server of \<open>ucp_client_server.c\<close> as a state machine. The specification \<open>srv_step\<close> is a labelled
  transition system: labels are the calls the server makes, \<open>None\<close> is a step of its own. The loop of
  \<open>run_server\<close> is shown to run along it, whatever the library does.
\<close>

section \<open>Specification\<close>

text \<open>
  The server has no connection request; one is pending (and not yet accepted); it serves the request
  over an endpoint; the endpoint is being closed, at once or through a close request; it is closed.
\<close>

datatype srv_state = Idle | Pending nat | Serving nat nat | Dropping nat | Closing nat nat | Closed nat

fun held_request :: "srv_state \<Rightarrow> nat option" where
  "held_request Idle = None"
| "held_request (Pending r) = Some r"
| "held_request (Serving r ep) = Some r"
| "held_request (Dropping r) = Some r"
| "held_request (Closing r q) = Some r"
| "held_request (Closed r) = Some r"

text \<open>
  The receives of a mode, and the handle each is posted on: stream data is read from the endpoint,
  tagged messages and the data of active messages from the worker.
\<close>

fun recv_fits :: "send_recv_type \<Rightarrow> recv_op \<Rightarrow> bool" where
  "recv_fits md Stream_recv = (md = CLIENT_SERVER_SEND_RECV_STREAM)"
| "recv_fits md (Tag_recv t m) = (md = CLIENT_SERVER_SEND_RECV_TAG \<and> t = TAG \<and> m = 0)"
| "recv_fits md (Am_recv_data i) = (md = CLIENT_SERVER_SEND_RECV_AM)"

fun recv_handle :: "recv_op \<Rightarrow> nat \<Rightarrow> nat \<Rightarrow> nat" where
  "recv_handle Stream_recv wk ep = ep"
| "recv_handle _ wk ep = wk"

text \<open>
  \<open>md\<close> is the mode, \<open>dw\<close> the data worker, \<open>l\<close> the listener. A request that arrives while another is held is
  rejected; the only request that is not rejected is the one that arrives in an idle state. Data moves
  only while a client is served: sends go to its endpoint, receives to the handle of the operation,
  and the next client is accepted only after the endpoint was closed.
\<close>

inductive srv_step :: "send_recv_type \<Rightarrow> nat \<Rightarrow> nat \<Rightarrow> srv_state \<Rightarrow> cs_call option \<Rightarrow> srv_state \<Rightarrow> bool" for md dw l where
  arrive: "srv_step md dw l Idle None (Pending r)"
| reject: "st \<noteq> Idle \<Longrightarrow> srv_step md dw l st (Some (C_reject l r)) st"
| accept: "srv_step md dw l (Pending r) (Some (C_ep_create dw ep)) (Serving r ep)"
| send: "srv_step md dw l (Serving r ep) (Some (C_send (send_op_of md) ep bs q)) (Serving r ep)"
| recv: "recv_fits md op \<Longrightarrow> srv_step md dw l (Serving r ep) (Some (C_recv op (recv_handle op dw ep) ts q)) (Serving r ep)"
| finish: "srv_step md dw l (Serving r ep) (Some (C_request_free q)) (Serving r ep)"
| close: "srv_step md dw l (Serving r ep) (Some (C_ep_close ep)) (Dropping r)"
| close_wait: "srv_step md dw l (Dropping r) (Some (C_close_request q)) (Closing r q)"
| close_done: "srv_step md dw l (Closing r q) (Some (C_request_free q)) (Closed r)"
| dropped: "srv_step md dw l (Dropping r) None (Closed r)"
| again: "srv_step md dw l (Closed r) None Idle"

inductive srv_run :: "send_recv_type \<Rightarrow> nat \<Rightarrow> nat \<Rightarrow> srv_state \<Rightarrow> cs_call list \<Rightarrow> srv_state \<Rightarrow> bool" for md dw l where
  stop: "srv_run md dw l st [] st"
| silent: "srv_step md dw l st None st' \<Longrightarrow> srv_run md dw l st' t st'' \<Longrightarrow> srv_run md dw l st t st''"
| call: "srv_step md dw l st (Some c) st' \<Longrightarrow> srv_run md dw l st' t st'' \<Longrightarrow> srv_run md dw l st (c # t) st''"

declare srv_run.stop [simp, intro]

lemma srv_run_append: "srv_run md dw l st t st' \<Longrightarrow> srv_run md dw l st' u st'' \<Longrightarrow> srv_run md dw l st (t @ u) st''"
  by (induction rule: srv_run.induct) (auto intro: srv_run.intros)

lemma srv_run_silent: "srv_step md dw l st None st' \<Longrightarrow> srv_run md dw l st [] st'"
  by (rule srv_run.silent[OF _ srv_run.stop])

lemma srv_run_call: "srv_step md dw l st (Some c) st' \<Longrightarrow> srv_run md dw l st [c] st'"
  by (rule srv_run.call[OF _ srv_run.stop])

subsection \<open>What the runs of the machine have in common\<close>

text \<open>
  The endpoint that is open after a list of calls, and the calls that are legal while it is: one
  endpoint at a time, on the data worker; sends only on it; receives only while it is open, a stream
  receive on it and the others on the data worker; the operations those of the mode.
\<close>

fun ep_next :: "cs_call \<Rightarrow> nat option \<Rightarrow> nat option" where
  "ep_next (C_ep_create wk ep) x = Some ep"
| "ep_next (C_ep_close ep) x = None"
| "ep_next _ x = x"

fun ep_legal :: "send_recv_type \<Rightarrow> nat \<Rightarrow> nat option \<Rightarrow> cs_call \<Rightarrow> bool" where
  "ep_legal md dw x (C_ep_create wk ep) = (x = None \<and> wk = dw)"
| "ep_legal md dw x (C_ep_close ep) = (x = Some ep)"
| "ep_legal md dw x (C_send op ep bs q) = (x = Some ep \<and> op = send_op_of md)"
| "ep_legal md dw x (C_recv op h ts q) = (\<exists>ep. x = Some ep \<and> recv_fits md op \<and> h = recv_handle op dw ep)"
| "ep_legal md dw x _ = True"

fun open_ep :: "srv_state \<Rightarrow> nat option" where
  "open_ep (Serving r ep) = Some ep"
| "open_ep _ = None"

inductive_cases silentE: "srv_step md dw l st None st'"
inductive_cases callE: "srv_step md dw l st (Some c) st'"

lemma silent_open_ep: "srv_step md dw l st None st' \<Longrightarrow> open_ep st' = open_ep st"
  by (erule silentE) simp_all

lemma call_open_ep: "srv_step md dw l st (Some c) st' \<Longrightarrow> ep_legal md dw (open_ep st) c \<and> open_ep st' = ep_next c (open_ep st)"
  by (erule callE) auto

lemma run_open_ep: "srv_run md dw l st t st' \<Longrightarrow> fold ep_next t (open_ep st) = open_ep st'"
  by (induction rule: srv_run.induct) (auto dest: silent_open_ep call_open_ep)

lemma run_legal:
  "srv_run md dw l st t st' \<Longrightarrow> t = u @ c # v \<Longrightarrow> ep_legal md dw (fold ep_next u (open_ep st)) c"
proof (induction arbitrary: u rule: srv_run.induct)
  case (call st c' st' t st'')
  then show ?case by (cases u) (auto dest: call_open_ep)
qed (auto dest: silent_open_ep)

text \<open>The endpoints a list of calls creates and those it closes, in order.\<close>

definition created :: "cs_call list \<Rightarrow> nat list" where
  "created t = List.map_filter (\<lambda>c. case c of C_ep_create wk ep \<Rightarrow> Some ep | _ \<Rightarrow> None) t"

definition closed :: "cs_call list \<Rightarrow> nat list" where
  "closed t = List.map_filter (\<lambda>c. case c of C_ep_close ep \<Rightarrow> Some ep | _ \<Rightarrow> None) t"

lemma created_simps [simp]:
  "created [] = []" "created (t @ u) = created t @ created u" "created [C_ep_create wk ep] = [ep]"
  "closed [] = []" "closed [C_ep_close ep] = [ep]"
  by (simp_all add: created_def closed_def List.map_filter_def)

lemma created_Cons: "created (c # t) = created [c] @ created t" "closed (c # t) = closed [c] @ closed t"
  by (simp_all add: created_def closed_def List.map_filter_def split: cs_call.splits)

fun opened :: "nat option \<Rightarrow> nat list" where
  "opened None = []"
| "opened (Some ep) = [ep]"

lemma call_closes: "srv_step md dw l st (Some c) st' \<Longrightarrow> opened (open_ep st) @ created [c] = closed [c] @ opened (open_ep st')"
  by (erule callE) (auto simp: created_def closed_def elim: open_ep.elims)

lemma run_closes: "srv_run md dw l st t st' \<Longrightarrow> opened (open_ep st) @ created t = closed t @ opened (open_ep st')"
proof (induction rule: srv_run.induct)
  case (call st c st1 t st')
  have "opened (open_ep st) @ created (c # t) = (opened (open_ep st) @ created [c]) @ created t"
    by (simp add: created_Cons(1)[of c t])
  also have "\<dots> = closed [c] @ (opened (open_ep st1) @ created t)" using call_closes[OF call.hyps(1)] by simp
  finally show ?case using call.IH by (simp add: created_Cons(2)[of c t])
qed (simp_all add: silent_open_ep)

section \<open>Simulation\<close>

text \<open>A state of the program and the state of the machine it implements.\<close>

definition sim :: "nat \<Rightarrow> srv_state \<Rightarrow> 'w cs \<Rightarrow> bool" where
  "sim l st s \<longleftrightarrow> conn_request (srv_ctx s) = held_request st \<and> listener (srv_ctx s) = l"

definition follows :: "send_recv_type \<Rightarrow> nat \<Rightarrow> nat \<Rightarrow> srv_state \<Rightarrow> 'w cs \<Rightarrow> srv_state \<Rightarrow> 'w cs \<Rightarrow> bool" where
  "follows md dw l st s st' s' \<longleftrightarrow> sim l st' s' \<and> (\<exists>t. cs_trace s' = cs_trace s @ t \<and> srv_run md dw l st t st')"

lemma follows_trans [trans]: "follows md dw l st s st1 s1 \<Longrightarrow> follows md dw l st1 s1 st' s' \<Longrightarrow> follows md dw l st s st' s'"
  unfolding follows_def using srv_run_append by fastforce

lemma follows_same:
  "sim l st s \<Longrightarrow> srv_ctx s' = srv_ctx s \<Longrightarrow> cs_trace s' = cs_trace s \<Longrightarrow> follows md dw l st s st s'"
  by (auto simp: follows_def sim_def)

lemma follows_silent:
  "srv_step md dw l st None st' \<Longrightarrow> sim l st' s' \<Longrightarrow> cs_trace s' = cs_trace s \<Longrightarrow> follows md dw l st s st' s'"
  by (auto simp: follows_def intro: srv_run_silent)

lemma follows_call:
  "srv_step md dw l st (Some c) st' \<Longrightarrow> sim l st' s' \<Longrightarrow> cs_trace s' = cs_trace s @ [c] \<Longrightarrow> follows md dw l st s st' s'"
  unfolding follows_def using srv_run_call by blast

lemma follows_sim: "follows md dw l st s st' s' \<Longrightarrow> sim l st' s'"
  by (simp add: follows_def)

text \<open>What the library can do to the server: bring it its next request.\<close>

definition awaits :: "srv_state \<Rightarrow> srv_state \<Rightarrow> bool" where
  "awaits st st' \<longleftrightarrow> st' = st \<or> st = Idle \<and> (\<exists>r. st' = Pending r)"

lemma conn_handle_follows:
  assumes "sim l st s"
  shows "\<exists>st'. awaits st st' \<and> follows md dw l st s st' (server_conn_handle_cb api r s)"
proof (cases "st = Idle")
  case True
  with assms have "follows md dw l st s (Pending r) (server_conn_handle_cb api r s)"
    by (intro follows_silent) (auto simp: srv_step.arrive server_conn_handle_cb_def sim_def Let_def split_beta)
  with True show ?thesis by (auto simp: awaits_def)
next
  case False
  then have "held_request st \<noteq> None" by (cases st) simp_all
  with assms False have "follows md dw l st s st (server_conn_handle_cb api r s)"
    by (intro follows_call[OF srv_step.reject[of st md dw l r]]) (auto simp: server_conn_handle_cb_def sim_def Let_def split_beta)
  then show ?thesis by (auto simp: awaits_def)
qed

lemma dispatch_follows:
  assumes "sim l st s"
  shows "\<exists>st'. awaits st st' \<and> follows md dw l st s st' (dispatch api cfg e s)"
proof (cases e)
  case (Lib_conn_request r)
  with conn_handle_follows[OF assms] show ?thesis by simp
next
  case (Lib_cb cb u)
  then have "follows md dw l st s st (dispatch api cfg e s)"
    by (cases cb) (simp_all add: follows_same[OF assms] send_cb_def stream_recv_cb_def tag_recv_cb_def am_recv_cb_def)
  then show ?thesis by (auto simp: awaits_def)
qed (use follows_same[OF assms] in \<open>auto simp: awaits_def err_cb_def intro!: exI[of _ st]\<close>)

lemma dispatch_all_follows:
  assumes "sim l st s"
  shows "\<exists>st'. awaits st st' \<and> follows md dw l st s st' (dispatch_all api cfg evs s)"
  using assms unfolding dispatch_all_def
proof (induction evs arbitrary: st s)
  case Nil
  then show ?case by (auto simp: awaits_def intro!: exI[of _ st] follows_same)
next
  case (Cons e evs)
  from dispatch_follows[OF Cons.prems] obtain st1 where
    1: "awaits st st1" "follows md dw l st s st1 (dispatch api cfg e s)" by blast
  from Cons.IH[OF follows_sim[OF 1(2)]] obtain st2 where
    2: "awaits st1 st2" "follows md dw l st1 (dispatch api cfg e s) st2 (fold (dispatch api cfg) evs (dispatch api cfg e s))" by blast
  from 1(1) 2(1) have "awaits st st2" by (auto simp: awaits_def)
  with follows_trans[OF 1(2) 2(2)] show ?case by auto
qed

lemma progress_follows:
  assumes "sim l st s"
  shows "\<exists>st'. awaits st st' \<and> follows md dw l st s st' (ucp_worker_progress api cfg wk s)"
proof -
  obtain evs w where p: "api_progress api wk (world s) = (evs, w)" by fastforce
  have "follows md dw l st s st (s\<lparr>world := w\<rparr>)" by (simp add: follows_same[OF assms])
  with dispatch_all_follows[OF follows_sim[OF this], of md dw api cfg evs] p show ?thesis
    by (auto simp: ucp_worker_progress_def intro: follows_trans)
qed

lemma spin_follows:
  assumes "spin fuel fin (ucp_worker_progress api cfg wk) s = Some s'" "sim l st s"
  shows "\<exists>st'. awaits st st' \<and> follows md dw l st s st' s'"
  using assms(1)
proof (rule spin_inv[where P = "\<lambda>u. \<exists>st'. awaits st st' \<and> follows md dw l st s st' u"])
  show "\<exists>st'. awaits st st' \<and> follows md dw l st s st' s" using assms(2) by (auto simp: awaits_def intro!: exI[of _ st] follows_same)
next
  fix u assume "\<exists>st'. awaits st st' \<and> follows md dw l st s st' u"
  then obtain st1 where 1: "awaits st st1" "follows md dw l st s st1 u" by blast
  from progress_follows[OF follows_sim[OF 1(2)], of md dw api cfg wk] obtain st2 where
    2: "awaits st1 st2" "follows md dw l st1 u st2 (ucp_worker_progress api cfg wk u)" by blast
  from 1(1) 2(1) have "awaits st st2" by (auto simp: awaits_def)
  with follows_trans[OF 1(2) 2(2)] show "\<exists>st'. awaits st st' \<and> follows md dw l st s st' (ucp_worker_progress api cfg wk u)" by auto
qed

lemma awaits_busy: "awaits st st' \<Longrightarrow> st \<noteq> Idle \<Longrightarrow> st' = st"
  by (simp add: awaits_def)

section \<open>A session\<close>

text \<open>
  The calls a server makes while it exchanges messages with a peer, and the relations between
  states that every part of a session keeps: those that are transitive, that nothing but the trace
  and the connection state can affect, and that the library's events and these calls satisfy.
\<close>

fun session_call :: "send_recv_type \<Rightarrow> nat \<Rightarrow> nat \<Rightarrow> cs_call \<Rightarrow> bool" where
  "session_call md wk ep (C_send op e bs q) = (e = ep \<and> op = send_op_of md)"
| "session_call md wk ep (C_recv op h ts q) = (recv_fits md op \<and> h = recv_handle op wk ep)"
| "session_call md wk ep (C_request_free q) = True"
| "session_call md wk ep _ = False"

locale session_relation =
  fixes api :: "'w ucp_api" and cfg :: cs_config and md :: send_recv_type and wk ep :: nat and rel :: "'w cs \<Rightarrow> 'w cs \<Rightarrow> bool"
  assumes rel_trans: "rel s s1 \<Longrightarrow> rel s1 s' \<Longrightarrow> rel s s'"
    and rel_same: "srv_ctx s' = srv_ctx s \<Longrightarrow> cs_trace s' = cs_trace s \<Longrightarrow> rel s s'"
    and rel_events: "rel s (dispatch_all api cfg evs s)"
    and rel_call: "session_call md wk ep c \<Longrightarrow> srv_ctx s' = srv_ctx s \<Longrightarrow> cs_trace s' = cs_trace s @ [c] \<Longrightarrow> rel s s'"
begin

lemma rel_progress: "rel s (ucp_worker_progress api cfg wk s)"
proof -
  obtain evs w where "api_progress api wk (world s) = (evs, w)" by fastforce
  then show ?thesis
    using rel_trans[OF rel_same rel_events, of "s\<lparr>world := w\<rparr>" s evs] by (simp add: ucp_worker_progress_def)
qed

lemma rel_spin: "spin fuel fin (ucp_worker_progress api cfg wk) s = Some s' \<Longrightarrow> rel s s'"
  by (erule spin_inv) (auto intro: rel_same rel_trans rel_progress)

lemma rel_send: "ucp_send_nbx api cfg op ep msg len param s = (r, s') \<Longrightarrow> op = send_op_of md \<Longrightarrow> rel s s'"
  by (auto simp: ucp_send_nbx_def split: prod.splits
      intro!: rel_trans[OF rel_call[of "C_send op ep _ _"] rel_events])

lemma rel_recv: "ucp_recv_nbx api cfg op h msg len param s = (r, s') \<Longrightarrow> recv_fits md op \<Longrightarrow> h = recv_handle op wk ep \<Longrightarrow> rel s s'"
  by (auto simp: ucp_recv_nbx_def Let_def split: prod.splits
      intro!: rel_trans[OF rel_call[of "C_recv op h _ _"] rel_events])

lemma rel_request_wait: "request_wait fuel api cfg wk request ctx s = Some (st, s') \<Longrightarrow> rel s s'"
proof (cases request)
  case (Ptr_REQ r)
  assume "request_wait fuel api cfg wk request ctx s = Some (st, s')"
  with Ptr_REQ obtain s1 where sp: "spin fuel (ctx_complete ctx) (ucp_worker_progress api cfg wk) s = Some s1"
    and s': "s' = ucp_request_free r (snd (ucp_request_check_status api r s1))"
    by (auto simp: request_wait_def Let_def split_beta split: bind_splits)
  have "rel s1 s'"
    unfolding s' by (rule rel_call[of "C_request_free r"]) (simp_all add: ucp_request_free_def)
  with rel_spin[OF sp] show ?thesis by (rule rel_trans)
qed (auto simp: request_wait_def intro: rel_same)

lemma rel_request_finalize:
  assumes "request_finalize fuel api cfg wk request ctx b iov i s = Some (ret, s')"
  shows "rel s s'"
proof -
  from assms obtain st s1 where rw: "request_wait fuel api cfg wk request ctx s = Some (st, s1)"
    by (auto simp: request_finalize_def split: bind_splits)
  have "rel s1 s'" using assms rw by (intro rel_same) (auto simp: request_finalize_def Let_def split: if_splits)
  with rel_request_wait[OF rw] show ?thesis by (rule rel_trans)
qed

lemma rel_am_receive:
  assumes "am_receive fuel api cfg wk iov msg len params s = Some (r, s')" "md = CLIENT_SERVER_SEND_RECV_AM"
  shows "rel s s'"
proof -
  let ?s0 = "s\<lparr>am_data_desc := (am_data_desc s)\<lparr>recv_buf := iov\<rparr>\<rparr>"
  from assms obtain s1 where
    sp: "spin fuel (\<lambda>s. complete (am_data_desc s)) (ucp_worker_progress api cfg wk) ?s0 = Some s1"
    by (auto simp: am_receive_def Let_def split: bind_splits)
  let ?s1 = "s1\<lparr>am_data_desc := (am_data_desc s1)\<lparr>complete := False\<rparr>\<rparr>"
  have "rel s ?s1" using rel_trans[OF rel_trans[OF rel_same rel_spin[OF sp]] rel_same] by simp
  moreover have "rel ?s1 s'"
    using assms sp by (auto simp: am_receive_def Let_def split: if_splits intro: rel_same rel_recv)
  ultimately show ?thesis by (rule rel_trans)
qed

lemma rel_communication:
  assumes "client_server_communication fuel api cfg wk ep md b i s = Some (ret, s')"
  shows "rel s s'"
proof (cases "md \<in> {1, 2, 4}")
  case True
  obtain iov sa where ia: "iov_alloc cfg s = (iov, sa)" by fastforce
  obtain ctx sb where pc: "push_ctx sa = (ctx, sb)" by fastforce
  obtain fp sc where fp: "fill_request_param cfg iov (\<not> b) ctx sb = (fp, sc)" by fastforce
  have sc: "rel s sc"
    using frame_iov_alloc[of cfg s] frame_ctx(1,2)[of sa] frame_fill_request_param[of cfg iov "\<not> b" ctx sb]
    by (intro rel_same) (simp_all add: ia pc fp)
  note ex = assms[unfolded communication_exchange[OF True] exchange_def]
  show ?thesis
  proof (cases fp)
    case None
    with ex ia pc fp have "s' = pop_ctx ctx sc" by auto
    then show ?thesis using rel_trans[OF sc rel_same] by simp
  next
    case (Some p)
    obtain msg len param where p: "p = (msg, len, param)" by (cases p) auto
    from ex ia pc fp Some p obtain r u sd where
      m: "message_call fuel api cfg wk ep md b iov msg len param sc = Some (r, u)"
      and rf: "request_finalize fuel api cfg wk r ctx b iov i u = Some (ret, sd)" and s': "s' = pop_ctx ctx sd"
      by (auto split: bind_splits)
    have "rel sc u" using m True by (auto simp: message_call_def split: if_splits intro: rel_send rel_recv rel_am_receive simp: send_op_of_def)
    from rel_trans[OF sc rel_trans[OF this rel_trans[OF rel_request_finalize[OF rf] rel_same]]] s' show ?thesis by simp
  qed
qed (use assms in \<open>auto simp: client_server_communication_def intro: rel_same\<close>)

lemma rel_iterations: "do_iterations fuel api cfg wk ep md b n i s = Some (ret, j, s') \<Longrightarrow> rel s s'"
proof (induction n arbitrary: i s)
  case 0
  then show ?case by (auto intro: rel_same)
next
  case (Suc n)
  then obtain r s1 where c: "client_server_communication fuel api cfg wk ep md b i s = Some (r, s1)"
    and "if r \<noteq> 0 then s' = s1 else do_iterations fuel api cfg wk ep md b n (i + 1) s1 = Some (ret, j, s')"
    by (auto split: bind_splits if_splits)
  then show ?case using Suc.IH rel_communication[OF c] rel_trans by (auto split: if_splits)
qed

lemma rel_do_work:
  assumes "client_server_do_work fuel api cfg wk ep md True s = Some (ret, s')"
  shows "rel s s'"
proof -
  let ?s0 = "s\<lparr>connection_closed := False\<rparr>"
  from assms obtain r j s1 where it: "do_iterations fuel api cfg wk ep md True (nat (num_iterations cfg)) 0 ?s0 = Some (r, j, s1)"
    by (auto simp: client_server_do_work_def Let_def split: bind_splits)
  have 1: "rel s s1" using rel_trans[OF rel_same rel_iterations[OF it]] by simp
  let ?s1 = "s1\<lparr>cs_out := cs_out s1 @ [Out_fin True]\<rparr>"
  show ?thesis
  proof (cases "r = 0")
    case True
    with assms it obtain r2 s2 where co: "client_server_communication fuel api cfg wk ep md False (j + 1) (cs_signed 32 (j + 1) ?s1) = Some (r2, s2)"
      and fi: "s' = s2 \<or> spin fuel connection_closed (ucp_worker_progress api cfg wk) s2 = Some s'"
      by (auto simp: client_server_do_work_def Let_def split: bind_splits if_splits)
    have "rel s s2" using rel_trans[OF rel_trans[OF 1 rel_same] rel_communication[OF co]] by simp
    with fi show ?thesis by (auto intro: rel_trans rel_spin)
  qed (use assms it 1 in \<open>auto simp: client_server_do_work_def Let_def\<close>)
qed

end

text \<open>While a client is served, the machine stays in its state.\<close>

interpretation serving: session_relation api cfg md dw ep
  "\<lambda>s s'. sim l (Serving r ep) s \<longrightarrow> follows md dw l (Serving r ep) s (Serving r ep) s'" for api cfg md dw ep l r
proof
  fix s :: "'a cs" and evs
  show "sim l (Serving r ep) s \<longrightarrow> follows md dw l (Serving r ep) s (Serving r ep) (dispatch_all api cfg evs s)"
    using dispatch_all_follows[of l "Serving r ep" s md dw api cfg evs] by (auto dest: awaits_busy)
next
  fix c and s s' :: "'a cs"
  assume c: "session_call md dw ep c" and "srv_ctx s' = srv_ctx s" "cs_trace s' = cs_trace s @ [c]"
  from c have "srv_step md dw l (Serving r ep) (Some c) (Serving r ep)"
    by (cases c) (auto intro: srv_step.intros)
  with \<open>srv_ctx s' = srv_ctx s\<close> \<open>cs_trace s' = cs_trace s @ [c]\<close>
  show "sim l (Serving r ep) s \<longrightarrow> follows md dw l (Serving r ep) s (Serving r ep) s'"
    by (auto simp: sim_def intro: follows_call)
qed (auto intro: follows_same follows_trans follows_sim)

section \<open>The loop of the server\<close>

text \<open>
  One turn of the loop, up to the point where it starts again (\<open>None\<close>) or the function is left with
  a result, and any number of turns.
\<close>

definition serve_turn :: "nat \<Rightarrow> 'w ucp_api \<Rightarrow> cs_config \<Rightarrow> nat \<Rightarrow> nat \<Rightarrow> send_recv_type \<Rightarrow> 'w cs \<Rightarrow>
    (int option \<times> 'w cs) option" where
  "serve_turn fuel api cfg worker data_worker typ s = do {
     s \<leftarrow> spin fuel (\<lambda>s. conn_request (srv_ctx s) \<noteq> None) (ucp_worker_progress api cfg worker) s;
     req \<leftarrow> conn_request (srv_ctx s);
     let (status, server_ep, s) = server_create_ep api data_worker req s;
     if status \<noteq> UCS_OK then Some (Some (-1), s)
     else do {
       (ret, s) \<leftarrow> client_server_do_work fuel api cfg data_worker server_ep typ True s;
       s \<leftarrow> ep_close fuel api cfg data_worker server_ep True s;
       if ret \<noteq> 0 then Some (Some ret, s)
       else Some (None, s\<lparr>srv_ctx := (srv_ctx s)\<lparr>conn_request := None\<rparr>, cs_out := cs_out s @ [Out_waiting]\<rparr>)
     }
   }"

fun serve_turns :: "nat \<Rightarrow> nat \<Rightarrow> 'w ucp_api \<Rightarrow> cs_config \<Rightarrow> nat \<Rightarrow> nat \<Rightarrow> send_recv_type \<Rightarrow> 'w cs \<Rightarrow>
    (int option \<times> 'w cs) option" where
  "serve_turns 0 fuel api cfg worker data_worker typ s = Some (None, s)"
| "serve_turns (Suc k) fuel api cfg worker data_worker typ s = do {
     (exit, s) \<leftarrow> serve_turn fuel api cfg worker data_worker typ s;
     (case exit of Some ret \<Rightarrow> Some (Some ret, s) | None \<Rightarrow> serve_turns k fuel api cfg worker data_worker typ s)
   }"

lemma serve_clients_turn:
  "serve_clients (Suc k) fuel api cfg worker data_worker typ s = do {
     (exit, s) \<leftarrow> serve_turn fuel api cfg worker data_worker typ s;
     (case exit of Some ret \<Rightarrow> Some (ret, s) | None \<Rightarrow> serve_clients k fuel api cfg worker data_worker typ s) }"
  by (auto simp: serve_turn_def Let_def split: Option.bind_split prod.splits)

lemma serve_clients_turns:
  "serve_clients k fuel api cfg worker data_worker typ s = Some (ret, s') \<longleftrightarrow>
     serve_turns k fuel api cfg worker data_worker typ s = Some (Some ret, s')"
proof (induction k arbitrary: s)
  case (Suc k)
  show ?case unfolding serve_clients_turn using Suc.IH by (auto split: Option.bind_split option.split)
qed simp

lemma ep_close_follows:
  assumes "ep_close fuel api cfg dw ep force s = Some s'" "sim l (Serving r ep) s"
  shows "\<exists>st. st \<in> {Dropping r, Closed r} \<and> follows md dw l (Serving r ep) s st s'"
proof -
  obtain q evs w where a: "api_ep_close api ep force (world s) = (q, evs, w)" using prod_cases3 by blast
  let ?s1 = "log_call (C_ep_close ep) (s\<lparr>world := w\<rparr>)"
  have 1: "follows md dw l (Serving r ep) s (Dropping r) ?s1"
    using assms(2) by (intro follows_call[OF srv_step.close]) (simp_all add: sim_def)
  show ?thesis
  proof (cases "\<exists>c. q = Ptr_REQ c")
    case False
    then have s': "s' = dispatch_all api cfg evs ?s1" using assms(1) a by (cases q) (auto simp: ep_close_def)
    from dispatch_all_follows[OF follows_sim[OF 1], of md dw api cfg evs] s' have "follows md dw l (Dropping r) ?s1 (Dropping r) s'"
      by (auto dest: awaits_busy)
    with follows_trans[OF 1] show ?thesis by blast
  next
    case True
    then obtain c where c: "q = Ptr_REQ c" by blast
    let ?s2 = "log_call (C_close_request c) ?s1" let ?s3 = "dispatch_all api cfg evs ?s2"
    let ?b = "\<lambda>s. ucp_request_check_status api c (ucp_worker_progress api cfg dw s)"
    have 2: "follows md dw l (Dropping r) ?s1 (Closing r c) ?s2"
      using follows_sim[OF 1] by (intro follows_call[OF srv_step.close_wait]) (simp_all add: sim_def)
    from dispatch_all_follows[OF follows_sim[OF 2], of md dw api cfg evs]
    have 3: "follows md dw l (Closing r c) ?s2 (Closing r c) ?s3" by (auto dest: awaits_busy)
    from assms(1) a c obtain st s4 where p: "poll_until fuel ?b (\<lambda>st. st = UCS_INPROGRESS) ?s3 = Some (st, s4)"
      and s': "s' = ucp_request_free c s4" by (auto simp: ep_close_def Let_def split: bind_splits)
    from p have 4: "follows md dw l (Closing r c) ?s3 (Closing r c) s4"
    proof (rule poll_until_inv[where P = "\<lambda>u. follows md dw l (Closing r c) ?s3 (Closing r c) u"])
      show "follows md dw l (Closing r c) ?s3 (Closing r c) ?s3" using follows_sim[OF 3] by (simp add: follows_same)
      fix u assume u: "follows md dw l (Closing r c) ?s3 (Closing r c) u"
      from progress_follows[OF follows_sim[OF u], of md dw api cfg dw]
      have "follows md dw l (Closing r c) u (Closing r c) (ucp_worker_progress api cfg dw u)" by (auto dest: awaits_busy)
      also have "follows md dw l (Closing r c) (ucp_worker_progress api cfg dw u) (Closing r c) (snd (?b u))"
        by (rule follows_same[OF follows_sim[OF calculation]]) simp_all
      finally show "follows md dw l (Closing r c) ?s3 (Closing r c) (snd (?b u))" using u by (blast intro: follows_trans)
    qed
    have "follows md dw l (Closing r c) s4 (Closed r) s'"
      using follows_sim[OF 4] unfolding s'
      by (intro follows_call[OF srv_step.close_done]) (simp_all add: sim_def ucp_request_free_def)
    from follows_trans[OF 1 follows_trans[OF 2 follows_trans[OF 3 follows_trans[OF 4 this]]]] show ?thesis by blast
  qed
qed

lemma serve_turn_follows:
  assumes "serve_turn fuel api cfg worker dw md s = Some (exit, s')" "sim l Idle s"
  shows "\<exists>st. follows md dw l Idle s st s' \<and>
     (if exit = None then st = Idle else \<exists>r. st \<in> {Pending r, Dropping r, Closed r})"
proof -
  from assms(1) obtain s1 req where
    sp: "spin fuel (\<lambda>s. conn_request (srv_ctx s) \<noteq> None) (ucp_worker_progress api cfg worker) s = Some s1"
    and req: "conn_request (srv_ctx s1) = Some req"
    by (auto simp: serve_turn_def split: bind_splits)
  from spin_follows[OF sp assms(2), of md dw] obtain st0 where st0: "awaits Idle st0" "follows md dw l Idle s st0 s1" by blast
  then have "held_request st0 = Some req" using follows_sim[OF st0(2)] req by (simp add: sim_def)
  with st0 have 1: "follows md dw l Idle s (Pending req) s1" by (auto simp: awaits_def)
  obtain st ep w where a: "api_ep_accept api dw req (world s1) = (st, ep, w)" using prod_cases3 by blast
  show ?thesis
  proof (cases "st = UCS_OK")
    case False
    with assms(1) sp req a have "exit = Some (-1)" "s' = s1\<lparr>world := w\<rparr>"
      by (simp_all add: serve_turn_def server_create_ep_def log_if_def)
    moreover have "follows md dw l (Pending req) s1 (Pending req) (s1\<lparr>world := w\<rparr>)"
      by (simp add: follows_same[OF follows_sim[OF 1]])
    ultimately show ?thesis using 1 by (auto intro: follows_trans)
  next
    case True
    let ?s2 = "log_call (C_ep_create dw ep) (s1\<lparr>world := w\<rparr>)"
    from assms(1) sp req a True obtain ret s3 s4 where
      dw: "client_server_do_work fuel api cfg dw ep md True ?s2 = Some (ret, s3)"
      and cl: "ep_close fuel api cfg dw ep True s3 = Some s4"
      and ex: "exit = (if ret \<noteq> 0 then Some ret else None)"
      and s': "s' = (if ret \<noteq> 0 then s4 else s4\<lparr>srv_ctx := (srv_ctx s4)\<lparr>conn_request := None\<rparr>, cs_out := cs_out s4 @ [Out_waiting]\<rparr>)"
      by (auto simp: serve_turn_def server_create_ep_def log_if_def split: bind_splits if_splits)
    have 2: "follows md dw l (Pending req) s1 (Serving req ep) ?s2"
      using follows_sim[OF 1] by (intro follows_call[OF srv_step.accept]) (simp_all add: sim_def)
    have 3: "follows md dw l (Serving req ep) ?s2 (Serving req ep) s3"
      using serving.rel_do_work[OF dw] follows_sim[OF 2] by blast
    from ep_close_follows[OF cl follows_sim[OF 3]] obtain st4 where
      st4: "st4 \<in> {Dropping req, Closed req}" and 4: "follows md dw l (Serving req ep) s3 st4 s4" by blast
    have all: "follows md dw l Idle s st4 s4" by (rule follows_trans[OF 1 follows_trans[OF 2 follows_trans[OF 3 4]]])
    show ?thesis
    proof (cases "ret = 0")
      case False
      with all ex s' st4 show ?thesis by auto
    next
      case True
      have "follows md dw l st4 s4 (Closed req) s4"
        using st4 follows_sim[OF 4] by (auto intro: follows_same follows_silent[OF srv_step.dropped] simp: sim_def)
      also have "follows md dw l (Closed req) s4 Idle s'"
        using True s' follows_sim[OF 4] by (intro follows_silent[OF srv_step.again]) (simp_all add: sim_def)
      finally have "follows md dw l st4 s4 Idle s'" .
      from follows_trans[OF all this] True ex show ?thesis by auto
    qed
  qed
qed

text \<open>One endpoint is created in a turn: neither the events of the library nor a session create any.\<close>

definition no_new_ep :: "'w cs \<Rightarrow> 'w cs \<Rightarrow> bool" where
  "no_new_ep s s' \<longleftrightarrow> created (cs_trace s') = created (cs_trace s)"

lemma no_new_ep_log: "cs_trace s' = cs_trace s @ [c] \<Longrightarrow> created [c] = [] \<Longrightarrow> no_new_ep s s'"
  by (simp add: no_new_ep_def)

lemma no_new_ep_dispatch: "no_new_ep s (dispatch api cfg e s)"
proof (cases e)
  case (Lib_cb cb u)
  then show ?thesis
    by (cases cb) (simp_all add: no_new_ep_def send_cb_def stream_recv_cb_def tag_recv_cb_def am_recv_cb_def)
next
  case (Lib_conn_request r)
  then show ?thesis by (simp add: server_conn_handle_cb_def no_new_ep_def Let_def split_beta) (simp add: created_def)
qed (simp_all add: no_new_ep_def err_cb_def)

interpretation creating: session_relation api cfg md wk ep no_new_ep for api cfg md wk ep
proof
  fix s :: "'a cs" and evs
  show "no_new_ep s (dispatch_all api cfg evs s)"
    unfolding dispatch_all_def
    by (induction evs arbitrary: s) (simp_all add: no_new_ep_def no_new_ep_dispatch[unfolded no_new_ep_def])
next
  fix c and s s' :: "'a cs"
  assume "session_call md wk ep c" "cs_trace s' = cs_trace s @ [c]"
  then show "no_new_ep s s'" by (cases c) (auto simp: no_new_ep_def created_def)
qed (simp_all add: no_new_ep_def)

lemma ep_close_no_new_ep:
  assumes "ep_close fuel api cfg wk ep force s = Some s'"
  shows "no_new_ep s s'"
proof -
  obtain q evs w where a: "api_ep_close api ep force (world s) = (q, evs, w)" using prod_cases3 by blast
  define u where "u = (case q of Ptr_REQ r \<Rightarrow> log_call (C_close_request r) (log_call (C_ep_close ep) (s\<lparr>world := w\<rparr>))
     | _ \<Rightarrow> log_call (C_ep_close ep) (s\<lparr>world := w\<rparr>))"
  have "no_new_ep s u" by (simp add: u_def no_new_ep_def log_call_def split: ucs_ptr.split) (simp add: created_def)
  with creating.rel_events have 1: "no_new_ep s (dispatch_all api cfg evs u)" by (rule creating.rel_trans[rotated])
  show ?thesis
  proof (cases q)
    case (Ptr_REQ r)
    let ?b = "\<lambda>s. ucp_request_check_status api r (ucp_worker_progress api cfg wk s)"
    from assms a Ptr_REQ obtain st s2 where p: "poll_until fuel ?b (\<lambda>st. st = UCS_INPROGRESS) (dispatch_all api cfg evs u) = Some (st, s2)"
      and s': "s' = ucp_request_free r s2" by (auto simp: ep_close_def u_def Let_def split: bind_splits)
    from p have "no_new_ep s s2"
    proof (rule poll_until_inv[where P = "no_new_ep s"])
      fix v assume "no_new_ep s v"
      with creating.rel_progress[of v api cfg wk] show "no_new_ep s (snd (?b v))"
        by (simp add: no_new_ep_def ucp_request_check_status_def split_beta)
    qed (rule 1)
    with s' show ?thesis by (simp add: no_new_ep_def ucp_request_free_def) (simp add: created_def)
  qed (use assms a 1 in \<open>auto simp: ep_close_def u_def\<close>)
qed

lemma serve_turn_created:
  assumes "serve_turn fuel api cfg worker dw md s = Some (None, s')"
  shows "length (created (cs_trace s')) = Suc (length (created (cs_trace s)))"
proof -
  from assms obtain s1 req where
    sp: "spin fuel (\<lambda>s. conn_request (srv_ctx s) \<noteq> None) (ucp_worker_progress api cfg worker) s = Some s1"
    and rq: "conn_request (srv_ctx s1) = Some req" by (auto simp: serve_turn_def split: bind_splits)
  obtain st ep s2 where ce: "server_create_ep api dw req s1 = (st, ep, s2)" using prod_cases3 by blast
  with assms sp rq obtain ret s3 s4 where "st = UCS_OK"
    and wk: "client_server_do_work fuel api cfg dw ep md True s2 = Some (ret, s3)"
    and cl: "ep_close fuel api cfg dw ep True s3 = Some s4"
    and s': "cs_trace s' = cs_trace s4"
    by (auto simp: serve_turn_def split: bind_splits if_splits)
  have "created (cs_trace s2) = created (cs_trace s1) @ [ep]"
    using ce \<open>st = UCS_OK\<close> by (auto simp: server_create_ep_def log_if_def log_call_def split_beta split: if_splits)
  then show ?thesis using creating.rel_spin[OF sp] creating.rel_do_work[OF wk] ep_close_no_new_ep[OF cl] s'
    by (simp add: no_new_ep_def)
qed

lemma serve_turns_created:
  "serve_turns k fuel api cfg worker dw md s = Some (None, s') \<Longrightarrow>
     length (created (cs_trace s')) = k + length (created (cs_trace s))"
proof (induction k arbitrary: s)
  case (Suc k)
  then obtain s1 where t: "serve_turn fuel api cfg worker dw md s = Some (None, s1)"
    "serve_turns k fuel api cfg worker dw md s1 = Some (None, s')" by (auto split: bind_splits option.splits)
  from Suc.IH[OF t(2)] serve_turn_created[OF t(1)] show ?case by simp
qed simp

lemma serve_turns_follow:
  assumes "serve_turns k fuel api cfg worker dw md s = Some (exit, s')" "sim l Idle s"
  shows "\<exists>st. follows md dw l Idle s st s' \<and>
     (if exit = None then st = Idle else \<exists>r. st \<in> {Pending r, Dropping r, Closed r})"
  using assms
proof (induction k arbitrary: s)
  case 0
  then show ?case by (auto intro!: exI[of _ Idle] follows_same)
next
  case (Suc k)
  from Suc.prems(1) obtain e s1 where t: "serve_turn fuel api cfg worker dw md s = Some (e, s1)"
    by (auto split: bind_splits)
  from serve_turn_follows[OF t Suc.prems(2)] obtain st1 where 1: "follows md dw l Idle s st1 s1"
    and e: "if e = None then st1 = Idle else \<exists>r. st1 \<in> {Pending r, Dropping r, Closed r}" by blast
  show ?case
  proof (cases e)
    case None
    then have i: "follows md dw l Idle s Idle s1" using e 1 by simp
    from None Suc.prems(1) t have "serve_turns k fuel api cfg worker dw md s1 = Some (exit, s')" by simp
    from Suc.IH[OF this follows_sim[OF i]] obtain st where "follows md dw l Idle s1 st s'"
      "if exit = None then st = Idle else \<exists>r. st \<in> {Pending r, Dropping r, Closed r}" by blast
    with follows_trans[OF i] show ?thesis by blast
  next
    case (Some r)
    with Suc.prems(1) t e 1 show ?thesis by auto
  qed
qed

end
