(* ===== verification/Cs_Leak.thy ===== *)
theory Cs_Leak
  imports Cs_Memory
begin

text \<open>
  Memory over a whole run of \<open>ucp_client_server.c\<close>: when no allocation fails, the session with a peer,
  the loop of the server, the client and \<open>main\<close> give back all the memory they take. What one message
  gives back is shown in the theory of the exchange; here it is composed along the control flow.
\<close>

section \<open>Allocation failures are decided from outside\<close>

abbreviation (input) cs_oom :: "'w cs \<Rightarrow> nat \<Rightarrow> bool" where
  "cs_oom s \<equiv> oom (cs_heap s)"

lemma oom_copies [simp]:
  "oom (cuda_free p h) = oom h" "oom (snd (load ok p n h)) = oom h"
  by (auto simp: cuda_free_def load_def split: option.splits ptr.splits nat.splits)

lemma oom_mem_type [simp]:
  "oom (mem_type_free hc tmt p h) = oom h" "oom (mem_type_memcpy hc tmt p q n h) = oom h"
  "oom (snd (mem_type_malloc hc tmt n h)) = oom h" "oom (mem_type_copy_in cfg p bs h) = oom h"
  by (simp_all add: mem_type_free_def mem_type_memcpy_def mem_type_malloc_def mem_type_copy_in_def c_malloc_cases
      cuda_malloc_cases split: ucs_memory_type.split)

lemma oom_generate_test_string [simp]: "oom (snd (generate_test_string hc tmt p n h)) = oom h"
  by (simp add: generate_test_string_def c_malloc_cases Let_def)

lemmas oom_fold = fold_keeps[of "\<lambda>s. oom (cs_heap s)"]

lemma oom_iov [simp]:
  "cs_oom (cs_fault f s) = cs_oom s" "cs_oom (snd (iov_read a i s)) = cs_oom s" "cs_oom (iov_write a i v s) = cs_oom s"
  "cs_oom (snd (iov_alloc cfg s)) = cs_oom s" "cs_oom (iov_free a s) = cs_oom s"
  by (auto simp: cs_fault_def on_heap_def iov_read_def iov_write_def iov_alloc_def iov_free_def Let_def split: option.splits)

lemma oom_signed [simp]: "cs_oom (cs_signed w v s) = cs_oom s" "cs_oom (prints_eval cfg i s) = cs_oom s"
  by (simp_all add: cs_signed_def prints_eval_def Let_def)

lemma oom_buffers [simp]:
  "cs_oom (buffer_free cfg iov s) = cs_oom s" "cs_oom (snd (buffer_malloc_from cfg iov is s)) = cs_oom s"
  "cs_oom (snd (fill_buffer_from cfg iov is s)) = cs_oom s" "cs_oom (am_scatter cfg iov is bs s) = cs_oom s"
proof -
  show f: "cs_oom (buffer_free cfg iov s) = cs_oom s" for s :: "'a cs"
    by (simp add: buffer_free_def Let_def split_beta on_heap_def oom_fold)
  show "cs_oom (snd (buffer_malloc_from cfg iov is s)) = cs_oom s"
    by (induction "is" arbitrary: s) (simp_all add: Let_def split_beta f)
  show "cs_oom (snd (fill_buffer_from cfg iov is s)) = cs_oom s"
    by (induction "is" arbitrary: s) (simp_all add: Let_def split_beta)
  show "cs_oom (am_scatter cfg iov is bs s) = cs_oom s"
    by (induction "is" arbitrary: s bs) (simp_all add: Let_def split_beta on_heap_def)
qed

lemma oom_callbacks [simp]:
  "cs_oom (common_cb u s) = cs_oom s" "cs_oom (snd (ucp_am_data_cb cfg hl d n s)) = cs_oom s"
  "cs_oom (server_conn_handle_cb api r s) = cs_oom s"
  by (auto simp: common_cb_def ucp_am_data_cb_def server_conn_handle_cb_def Let_def split_beta
      split: option.splits am_payload.splits)

lemma oom_dispatch [simp]: "cs_oom (dispatch api cfg e s) = cs_oom s"
proof (cases e)
  case (Lib_cb cb u)
  then show ?thesis by (cases cb) (simp_all add: send_cb_def stream_recv_cb_def tag_recv_cb_def am_recv_cb_def)
qed (simp_all add: err_cb_def on_heap_def)

lemma oom_events [simp]:
  "cs_oom (dispatch_all api cfg evs s) = cs_oom s" "cs_oom (ucp_worker_progress api cfg wk s) = cs_oom s"
  by (simp_all add: dispatch_all_def oom_fold ucp_worker_progress_def split_beta)

lemma oom_spin: "spin fuel fin (ucp_worker_progress api cfg wk) s = Some s' \<Longrightarrow> cs_oom s' = cs_oom s"
  by (erule spin_inv) simp_all

lemma oom_read_targets [simp]: "oom (snd (read_targets ts h)) = oom h"
proof (induction ts arbitrary: h)
  case (Cons t ts)
  then show ?case by (cases t) (simp add: split_beta)
qed simp

lemma oom_transfers [simp]:
  "cs_oom (snd (ucp_send_nbx api cfg sop ep msg len param s)) = cs_oom s"
  "cs_oom (snd (ucp_recv_nbx api cfg rop hnd msg len param s)) = cs_oom s"
  by (simp_all add: ucp_send_nbx_def ucp_recv_nbx_def Let_def split_beta)

lemma oom_print_result [simp]: "cs_oom (print_result cfg b iov i s) = cs_oom s"
proof -
  have "cs_oom (print_str16 p u) = cs_oom u" for p and u :: "'a cs" by (simp add: print_str16_def Let_def)
  then have "cs_oom (fold (\<lambda>idx s. let (v, s) = iov_read iov idx s;
       s = on_heap (mem_type_memcpy (have_cuda cfg) (test_mem_type cfg) msg (iov_buffer v) len) s
     in print_str16 msg s) xs u) = cs_oom u" for msg len xs and u :: "'a cs"
    by (intro oom_fold) (simp add: split_beta on_heap_def)
  then show ?thesis by (simp add: print_result_def print_iov_def Let_def split_beta c_malloc_cases on_heap_def)
qed

lemma oom_request_finalize:
  assumes "request_finalize fuel api cfg wk request ctx b iov i s = Some (ret, s')"
  shows "cs_oom s' = cs_oom s"
proof -
  from assms obtain st s1 where rw: "request_wait fuel api cfg wk request ctx s = Some (st, s1)"
    by (auto simp: request_finalize_def split: bind_splits)
  then have "cs_oom s1 = cs_oom s"
    by (auto simp: request_wait_def ucp_request_free_def ucp_request_check_status_def split_beta Let_def
        split: ucs_ptr.splits bind_splits dest!: oom_spin)
  with assms rw show ?thesis by (auto simp: request_finalize_def Let_def split: if_splits)
qed

lemma oom_transfer_results:
  "ucp_send_nbx api cfg sop ep msg len param s = (r, s') \<Longrightarrow> cs_oom s' = cs_oom s"
  "ucp_recv_nbx api cfg rop hnd msg len param s = (r, s') \<Longrightarrow> cs_oom s' = cs_oom s"
  using oom_transfers(1)[of api cfg sop ep msg len param s] oom_transfers(2)[of api cfg rop hnd msg len param s] by simp_all

lemma oom_message_call:
  "message_call fuel api cfg wk ep typ b iov msg len param s = Some (r, s') \<Longrightarrow> cs_oom s' = cs_oom s"
  by (auto simp: message_call_def am_receive_def Let_def split: if_splits bind_splits
      dest!: oom_spin oom_transfer_results)

lemma oom_communication:
  assumes "client_server_communication fuel api cfg wk ep typ b i s = Some (ret, s')"
  shows "cs_oom s' = cs_oom s"
proof (cases "typ \<in> {1, 2, 4}")
  case True
  obtain iov sa where ia: "iov_alloc cfg s = (iov, sa)" by fastforce
  obtain ctx sb where pc: "push_ctx sa = (ctx, sb)" by fastforce
  obtain fp sc where fp: "fill_request_param cfg iov (\<not> b) ctx sb = (fp, sc)" by fastforce
  have "cs_oom sa = cs_oom s" using oom_iov(4)[of cfg s] ia by simp
  moreover have "cs_oom sb = cs_oom sa" using pc by (auto simp: push_ctx_def)
  moreover have "cs_oom (snd (fill_request_param cfg iov c ctx u)) = cs_oom u" for c and u :: "'a cs"
    by (simp add: fill_request_param_def buffer_malloc_def fill_buffer_def Let_def split_beta)
  then have "cs_oom sc = cs_oom sb" using fp by (metis snd_conv)
  ultimately have sc: "cs_oom sc = cs_oom s" by simp
  from assms[unfolded communication_exchange[OF True] exchange_def] ia pc fp sc show ?thesis
    by (auto simp: pop_ctx_def split: option.splits bind_splits dest!: oom_message_call oom_request_finalize)
qed (use assms in \<open>auto simp: client_server_communication_def\<close>)

section \<open>A whole run\<close>

text \<open>
  From a well-formed state in which no allocation will fail, \<open>steady\<close> steps lead to such states
  and leak nothing.
\<close>

definition has_room :: "'w cs \<Rightarrow> bool" where
  "has_room s \<longleftrightarrow> cs_wf s \<and> (\<forall>a. \<not> cs_oom s a)"

definition steady :: "'w cs \<Rightarrow> 'w cs \<Rightarrow> bool" where
  "steady s s' \<longleftrightarrow> (has_room s \<longrightarrow> no_leak s s' \<and> has_room s')"

lemma steady_trans [trans]: "steady s s1 \<Longrightarrow> steady s1 s' \<Longrightarrow> steady s s'"
  by (auto simp: steady_def no_leak_def)

lemma steady_same:
  "cs_heap s' = cs_heap s \<Longrightarrow> iovs s' = iovs s \<Longrightarrow> ctxs s' = ctxs s \<Longrightarrow> next_id s' = next_id s \<Longrightarrow> steady s s'"
  by (simp add: steady_def no_leak_def has_room_def cs_wf_def)

lemma steady_quiet:
  assumes q: "quiet s s'" and o: "cs_oom s' = cs_oom s"
  shows "steady s s'"
proof -
  have "ctxs s' i = None \<longleftrightarrow> ctxs s i = None" for i using q by (metis domIff quiet_def)
  with q o heap_wf_shape[of "cs_heap s'" "cs_heap s"] show ?thesis
    by (simp add: steady_def quiet_def no_leak_def has_room_def cs_wf_def)
qed

lemma steady_events: "steady s (dispatch_all api cfg evs s)" "steady s (ucp_worker_progress api cfg wk s)"
  by (simp_all add: steady_quiet quiet_dispatch_all quiet_progress)

lemma steady_spin: "spin fuel fin (ucp_worker_progress api cfg wk) s = Some s' \<Longrightarrow> steady s s'"
  by (auto intro: steady_quiet quiet_spin oom_spin)

lemma steady_communication:
  assumes "client_server_communication fuel api cfg wk ep typ b i s = Some (ret, s')"
    and "0 < iov_cnt cfg" "iov_cnt cfg * 16 < 2 ^ 64"
  shows "steady s s'"
proof -
  have "no_leak s s'" if "has_room s"
    using that communication_no_leak[OF _ _ assms(2,3,1)] by (simp add: has_room_def)
  with oom_communication[OF assms(1)] show ?thesis by (auto simp: steady_def has_room_def no_leak_def)
qed

lemma steady_iterations:
  assumes "do_iterations fuel api cfg wk ep typ b n i s = Some (ret, j, s')"
    and "0 < iov_cnt cfg" "iov_cnt cfg * 16 < 2 ^ 64"
  shows "steady s s'"
  using assms(1)
proof (induction n arbitrary: i s)
  case 0
  then show ?case by (auto intro: steady_same)
next
  case (Suc n)
  then obtain r s1 where c: "client_server_communication fuel api cfg wk ep typ b i s = Some (r, s1)"
    and "if r \<noteq> 0 then s' = s1 else do_iterations fuel api cfg wk ep typ b n (i + 1) s1 = Some (ret, j, s')"
    by (auto split: bind_splits if_splits)
  then show ?case using Suc.IH steady_communication[OF c assms(2,3)] by (auto split: if_splits intro: steady_trans)
qed

lemma steady_do_work:
  assumes "client_server_do_work fuel api cfg wk ep typ b s = Some (ret, s')"
    and cnt: "0 < iov_cnt cfg" "iov_cnt cfg * 16 < 2 ^ 64"
  shows "steady s s'"
proof -
  let ?s0 = "s\<lparr>connection_closed := False\<rparr>"
  from assms(1) obtain r j s1 where it: "do_iterations fuel api cfg wk ep typ b (nat (num_iterations cfg)) 0 ?s0 = Some (r, j, s1)"
    by (auto simp: client_server_do_work_def Let_def split: bind_splits)
  have 1: "steady s s1" using steady_trans[OF steady_same steady_iterations[OF it cnt]] by simp
  let ?s1 = "s1\<lparr>cs_out := cs_out s1 @ [Out_fin b]\<rparr>"
  define u where "u = (if \<not> b \<and> typ = CLIENT_SERVER_SEND_RECV_AM then snd (register_am_recv_callback api wk ?s1) else ?s1)"
  have 2: "steady s u"
    by (rule steady_trans[OF 1 steady_same]) (simp_all add: u_def register_am_recv_callback_def split_beta log_call_def)
  have 3: "steady s (cs_signed 32 (j + 1) u)" by (rule steady_trans[OF 2 steady_quiet]) simp_all
  have "s' = s1 \<or> s' = u \<or> (\<exists>r2 s2. client_server_communication fuel api cfg wk ep typ (\<not> b) (j + 1) (cs_signed 32 (j + 1) u) = Some (r2, s2) \<and>
      (s' = s2 \<or> spin fuel connection_closed (ucp_worker_progress api cfg wk) s2 = Some s'))"
    using assms(1) it by (auto simp: client_server_do_work_def u_def Let_def split_beta split: bind_splits if_splits)
  with 1 2 3 show ?thesis by (auto dest!: steady_communication[OF _ cnt] steady_spin intro: steady_trans)
qed

lemma steady_ep_close:
  assumes "ep_close fuel api cfg wk ep force s = Some s'"
  shows "steady s s'"
proof -
  obtain q evs w where a: "api_ep_close api ep force (world s) = (q, evs, w)" using prod_cases3 by blast
  define s1 where "s1 = (case q of Ptr_REQ r \<Rightarrow> log_call (C_close_request r) (log_call (C_ep_close ep) (s\<lparr>world := w\<rparr>))
     | _ \<Rightarrow> log_call (C_ep_close ep) (s\<lparr>world := w\<rparr>))"
  have "steady s s1" by (rule steady_same) (simp_all add: s1_def log_call_def split: ucs_ptr.split)
  also have "steady s1 (dispatch_all api cfg evs s1)" by (rule steady_events)
  finally have 1: "steady s (dispatch_all api cfg evs s1)" .
  show ?thesis
  proof (cases q)
    case (Ptr_REQ r)
    let ?b = "\<lambda>s. ucp_request_check_status api r (ucp_worker_progress api cfg wk s)"
    from assms a Ptr_REQ obtain st s2 where p: "poll_until fuel ?b (\<lambda>st. st = UCS_INPROGRESS) (dispatch_all api cfg evs s1) = Some (st, s2)"
      and s': "s' = ucp_request_free r s2" by (auto simp: ep_close_def s1_def Let_def split: bind_splits)
    have b: "steady u (snd (?b u))" for u
      by (rule steady_trans[OF steady_events(2) steady_same]) (simp_all add: ucp_request_check_status_def split_beta)
    from p 1 have "steady s s2" by (rule poll_until_inv) (blast intro: steady_trans b)
    also have "steady s2 s'" unfolding s' by (rule steady_same) (simp_all add: ucp_request_free_def)
    finally show ?thesis .
  qed (use assms a 1 in \<open>auto simp: ep_close_def s1_def\<close>)
qed

lemma steady_serve_clients:
  assumes "serve_clients k fuel api cfg wk dw typ s = Some (ret, s')"
    and cnt: "0 < iov_cnt cfg" "iov_cnt cfg * 16 < 2 ^ 64"
  shows "steady s s'"
  using assms(1)
proof (induction k arbitrary: s)
  case (Suc k)
  from Suc.prems obtain s1 req where
    sp: "spin fuel (\<lambda>s. conn_request (srv_ctx s) \<noteq> None) (ucp_worker_progress api cfg wk) s = Some s1"
    and req: "conn_request (srv_ctx s1) = Some req"
    by (auto split: bind_splits)
  obtain st ep s2 where a: "server_create_ep api dw req s1 = (st, ep, s2)" using prod_cases3 by blast
  then have "steady s1 s2"
    by (intro steady_same) (auto simp: server_create_ep_def log_if_def log_call_def split_beta Let_def split: if_splits)
  with steady_spin[OF sp] have 2: "steady s s2" by (rule steady_trans)
  show ?case
  proof (cases "st = UCS_OK")
    case False
    with Suc.prems sp req a 2 show ?thesis by simp
  next
    case True
    with Suc.prems sp req a obtain r s3 s4 where
      dw: "client_server_do_work fuel api cfg dw ep typ True s2 = Some (r, s3)"
      and cl: "ep_close fuel api cfg dw ep True s3 = Some s4"
      and re: "if r \<noteq> 0 then s' = s4 else serve_clients k fuel api cfg wk dw typ
         (s4\<lparr>srv_ctx := (srv_ctx s4)\<lparr>conn_request := None\<rparr>, cs_out := cs_out s4 @ [Out_waiting]\<rparr>) = Some (ret, s')"
      by (auto split: bind_splits if_splits)
    have 4: "steady s s4" by (rule steady_trans[OF 2 steady_trans[OF steady_do_work[OF dw cnt] steady_ep_close[OF cl]]])
    show ?thesis
    proof (cases "r = 0")
      case True
      with re have "serve_clients k fuel api cfg wk dw typ
         (s4\<lparr>srv_ctx := (srv_ctx s4)\<lparr>conn_request := None\<rparr>, cs_out := cs_out s4 @ [Out_waiting]\<rparr>) = Some (ret, s')" by simp
      from steady_trans[OF 4 steady_trans[OF steady_same Suc.IH[OF this]]] show ?thesis by simp
    qed (use re 4 in simp)
  qed
qed simp

lemmas steady_logs = log_if_def log_call_def init_worker_def register_am_recv_callback_def start_server_def start_client_def
  init_context_def

lemma steady_calls:
  "steady s (log_call c s)" "steady s (snd (snd (init_worker api ctx s)))"
  "steady s (snd (register_am_recv_callback api wk s))" "steady s (snd (start_server api cfg wk a s))"
  "steady s (snd (snd (start_client api cfg wk adr s)))" "steady s (snd (snd (snd (init_context api typ s))))"
  by (rule steady_same; simp add: steady_logs Let_def split_beta)+

lemma steady_logged: "steady s u \<Longrightarrow> steady s (log_call c u)"
  by (rule steady_trans[OF _ steady_calls(1)])

lemma steady_run_server:
  assumes "run_server k fuel api cfg ctx wk adr typ s = Some (ret, s')"
    and cnt: "0 < iov_cnt cfg" "iov_cnt cfg * 16 < 2 ^ 64"
  shows "steady s s'"
proof -
  define s1 where "s1 = snd (snd (init_worker api ctx s))"
  define dw where "dw = fst (snd (init_worker api ctx s))"
  define s2 where "s2 = (if typ = CLIENT_SERVER_SEND_RECV_AM then snd (register_am_recv_callback api dw s1) else s1)"
  let ?s2 = "s2\<lparr>srv_ctx := (srv_ctx s2)\<lparr>conn_request := None\<rparr>\<rparr>"
  define s3 where "s3 = snd (start_server api cfg wk adr ?s2)"
  have 1: "steady s s1" by (simp add: s1_def steady_calls)
  also have "steady s1 s2" by (simp add: s2_def steady_calls steady_same)
  finally have 2: "steady s s2" .
  also have "steady s2 ?s2" by (rule steady_same) simp_all
  also have "steady ?s2 s3" by (simp add: s3_def steady_calls)
  finally have 3: "steady s s3" .
  from assms(1) have "s' = s1 \<or> s' = log_call (C_worker_destroy dw) s2 \<or> s' = log_call (C_worker_destroy dw) s3 \<or>
     (\<exists>s4. serve_clients k fuel api cfg wk dw typ s3 = Some (ret, s4) \<and>
        s' = log_call (C_worker_destroy dw) (log_call (C_listener_destroy (listener (srv_ctx s4))) s4))"
    unfolding s3_def s2_def s1_def dw_def
    by (auto simp: run_server_def Let_def split_beta split: if_splits bind_splits)
  with 1 2 3 show ?thesis
    by (auto dest!: steady_serve_clients[OF _ cnt] intro: steady_trans intro!: steady_logged)
qed

lemma steady_run_client:
  assumes "run_client fuel api cfg wk adr typ s = Some (ret, s')"
    and cnt: "0 < iov_cnt cfg" "iov_cnt cfg * 16 < 2 ^ 64"
  shows "steady s s'"
proof -
  obtain st ep s1 where a: "start_client api cfg wk adr s = (st, ep, s1)" using prod_cases3 by blast
  have 1: "steady s s1" using steady_calls(5)[of s api cfg wk adr] a by simp
  with assms(1) a show ?thesis
    by (auto simp: run_client_def split: if_splits bind_splits
        dest!: steady_do_work[OF _ cnt] steady_ep_close intro: steady_trans)
qed

lemma steady_main:
  assumes "cs_main k fuel api hc argv s = Some (ret, s')"
    and room: "\<And>cfg args. cs_parse_cmd hc argv = Inr (cfg, args) \<Longrightarrow> iov_cnt cfg * 16 < 2 ^ 64"
  shows "steady s s'"
proof (cases "cs_parse_cmd hc argv")
  case (Inl r)
  with assms(1) show ?thesis by (simp add: cs_main_def steady_same)
next
  case (Inr p)
  obtain cfg args where p: "p = (cfg, args)" by fastforce
  obtain r ctx wk s1 where ic: "init_context api (comm_type args) s = (r, ctx, wk, s1)" using prod_cases4 by blast
  have 1: "steady s s1" using steady_calls(6)[of s api "comm_type args"] ic by simp
  have cnt: "0 < iov_cnt cfg" "iov_cnt cfg * 16 < 2 ^ 64"
    using cs_parse_cmd_ok[of hc argv p] room[of cfg args] Inr p by (simp_all add: cs_settings_ok_def cs_config_ok_def)
  show ?thesis
  proof (cases "r = 0")
    case True
    with assms(1) Inr p ic obtain s2 where s': "s' = log_call (C_cleanup ctx) (log_call (C_worker_destroy wk) s2)" and
      "(case server_addr args of None \<Rightarrow> run_server k fuel api cfg ctx wk (listen_addr args) (comm_type args) s1
         | Some a \<Rightarrow> run_client fuel api cfg wk a (comm_type args) s1) = Some (ret, s2)"
      by (auto simp: cs_main_def split: bind_splits)
    then have "steady s1 s2"
      by (auto split: option.splits dest: steady_run_server[OF _ cnt] steady_run_client[OF _ cnt])
    with 1 show ?thesis unfolding s' by (blast intro: steady_trans steady_logged)
  qed (use assms(1) Inr p ic 1 in \<open>simp add: cs_main_def\<close>)
qed

end
