(* ===== verification/Cs_Loopback.thy ===== *)
theory Cs_Loopback
  imports Cs_Resources
begin

text \<open>
  A small concrete UCP library: sends are queued and complete at the next progress, receives are
  served at once with the letter A, active messages arrive eagerly, and the peer disconnects when
  nothing is pending. It instantiates the parameter \<open>ucp_api\<close> where a theorem is applied to a
  concrete run.
\<close>

record loopback =
  lb_pending :: "(cb_name \<times> nat) list"
  lb_connects :: nat

definition loopback_start :: loopback where
  "loopback_start = \<lparr>lb_pending = [], lb_connects = 1\<rparr>"

definition loopback_api :: "nat \<Rightarrow> loopback ucp_api" where
  "loopback_api am_len = \<lparr>
     api_progress = (\<lambda>worker w.
       (case lb_pending w of
          (cb, c) # r \<Rightarrow> ([Lib_cb cb (Some c)], w\<lparr>lb_pending := r\<rparr>)
        | [] \<Rightarrow> if 0 < lb_connects w then ([Lib_conn_request 5], w\<lparr>lb_connects := lb_connects w - 1\<rparr>)
                else ([Lib_am_data 0 (Eager (replicate am_len 65)) am_len, Lib_err 9 (-25)], w))),
     api_send = (\<lambda>op ep bs param w.
       (Ptr_REQ 7, [], w\<lparr>lb_pending := lb_pending w @ [(the (param_cb param), param_user_data param)]\<rparr>)),
     api_recv = (\<lambda>op hnd ts param w. (Ptr_NULL, map (\<lambda>(p, n). Lib_write p (replicate n 65)) ts, w)),
     api_check_status = (\<lambda>r w. (UCS_OK, w)),
     api_init = (\<lambda>f w. (UCS_OK, 1, w)),
     api_worker_create = (\<lambda>c w. (UCS_OK, 2, w)),
     api_set_am_handler = (\<lambda>wk i w. (UCS_OK, w)),
     api_ep_connect = (\<lambda>wk a w. (UCS_OK, 3, w)),
     api_ep_accept = (\<lambda>wk r w. (UCS_OK, 3, w)),
     api_ep_close = (\<lambda>ep force w. (Ptr_REQ 8, [], w)),
     api_listener_create = (\<lambda>wk a w. (UCS_OK, 4, w)),
     api_listener_query = (\<lambda>l w. (UCS_OK, \<lparr>ss_family = AF_INET, ss_addr = [0, 0, 0, 0], ss_port = htons 7\<rparr>, w)),
     api_conn_query = (\<lambda>r w. (UCS_OK, \<lparr>ss_family = AF_INET, ss_addr = [10, 0, 0, 1], ss_port = htons 9\<rparr>, w)),
     api_reject = (\<lambda>l r w. (UCS_OK, w)),
     net_pton = (\<lambda>af a. None),
     net_ntop = (\<lambda>af a. ''addr'')\<rparr>"

abbreviation demo_heap :: heap where
  "demo_heap \<equiv> empty_heap (\<lambda>_. False) (\<lambda>_ _. 0)"

text \<open>A library that completes every transfer at once, and one that refuses a connection.\<close>

definition instant_api :: "loopback ucp_api" where
  "instant_api = (loopback_api 1)\<lparr>api_recv := (\<lambda>op hnd ts param w. (Ptr_NULL, [], w)),
     api_send := (\<lambda>op ep bs param w. (Ptr_NULL, [], w))\<rparr>"

definition refusing_api :: "loopback ucp_api" where
  "refusing_api = (loopback_api 16)\<lparr>api_ep_accept := (\<lambda>wk r w. (UCS_ERR_IO_ERROR, 0, w))\<rparr>"

definition demo_config :: "int \<Rightarrow> int \<Rightarrow> cs_config" where
  "demo_config len cnt = (cs_defaults False)\<lparr>test_string_length := len, iov_cnt := cnt, num_iterations := 0\<rparr>"

abbreviation demo_state :: "loopback cs" where
  "demo_state \<equiv> cs_start demo_heap loopback_start"

end
