(* ===== verification/Cs_Properties.thy ===== *)
theory Cs_Properties
  imports Cs_Receive Cs_Automaton Cs_Leak Cs_Loopback
begin

text \<open>
  The properties of \<open>ucp_client_server.c\<close> and of the helpers it shares with the other programs.
  Each theorem is followed by an application to a concrete run.
\<close>

section \<open>Resources\<close>

text \<open>
  (C1) Whatever the UCP library does (any statuses, requests, callbacks and data), when \<open>main\<close>
  returns, the context, the workers, the listener, the endpoints and the requests it acquired have
  each been released, and nothing was released that was not live. These are the kinds that are counted:
  memory is the subject of the next theorems, and the descriptor of a rendezvous message that the callback
  keeps is not counted (\<open>rendezvous_descriptor_lost\<close> shows how one gets lost).
\<close>

theorem main_releases_everything:
  assumes "cs_main clients fuel api hc argv s = Some (ret, s')" and "cs_trace s = []"
  shows "run_trace cs_acquires cs_releases {#} (cs_trace s') = Some {#}"
proof -
  from conforms_main[OF assms(1), of "{#}"] obtain t where
    "cs_trace s' = cs_trace s @ t" "res_triple cs_acquires cs_releases {#} t {#}"
    by (auto simp: cs_conforms_def)
  then show ?thesis using csr.triple_run assms(2) by auto
qed

lemma refused_run:
  "map_option fst (cs_main 1 10 refusing_api False [''p'', ''-c'', ''am''] demo_state) = Some (-1)"
  by code_simp

theorem main_releases_everything_witness:
  "\<exists>ret s'. cs_main 1 10 refusing_api False [''p'', ''-c'', ''am''] demo_state = Some (ret, s') \<and>
     run_trace cs_acquires cs_releases {#} (cs_trace s') = Some {#}"
proof -
  from refused_run obtain s' where
    "cs_main 1 10 refusing_api False [''p'', ''-c'', ''am''] demo_state = Some (-1, s')" by auto
  with main_releases_everything[OF this] show ?thesis by (auto simp: cs_start_def)
qed

text \<open>
  The callback keeps one rendezvous descriptor: when two messages are announced in one round of
  progress, the first is overwritten and never passed to \<open>ucp_am_recv_data_nbx\<close>.
\<close>

lemma rendezvous_descriptor_lost:
  assumes "n = size_t (iov_cnt cfg * test_string_length cfg)"
  shows "desc (am_data_desc (dispatch_all api cfg [Lib_am_data a (Rndv i) n, Lib_am_data b (Rndv j) n] s)) = j \<and>
     cs_trace (dispatch_all api cfg [Lib_am_data a (Rndv i) n, Lib_am_data b (Rndv j) n] s) = cs_trace s"
  using assms by (simp add: dispatch_all_def ucp_am_data_cb_def Let_def)

text \<open>
  (C2) One exchange of a message, in any of the three modes and as either peer, gives back all the
  memory it took, on success and on every error path, whatever the UCP library does: the blocks of
  the heap, the arrays of buffer descriptors and the request contexts are those of before. The only
  condition is that the unchecked allocation of the descriptor array succeeds.
\<close>

theorem message_leaves_no_memory:
  assumes "cs_wf s" "\<not> oom (cs_heap s) (attempts (cs_heap s))"
    and "0 < iov_cnt cfg" "iov_cnt cfg * 16 < 2 ^ 64"
    and "client_server_communication fuel api cfg worker ep typ is_server i s = Some (ret, s')"
  shows "shape (cs_heap s') = shape (cs_heap s) \<and> iovs s' = iovs s \<and> dom (ctxs s') = dom (ctxs s) \<and> cs_wf s'"
  using communication_no_leak[OF assms] by (simp add: no_leak_def)

lemma demo_state_ok: "cs_wf demo_state" "\<not> oom (cs_heap demo_state) a" "calm (cs_heap demo_state)"
  by (simp_all add: cs_wf_def cs_start_def calm_def) (simp_all add: empty_heap_def faulted_def)

lemma demo_message:
  "map_option fst (client_server_communication 1 instant_api (demo_config 2 2) 2 3 2 False 7 demo_state) = Some 0"
  by code_simp

theorem message_leaves_no_memory_witness:
  "\<exists>s'. client_server_communication 1 instant_api (demo_config 2 2) 2 3 2 False 7 demo_state = Some (0, s') \<and>
     shape (cs_heap s') = shape (cs_heap demo_state) \<and> iovs s' = iovs demo_state"
proof -
  from demo_message obtain s' where
    r: "client_server_communication 1 instant_api (demo_config 2 2) 2 3 2 False 7 demo_state = Some (0, s')"
    by auto
  from message_leaves_no_memory[OF demo_state_ok(1,2) _ _ r] show ?thesis
    using r by (simp add: demo_config_def)
qed

text \<open>
  (C3) The same over a whole run of \<open>main\<close>, as client or as server, with any number of messages and
  clients: when no allocation fails and the size of the descriptor array does not wrap, every state
  between two messages is well-formed and the run ends with the memory it started with.
\<close>

theorem main_leaves_no_memory:
  assumes "cs_main clients fuel api hc argv s = Some (ret, s')"
    and "cs_wf s" "\<forall>a. \<not> oom (cs_heap s) a"
    and "\<forall>cfg args. cs_parse_cmd hc argv = Inr (cfg, args) \<longrightarrow> iov_cnt cfg * 16 < 2 ^ 64"
  shows "shape (cs_heap s') = shape (cs_heap s) \<and> iovs s' = iovs s \<and> dom (ctxs s') = dom (ctxs s) \<and> cs_wf s'"
  using steady_main[OF assms(1)] assms(2-4) by (auto simp: steady_def has_room_def no_leak_def)

lemma refused_argv: "map_sum id (iov_cnt \<circ> fst) (cs_parse_cmd False [''p'', ''-c'', ''am'']) = Inr 1"
  by code_simp

theorem main_leaves_no_memory_witness:
  "\<exists>ret s'. cs_main 1 10 refusing_api False [''p'', ''-c'', ''am''] demo_state = Some (ret, s') \<and>
     shape (cs_heap s') = (\<lambda>_. None) \<and> iovs s' = (\<lambda>_. None) \<and> cs_wf s'"
proof -
  from refused_run obtain s' where
    r: "cs_main 1 10 refusing_api False [''p'', ''-c'', ''am''] demo_state = Some (-1, s')" by auto
  have "\<forall>cfg args. cs_parse_cmd False [''p'', ''-c'', ''am''] = Inr (cfg, args) \<longrightarrow> iov_cnt cfg * 16 < 2 ^ 64"
    using refused_argv by auto
  from main_leaves_no_memory[OF r demo_state_ok(1) _ this] demo_state_ok(2) r show ?thesis
    by (auto simp: cs_start_def empty_heap_def shape_def)
qed

section \<open>Contents of messages\<close>

text \<open>
  (C6) When memory is available, the client prepares a message without any undefined behaviour,
  and what it hands to UCP, in any mode and for any library, is one test string per buffer: the
  letters A to Z over and over, followed by one byte that is not initialised.
\<close>

theorem client_message_contents:
  assumes "type_ok (test_mem_type cfg) (have_cuda cfg)"
    and "0 < test_string_length cfg" "test_string_length cfg \<le> 2 ^ 31"
    and "0 < iov_cnt cfg" "iov_cnt cfg < 2 ^ 64"
    and "calm (cs_heap s)" "iovs s d = Some (replicate (n_iov cfg) null_iov)"
  shows "\<exists>msg msg_length param s1 cs.
     fill_request_param cfg (Some d) True ctx s = (Some (msg, msg_length, param), s1) \<and>
     \<not> faulted (cs_heap s1) \<and> length cs = n_iov cfg \<and> ctxs s1 ctx = Some False \<and>
     (\<forall>api op ep param'. \<exists>r s2 t. ucp_send_nbx api cfg op ep msg msg_length param' s1 = (r, s2) \<and>
        cs_trace s2 = cs_trace s1 @
          C_send op ep (concat (map (test_pattern (nat (test_string_length cfg))) cs)) r # t)"
  by (rule client_message_sent[OF assms])

theorem client_message_contents_witness:
  "\<exists>msg msg_length param s1 cs. fill_request_param (demo_config 27 2) (Some 0) True 1
       (demo_state\<lparr>iovs := (\<lambda>_. None)(0 \<mapsto> [null_iov, null_iov])\<rparr>) = (Some (msg, msg_length, param), s1) \<and>
     \<not> faulted (cs_heap s1) \<and> length cs = 2 \<and>
     (\<exists>r s2 t. ucp_send_nbx instant_api (demo_config 27 2) (Tag_send TAG) 3 msg msg_length param s1 = (r, s2) \<and>
        cs_trace s2 = cs_trace s1 @ C_send (Tag_send TAG) 3 (concat (map (test_pattern 27) cs)) r # t)"
proof -
  let ?s = "demo_state\<lparr>iovs := (\<lambda>_. None)(0 \<mapsto> [null_iov, null_iov])\<rparr>"
  have c: "calm (cs_heap ?s)" using demo_state_ok(3) by simp
  have n: "n_iov (demo_config 27 2) = 2" "test_string_length (demo_config 27 2) = 27"
    by (simp_all add: n_iov_def demo_config_def)
  have "iovs ?s 0 = Some (replicate (n_iov (demo_config 27 2)) null_iov)"
    unfolding n by (simp add: numeral_2_eq_2)
  from client_message_contents[OF _ _ _ _ _ c this, of 1]
  show ?thesis unfolding n by (fastforce simp: demo_config_def cs_defaults_def)
qed

text \<open>
  (C7) The receiving half of an exchange, in each of the three modes and whether the message comes at
  once, after some polling, or by rendezvous: when memory is available and the library delivers the
  client's test strings (the letters and one byte \<open>c\<close> that the client does not initialise), the receiver
  returns 0 after at most \<open>k + 1\<close> polls of each wait, without undefined behaviour, and in an iteration
  that prints it prints, once for every buffer, the first 16 characters of the letters followed by \<open>c\<close>
  if that is not 0. In such an iteration the strings have to be at least 16 bytes long, as by default,
  or end with a byte 0: \<open>print_iov\<close> reads past a shorter buffer that has no terminator.
\<close>

theorem received_message_is_printed:
  assumes "type_ok (test_mem_type cfg) (have_cuda cfg)"
    and "mode \<in> {CLIENT_SERVER_SEND_RECV_STREAM, CLIENT_SERVER_SEND_RECV_TAG, CLIENT_SERVER_SEND_RECV_AM}"
    and "0 < test_string_length cfg" "prints cfg i \<longrightarrow> 16 \<le> test_string_length cfg \<or> set cs \<subseteq> {0}"
    and "0 < iov_cnt cfg" "iov_cnt cfg * 16 < 2 ^ 64" "iov_cnt cfg * test_string_length cfg < 2 ^ 63"
    and "0 \<le> i" "i < 2 ^ 31 - 1" "- (2 ^ 31) < num_iterations cfg" "num_iterations cfg < 2 ^ 31"
    and "calm (cs_heap s)" "\<not> complete (am_data_desc s)"
    and "length cs = n_iov cfg" "k < fuel"
    and "message_arrives api worker ep k mode (concat (map (test_pattern (nat (test_string_length cfg))) cs)) (world s)"
  shows "\<exists>s'. client_server_communication fuel api cfg worker ep mode True i s = Some (0, s') \<and>
     \<not> faulted (cs_heap s') \<and> cs_out s' = cs_out s @ (if prints cfg i
       then Out_iteration True (i + 1) # map (shown (nat (test_string_length cfg))) cs else [])"
proof -
  let ?n = "nat (test_string_length cfg)"
  let ?bs = "concat (map (test_pattern ?n) cs)"
  have "1 * test_string_length cfg \<le> iov_cnt cfg * test_string_length cfg" using assms(3,5) by (intro mult_right_mono) simp_all
  from le_less_trans[OF this assms(7)] have "test_string_length cfg < 2 ^ 64" by simp
  then have n: "buf_len cfg = ?n" "0 < ?n" using assms(3) by (simp_all add: buf_len_def)
  have pc: "piece cfg ?bs j = test_pattern ?n (cs ! j)" if "j < n_iov cfg" for j
    using piece_concat[of "map (test_pattern ?n) cs" cfg j] that assms(14) n by simp
  then have p: "map (\<lambda>j. printed (piece cfg ?bs j)) [0..<n_iov cfg] = map (shown ?n) cs"
    using assms(14) by (intro nth_equalityI) (simp_all add: printed_test_pattern)
  have "0 \<in> set (piece cfg ?bs j)" if "set cs \<subseteq> {0}" "j < n_iov cfg" for j
  proof -
    from that(1) nth_mem[of j cs, unfolded assms(14), OF that(2)] have "cs ! j = 0" by blast
    with pc[OF that(2)] show ?thesis by (simp add: test_pattern_def)
  qed
  then have L: "prints cfg i \<longrightarrow> 16 \<le> test_string_length cfg \<or> (\<forall>j<n_iov cfg. 0 \<in> set (piece cfg ?bs j))"
    using assms(4) by blast
  have "length ?bs = n_iov cfg * buf_len cfg"
    using n assms(14) by (simp add: length_concat comp_def sum_list_triv)
  from communication_receives[OF assms(1) _ assms(3) L assms(5-13,16,15) this] assms(2) show ?thesis
    unfolding p by simp
qed

text \<open>A library that has the message at hand when the receive is posted.\<close>

definition delivering_api :: "byte list \<Rightarrow> loopback ucp_api" where
  "delivering_api bs = (loopback_api 1)\<lparr>api_recv := (\<lambda>op hnd ts param w. (Ptr_NULL, writes ts bs, w))\<rparr>"

theorem received_message_is_printed_witness:
  "\<exists>s'. client_server_communication 1 (delivering_api (test_pattern 16 7 @ test_pattern 16 0)) (demo_config 16 2) 2 3
       CLIENT_SERVER_SEND_RECV_TAG True 0 demo_state = Some (0, s') \<and>
     cs_out s' = [Out_iteration True 1, Out_message (map test_char [0..<15] @ [7]), Out_message (map test_char [0..<15])]"
proof -
  let ?c = "demo_config 16 2" and ?api = "delivering_api (test_pattern 16 7 @ test_pattern 16 0)"
  have n: "n_iov ?c = 2" "test_string_length ?c = 16" by (simp_all add: n_iov_def demo_config_def)
  have "message_arrives ?api 2 3 0 CLIENT_SERVER_SEND_RECV_TAG
      (concat (map (test_pattern (nat (test_string_length ?c))) [7, 0])) (world demo_state)"
    unfolding n by (simp add: message_arrives_def receive_completes_def delivering_api_def)
  from received_message_is_printed[OF _ _ _ _ _ _ _ _ _ _ _ demo_state_ok(3) _ _ _ this, of 0 1]
  have "\<exists>s'. client_server_communication 1 ?api ?c 2 3 CLIENT_SERVER_SEND_RECV_TAG True 0 demo_state = Some (0, s') \<and>
     \<not> faulted (cs_heap s') \<and> cs_out s' = cs_out demo_state @ (if prints ?c 0
       then Out_iteration True (0 + 1) # map (shown (nat (test_string_length ?c))) [7, 0] else [])"
    using n by (simp add: demo_config_def cs_defaults_def cs_start_def)
  then show ?thesis unfolding n by (auto simp: prints_def shown_def cs_start_def)
qed

text \<open>
  (C8) Both ends of an active message together, for one configuration: what the client hands to UCP
  is accepted by the callback of a server that waits for a message, and the server's buffers then hold
  the client's test strings, one per buffer, without undefined behaviour on either side.
\<close>

theorem active_message_arrives:
  assumes "type_ok (test_mem_type cfg) (have_cuda cfg)"
    and "0 < test_string_length cfg" "test_string_length cfg \<le> 2 ^ 31"
    and "0 < iov_cnt cfg" "iov_cnt cfg * test_string_length cfg < 2 ^ 63" "iov_cnt cfg < 2 ^ 64"
    and "calm (cs_heap c)" "iovs c d = Some (replicate (n_iov cfg) null_iov)"
    and "calm (cs_heap s)" "iovs s e = Some (replicate (n_iov cfg) null_iov)" "recv_buf (am_data_desc s) = Some e"
  shows "\<exists>msg len param c1 s1 cs. fill_request_param cfg (Some d) True ctx c = (Some (msg, len, param), c1) \<and>
     buffer_malloc cfg (Some e) s = (0, s1) \<and> length cs = n_iov cfg \<and>
     (\<forall>api ep param'. \<exists>bs r c2 t s2. ucp_send_nbx api cfg (Am_send TEST_AM_ID) ep msg len param' c1 = (r, c2) \<and>
        cs_trace c2 = cs_trace c1 @ C_send (Am_send TEST_AM_ID) ep bs r # t \<and>
        ucp_am_data_cb cfg 0 (Eager bs) (length bs) s1 = (UCS_OK, s2) \<and> complete (am_data_desc s2) \<and>
        \<not> faulted (cs_heap c1) \<and> \<not> faulted (cs_heap s2) \<and>
        read_targets (msg_targets (Msg_iov (Some e)) (n_iov cfg) s2) (cs_heap s2) =
          (concat (map (test_pattern (nat (test_string_length cfg))) cs), cs_heap s2))"
proof -
  from client_message_sent[OF assms(1-4,6-8), of ctx] obtain msg len param c1 cs where
    c: "fill_request_param cfg (Some d) True ctx c = (Some (msg, len, param), c1)" "\<not> faulted (cs_heap c1)" "length cs = n_iov cfg"
    and sd: "\<And>api op ep param'. \<exists>r s2 t. ucp_send_nbx api cfg op ep msg len param' c1 = (r, s2) \<and>
        cs_trace s2 = cs_trace c1 @ C_send op ep (concat (map (test_pattern (nat (test_string_length cfg))) cs)) r # t"
    by metis
  let ?bs = "concat (map (test_pattern (nat (test_string_length cfg))) cs)"
  have "length ?bs = n_iov cfg * nat (test_string_length cfg)"
    using assms(2) c(3) by (simp add: length_concat comp_def sum_list_triv)
  then have n: "int (length ?bs) = iov_cnt cfg * test_string_length cfg"
    using assms(2,4,6) by (simp add: n_iov_def)
  have "test_string_length cfg < 2 ^ 64" using assms(3) by simp
  from eager_message_scattered[OF assms(1,4) _ assms(5,6) this assms(9-11) n, of 0] assms(2)
  obtain s1 s2 where "buffer_malloc cfg (Some e) s = (0, s1)"
    "ucp_am_data_cb cfg 0 (Eager ?bs) (length ?bs) s1 = (UCS_OK, s2)" "complete (am_data_desc s2)" "\<not> faulted (cs_heap s2)"
    "read_targets (msg_targets (Msg_iov (Some e)) (n_iov cfg) s2) (cs_heap s2) = (?bs, cs_heap s2)" by auto
  with c sd show ?thesis by metis
qed

theorem active_message_arrives_witness:
  "\<exists>msg len param c1 s1 cs. fill_request_param (demo_config 5 2) (Some 0) True 1
       (demo_state\<lparr>iovs := (\<lambda>_. None)(0 \<mapsto> [null_iov, null_iov])\<rparr>) = (Some (msg, len, param), c1) \<and>
     buffer_malloc (demo_config 5 2) (Some 0) (demo_state\<lparr>iovs := (\<lambda>_. None)(0 \<mapsto> [null_iov, null_iov]),
       am_data_desc := (am_data_desc demo_state)\<lparr>recv_buf := Some 0\<rparr>\<rparr>) = (0, s1) \<and>
     (\<exists>bs r c2 t s2. ucp_send_nbx instant_api (demo_config 5 2) (Am_send TEST_AM_ID) 3 msg len param c1 = (r, c2) \<and>
        cs_trace c2 = cs_trace c1 @ C_send (Am_send TEST_AM_ID) 3 bs r # t \<and>
        ucp_am_data_cb (demo_config 5 2) 0 (Eager bs) (length bs) s1 = (UCS_OK, s2) \<and>
        read_targets (msg_targets (Msg_iov (Some 0)) 2 s2) (cs_heap s2) =
          (concat (map (test_pattern 5) cs), cs_heap s2))"
proof -
  let ?c = "demo_state\<lparr>iovs := (\<lambda>_. None)(0 \<mapsto> [null_iov, null_iov])\<rparr>"
  let ?s = "?c\<lparr>am_data_desc := (am_data_desc demo_state)\<lparr>recv_buf := Some 0\<rparr>\<rparr>"
  let ?g = "demo_config 5 2"
  have n: "n_iov ?g = 2" "test_string_length ?g = 5" by (simp_all add: n_iov_def demo_config_def)
  have "calm (cs_heap ?c)" "iovs ?c 0 = Some (replicate (n_iov ?g) null_iov)"
    "calm (cs_heap ?s)" "iovs ?s 0 = Some (replicate (n_iov ?g) null_iov)" "recv_buf (am_data_desc ?s) = Some 0"
    using demo_state_ok(3) unfolding n by (simp_all add: numeral_2_eq_2)
  moreover have "type_ok (test_mem_type ?g) (have_cuda ?g)" "0 < test_string_length ?g" "test_string_length ?g \<le> 2 ^ 31"
    "0 < iov_cnt ?g" "iov_cnt ?g * test_string_length ?g < 2 ^ 63" "iov_cnt ?g < 2 ^ 64"
    by (simp_all add: demo_config_def cs_defaults_def)
  ultimately have a: "\<exists>msg len param c1 s1 cs. fill_request_param ?g (Some 0) True 1 ?c = (Some (msg, len, param), c1) \<and>
     buffer_malloc ?g (Some 0) ?s = (0, s1) \<and> length cs = n_iov ?g \<and>
     (\<forall>(api :: loopback ucp_api) ep param'. \<exists>bs r c2 t s2. ucp_send_nbx api ?g (Am_send TEST_AM_ID) ep msg len param' c1 = (r, c2) \<and>
        cs_trace c2 = cs_trace c1 @ C_send (Am_send TEST_AM_ID) ep bs r # t \<and>
        ucp_am_data_cb ?g 0 (Eager bs) (length bs) s1 = (UCS_OK, s2) \<and> complete (am_data_desc s2) \<and>
        \<not> faulted (cs_heap c1) \<and> \<not> faulted (cs_heap s2) \<and>
        read_targets (msg_targets (Msg_iov (Some 0)) (n_iov ?g) s2) (cs_heap s2) =
          (concat (map (test_pattern (nat (test_string_length ?g))) cs), cs_heap s2))"
    by (intro active_message_arrives)
  have "nat 5 = 5" by simp
  from a show ?thesis unfolding n \<open>nat 5 = 5\<close>
    apply (elim exE conjE)
    subgoal premises p for msg len param c1 s1 cs
      using p(4)[THEN spec, of instant_api, THEN spec, of 3, THEN spec, of param]
      by (elim exE conjE) (intro exI conjI, rule p(1), rule p(2), assumption+)
    done
qed

section \<open>Ordering\<close>

text \<open>
  (C9) A session of \<open>client_server_do_work\<close> that succeeds makes exactly \<open>num_iterations\<close> sends
  as the client (or one, the final message, as the server), all on the endpoint of the session and
  with the operation of the mode. In stream and tag mode the transfers are, in order, all the
  messages in one direction and then one in the other. The server returns only after the peer
  has disconnected.
\<close>

theorem session_messages:
  assumes "typ \<in> {1, 2, 4}"
    and "client_server_do_work fuel api cfg worker ep typ is_server s = Some (0, s')"
  shows "sent_ops s' = sent_ops s @
      replicate (if is_server then 1 else nat (num_iterations cfg)) (send_op_of typ, ep) \<and>
    (typ \<noteq> 4 \<longrightarrow> messages s' = messages s @
      replicate (nat (num_iterations cfg)) (\<not> is_server, if is_server \<and> typ = 2 then worker else ep) @
      [(is_server, if \<not> is_server \<and> typ = 2 then worker else ep)]) \<and>
    (is_server \<longrightarrow> connection_closed s')"
proof -
  let ?s = "s\<lparr>connection_closed := False\<rparr>"
  have eq: "messages ?s = messages s" "sent_ops ?s = sent_ops s" by (simp_all add: messages_def sent_ops_def)
  obtain j s1 s2 s3 where
    it: "do_iterations fuel api cfg worker ep typ is_server (nat (num_iterations cfg)) 0 ?s = Some (0, j, s1)" and
    m1: "mute s1 s2" and
    co: "client_server_communication fuel api cfg worker ep typ (\<not> is_server) (j + 1) s2 = Some (0, s3)" and
    m2: "mute s3 s'" and cl: "is_server \<longrightarrow> connection_closed s'"
    by (rule do_work_stages[OF assms(2)])
  note a = do_iterations_messages[OF assms(1) it] and b = communication_messages[OF assms(1) co]
  show ?thesis using a b m1 m2 eq cl by (simp add: mute_def)
qed

lemma demo_session:
  "map_option fst (client_server_do_work 3 instant_api (demo_config 1 1) 2 3 2 True demo_state) = Some 0"
  by code_simp

theorem session_messages_witness:
  "\<exists>s'. client_server_do_work 3 instant_api (demo_config 1 1) 2 3 2 True demo_state = Some (0, s') \<and>
     sent_ops s' = [(Tag_send TAG, 3)] \<and> messages s' = [(True, 3)] \<and> connection_closed s'"
proof -
  from demo_session obtain s' where
    r: "client_server_do_work 3 instant_api (demo_config 1 1) 2 3 2 True demo_state = Some (0, s')" by auto
  note q = session_messages[OF _ r]
  have "sent_ops demo_state = []" "messages demo_state = []" "num_iterations (demo_config 1 1) = 0"
    by (simp_all add: sent_ops_def messages_def cs_start_def List.map_filter_def demo_config_def)
  with q r show ?thesis by (simp add: send_op_of_def)
qed

text \<open>
  (C10) Connection requests: whatever else happens in a round of progress, a pending request is never
  replaced; if none is pending the first to arrive becomes pending; every other request is
  rejected, in the order of arrival, and no request is lost.
\<close>

theorem one_client_at_a_time:
  "conn_request (srv_ctx (dispatch_all api cfg evs s)) =
     (case conn_request (srv_ctx s) of
        Some p \<Rightarrow> Some p | None \<Rightarrow> (case requests evs of [] \<Rightarrow> None | r # _ \<Rightarrow> Some r)) \<and>
   rejected (dispatch_all api cfg evs s) =
     rejected s @ (if conn_request (srv_ctx s) = None then tl (requests evs) else requests evs)"
  by (rule dispatch_requests)

text \<open>
  (C4) The loop of \<open>run_server\<close> implements the state machine \<open>srv_step\<close>: for any behaviour of the
  library, the calls of any number of turns are a run of the machine from its idle state. So at
  most one client is served at a time, data moves only while it is served (sent on its endpoint, received
  from it or, in tag and active-message mode, from the data worker), the endpoint is closed before the
  next client is accepted, and only requests that arrive while another one is held are rejected.
  After a turn that succeeds the machine is idle again; an error ends the loop with the result of
  \<open>serve_clients\<close>, after the endpoint was closed if there was one.
\<close>

theorem server_refines_automaton:
  assumes "serve_turns k fuel api cfg worker dw typ s = Some (exit, s')" "conn_request (srv_ctx s) = None"
  shows "\<exists>t st. cs_trace s' = cs_trace s @ t \<and> srv_run typ dw (listener (srv_ctx s)) Idle t st \<and>
     conn_request (srv_ctx s') = held_request st \<and>
     (case exit of
        None \<Rightarrow> st = Idle
      | Some ret \<Rightarrow> (\<exists>r. st \<in> {Pending r, Dropping r, Closed r}) \<and>
          serve_clients k fuel api cfg worker dw typ s = Some (ret, s'))"
proof -
  have "sim (listener (srv_ctx s)) Idle s" using assms(2) by (simp add: sim_def)
  from serve_turns_follow[OF assms(1) this] serve_clients_turns[of k fuel api cfg worker dw "typ" s] assms(1)
  show ?thesis by (cases exit) (auto simp: follows_def sim_def)
qed

lemma demo_turn_trace:
  "map_option (map_prod id cs_trace) (serve_turns 1 3 (loopback_api 1) (demo_config 1 1) 1 2 2 demo_state) =
     Some (None, [C_ep_create 2 3, C_send (Tag_send TAG) 3 [0] (Ptr_REQ 7), C_request_free 7, C_ep_close 3,
                  C_close_request 8, C_request_free 8])"
  by code_simp

theorem server_refines_automaton_witness:
  "\<exists>s' t. serve_turns 1 3 (loopback_api 1) (demo_config 1 1) 1 2 2 demo_state = Some (None, s') \<and>
     srv_run 2 2 0 Idle [C_ep_create 2 3, C_send (Tag_send TAG) 3 [0] (Ptr_REQ 7), C_request_free 7, C_ep_close 3,
                  C_close_request 8, C_request_free 8] Idle"
proof -
  from demo_turn_trace obtain s' where
    r: "serve_turns 1 3 (loopback_api 1) (demo_config 1 1) 1 2 2 demo_state = Some (None, s')"
    and t: "cs_trace s' = [C_ep_create 2 3, C_send (Tag_send TAG) 3 [0] (Ptr_REQ 7), C_request_free 7, C_ep_close 3,
                  C_close_request 8, C_request_free 8]"
    by (auto simp: map_prod_def split: prod.splits)
  from server_refines_automaton[OF r] r t show ?thesis by (auto simp: cs_start_def)
qed

text \<open>
  (C5) The calls of the server over \<open>k\<close> clients in a given mode: an endpoint is created only while none is
  open and only on the data worker, the endpoint that is closed is the open one, every send is on the
  open endpoint with the operation of the mode, and every receive is made while an endpoint is open, with
  the operation of the mode, on that endpoint in stream mode and on the data worker in tag and
  active-message mode. When all \<open>k\<close> clients were served, exactly \<open>k\<close> endpoints were created and the same
  \<open>k\<close> were closed, in the same order.
\<close>

theorem server_endpoint_discipline:
  assumes "serve_turns k fuel api cfg worker dw typ s = Some (exit, s')" "conn_request (srv_ctx s) = None"
    and "cs_trace s' = cs_trace s @ t"
  shows "(\<forall>u c v. t = u @ c # v \<longrightarrow> ep_legal typ dw (fold ep_next u None) c) \<and>
     (exit = None \<longrightarrow> length (created t) = k \<and> closed t = created t)"
proof -
  have "sim (listener (srv_ctx s)) Idle s" using assms(2) by (simp add: sim_def)
  from serve_turns_follow[OF assms(1) this] assms(3) obtain st where
    r: "srv_run typ dw (listener (srv_ctx s)) Idle t st" and st: "exit = None \<longrightarrow> st = Idle"
    by (auto simp: follows_def split: if_splits)
  have "length (created t) = k" if "exit = None" using serve_turns_created[OF assms(1)[unfolded that]] assms(3) by simp
  then show ?thesis using run_legal[OF r] run_closes[OF r] st by auto
qed

theorem server_endpoint_discipline_witness:
  "\<exists>s' t. serve_turns 1 3 (loopback_api 1) (demo_config 1 1) 1 2 2 demo_state = Some (None, s') \<and>
     cs_trace s' = t \<and> ep_legal 2 2 (fold ep_next (take 3 t) None) (t ! 3) \<and> t ! 3 = C_ep_close 3 \<and>
     length (created t) = 1 \<and> closed t = created t"
proof -
  let ?t = "[C_ep_create 2 3, C_send (Tag_send TAG) 3 [0] (Ptr_REQ 7), C_request_free 7, C_ep_close 3,
                  C_close_request 8, C_request_free 8]"
  from demo_turn_trace obtain s' where
    r: "serve_turns 1 3 (loopback_api 1) (demo_config 1 1) 1 2 2 demo_state = Some (None, s')"
    and t: "cs_trace s' = ?t"
    by (auto simp: map_prod_def split: prod.splits)
  have a: "conn_request (srv_ctx demo_state) = None" "cs_trace s' = cs_trace demo_state @ ?t"
    using t by (simp_all add: cs_start_def)
  have "?t = take 3 ?t @ ?t ! 3 # drop 4 ?t" by simp
  with server_endpoint_discipline[OF r a] have "ep_legal 2 2 (fold ep_next (take 3 ?t) None) (?t ! 3)"
    "length (created ?t) = 1" "closed ?t = created ?t" by blast+
  with r t show ?thesis by (intro exI[of _ s'] exI[of _ ?t]) simp
qed

section \<open>Waiting\<close>

text \<open>
  (C11) \<open>request_wait\<close> returns as soon as the completion callback of its request has run: if that
  happens within \<open>k\<close> rounds of progress, \<open>k\<close> rounds of fuel are enough, the status is the one
  the library reports at that moment, and the request is released exactly once, after it.
\<close>

theorem request_wait_terminates:
  assumes "ctx_complete ctx ((ucp_worker_progress api cfg worker ^^ k) s)" "k \<le> fuel"
  shows "\<exists>j u s'. j \<le> k \<and> u = (ucp_worker_progress api cfg worker ^^ j) s \<and> ctx_complete ctx u \<and>
     request_wait fuel api cfg worker (Ptr_REQ r) ctx s = Some (fst (api_check_status api r (world u)), s') \<and>
     cs_trace s' = cs_trace u @ [C_request_free r]"
  by (rule request_wait_returns[OF assms])

theorem request_wait_terminates_witness:
  "\<exists>j u s'. j \<le> 1 \<and>
     u = (ucp_worker_progress (loopback_api 1) (demo_config 1 1) 2 ^^ j)
           (demo_state\<lparr>ctxs := (\<lambda>_. None)(0 \<mapsto> False), world := \<lparr>lb_pending = [(Cb_send, 0)], lb_connects = 0\<rparr>\<rparr>) \<and>
     request_wait 4 (loopback_api 1) (demo_config 1 1) 2 (Ptr_REQ 7) 0
       (demo_state\<lparr>ctxs := (\<lambda>_. None)(0 \<mapsto> False), world := \<lparr>lb_pending = [(Cb_send, 0)], lb_connects = 0\<rparr>\<rparr>) =
       Some (UCS_OK, s') \<and> cs_trace s' = cs_trace u @ [C_request_free 7]"
proof -
  let ?s = "demo_state\<lparr>ctxs := (\<lambda>_. None)(0 \<mapsto> False), world := \<lparr>lb_pending = [(Cb_send, 0)], lb_connects = 0\<rparr>\<rparr>"
  have "ctx_complete 0 ((ucp_worker_progress (loopback_api 1) (demo_config 1 1) 2 ^^ 1) ?s)"
    by (simp add: ucp_worker_progress_def loopback_api_def dispatch_all_def send_cb_def common_cb_def
        ctx_complete_def)
  from request_wait_terminates[OF this, of 4 7] show ?thesis by (fastforce simp: loopback_api_def)
qed

end
