(* ===== verification/Config_Properties.thy ===== *)
theory Config_Properties
  imports Cs_Config
begin

text \<open>
  Properties of the shared helpers (\<open>hello_world_util.h\<close>) and of the settings of
  \<open>ucp_client_server.c\<close>: test strings, command line, addresses.
\<close>

section \<open>Test strings\<close>

text \<open>
  \<open>generate_test_string\<close> of the client-server program writes the pattern A to Z over and
  over into the \<open>n\<close> bytes of the destination, except for the last byte, which is copied from a
  temporary that was never initialised there. The temporary is released, and nothing else changes.
\<close>

lemma generated_string:
  assumes "heap_wf h" "\<not> oom h (attempts h)" "0 < n" "n \<le> 2 ^ 31" "type_ok tmt hc"
    and "blocks h b = Some k" "reach_of tmt (b_kind k)" "off + n \<le> length (b_bytes k)"
  shows "\<exists>h'. generate_test_string hc tmt (Addr b off) n h = (0, h') \<and> fault h' = fault h \<and>
     peek (Addr b off) n h' = map test_char [0..<n - 1] @ [junk h (next_blk h) (n - 1)] \<and>
     shape h' = shape h \<and> (\<forall>c. c \<noteq> b \<longrightarrow> blocks h' c = blocks h c)"
proof -
  let ?h = "with_string b off (test_pattern n (junk h (next_blk h) (n - 1))) k h"
  note g = generate_test_string_ok[OF assms]
  have "peek (Addr b off) n ?h = test_pattern n (junk h (next_blk h) (n - 1))"
    using assms(3,8) splice_same[of off "test_pattern n (junk h (next_blk h) (n - 1))" "b_bytes k"]
    by (simp add: with_string_def peek_def)
  moreover have "shape ?h = shape h"
    using assms(3,6,8) by (auto simp: with_string_def shape_def fun_eq_iff)
  ultimately show ?thesis using g by (simp add: with_string_def test_pattern_def)
qed

definition demo_block :: heap where
  "demo_block = grown MHost (replicate 30 0) (empty_heap (\<lambda>_. False) (\<lambda>b i. 7))"

text \<open>
  (C12) The three versions of \<open>generate_test_string\<close> agree: those of the UCT and of the tag-matching
  program leave the same memory, and that of the client-server program differs from them at most in
  the last byte of the string, which it takes from uninitialised memory. It gives the same memory
  exactly when that byte happens to be 0.
\<close>

theorem test_strings_agree:
  assumes "heap_wf h" "\<not> oom h (attempts h)" "0 < n" "n < 2 ^ 31" "type_ok tmt hc"
    and "blocks h b = Some k" "reach_of tmt (b_kind k)" "off + n \<le> length (b_bytes k)"
  shows "uct_generate_test_string hc tmt (Addr b off) (int n) h = ucp_generate_test_string (Addr b off) (int n) h \<and>
     (\<exists>h1 h2. generate_test_string hc tmt (Addr b off) n h = (0, h1) \<and>
        uct_generate_test_string hc tmt (Addr b off) (int n) h = (0, h2) \<and>
        take (n - 1) (peek (Addr b off) n h1) = take (n - 1) (peek (Addr b off) n h2) \<and>
        (\<forall>c. c \<noteq> b \<longrightarrow> blocks h1 c = blocks h2 c) \<and>
        (h1 = h2 \<longleftrightarrow> junk h (next_blk h) (n - 1) = 0))"
proof -
  let ?w = "\<lambda>x. with_string b off (test_pattern n x) k h"
  have p: "peek (Addr b off) n (?w x) = test_pattern n x" for x
    using assms(3,8) splice_same[of off "test_pattern n x" "b_bytes k"] by (simp add: with_string_def peek_def)
  have "?w x = ?w y \<longleftrightarrow> x = y" for x y
    by (metis p append1_eq_conv test_pattern_def)
  moreover have "blocks (?w x) c = blocks (?w y) c" if "c \<noteq> b" for x y c using that by (simp add: with_string_def)
  moreover have "take (n - 1) (test_pattern n x) = take (n - 1) (test_pattern n y)" for x y by (simp add: test_pattern_def)
  ultimately show ?thesis
    using generate_test_string_ok[OF assms(1-3) _ assms(5-8)] uct_generate_test_string_ok[OF assms]
      ucp_generate_test_string_ok[OF assms(1-4,6,8)] assms(4) p by simp
qed

theorem test_strings_agree_witness:
  "uct_generate_test_string False UCS_MEMORY_TYPE_HOST (Addr 1 2) (int 28) demo_block =
     ucp_generate_test_string (Addr 1 2) (int 28) demo_block \<and>
   generate_test_string False UCS_MEMORY_TYPE_HOST (Addr 1 2) 28 demo_block \<noteq>
     uct_generate_test_string False UCS_MEMORY_TYPE_HOST (Addr 1 2) (int 28) demo_block"
proof -
  have "heap_wf demo_block" "blocks demo_block 1 = Some \<lparr>b_kind = MHost, b_bytes = replicate 30 0\<rparr>"
    "\<not> oom demo_block (attempts demo_block)" "junk demo_block b i = 7" for b i
    by (simp_all add: demo_block_def) (simp_all add: empty_heap_def)
  with test_strings_agree[of demo_block 28 UCS_MEMORY_TYPE_HOST False 1 "\<lparr>b_kind = MHost, b_bytes = replicate 30 0\<rparr>" 2]
  show ?thesis by auto
qed

text \<open>
  (C14) The command line accepts a test string length of 0, and then \<open>generate_test_string\<close> is
  undefined: the bound \<open>size - 1\<close> wraps to the largest \<open>size_t\<close>, and the loop writes past the
  end of the empty temporary.
\<close>

theorem empty_string_out_of_bounds:
  assumes "\<not> oom h (attempts h)"
  shows "cs_parse_opt (CHR ''s'') ''0'' (cfg, args) = Inr (cfg\<lparr>test_string_length := 0\<rparr>, args) \<and>
     faulted (snd (generate_test_string hc tmt str 0 h))"
proof -
  let ?g = "grown MHost (junk_bytes 0 h) h"
  have "faulted (fill_pattern (size_t (int 0 - 1)) 0 (Addr (next_blk h) 0) ?g)"
    by (rule fill_pattern_zero[where k = "\<lparr>b_kind = MHost, b_bytes = []\<rparr>"])
       (simp_all add: junk_bytes_def size_t_def)
  then have "faulted (snd (generate_test_string hc tmt str 0 h))"
    using assms by (simp add: generate_test_string_def c_malloc_cases Let_def mem_type_memcpy_def
      split: ucs_memory_type.splits)
  moreover have "atol ''0'' = 0" by code_simp
  then have "cs_parse_opt (CHR ''s'') ''0'' (cfg, args) = Inr (cfg\<lparr>test_string_length := 0\<rparr>, args)"
    by (simp add: cs_parse_opt_def Let_def)
  ultimately show ?thesis by blast
qed

theorem empty_string_out_of_bounds_witness:
  "faulted (snd (generate_test_string False UCS_MEMORY_TYPE_HOST (Addr 1 0) 0 demo_block))"
  using empty_string_out_of_bounds[of demo_block] by (simp add: demo_block_def empty_heap_def)

section \<open>The command line\<close>




text \<open>
  The option \<open>-p\<close> of the client-server program is accepted exactly when the number is a
  16-bit port, and the port is then that number.
\<close>

lemma port_option:
  "(case cs_parse_opt (CHR ''p'') a (cfg, args) of
      Inl ret \<Rightarrow> ret = -1 \<and> \<not> (0 \<le> atoi a \<and> atoi a < 2 ^ 16)
    | Inr (cfg', args') \<Rightarrow> 0 \<le> atoi a \<and> atoi a < 2 ^ 16 \<and> uint (server_port cfg') = atoi a \<and> args' = args)"
  by (auto simp: cs_parse_opt_def Let_def uint_word_of_int)

section \<open>Addresses\<close>

text \<open>
  The port survives the trip through the socket address and back to text: the string that
  \<open>sockaddr_get_port_str\<close> makes of an address built by \<open>set_sock_addr\<close> fits its 8-byte buffer and
  reads back as the port of the settings.
\<close>

lemma port_text_roundtrip:
  assumes "ai_family cfg \<noteq> AF_UNSPEC"
  shows "strtol (sockaddr_get_port_str (set_sock_addr pton cfg a) 8) = uint (server_port cfg) \<and>
     length (sockaddr_get_port_str (set_sock_addr pton cfg a) 8) < 8"
proof -
  let ?n = "unat (server_port cfg)"
  have b: "?n < 2 ^ 16" using unsigned_less[of "server_port cfg"] by simp
  then have l: "length (show_nat ?n) \<le> 5" using length_show_nat[of ?n 4] by simp
  have e: "sockaddr_get_port_str (set_sock_addr pton cfg a) 8 = show_nat ?n"
    using assms l by (cases "ai_family cfg")
      (simp_all add: set_sock_addr_def sockaddr_get_port_str_def snprintf_str_def Let_def)
  show ?thesis unfolding e using strtol_show_nat[of ?n] b l by simp
qed

text \<open>
  An address that \<open>inet_pton\<close> refuses is not an error: the client then connects to, and
  the server listens on, the wildcard address, as if no address had been given.
\<close>

lemma refused_address_is_wildcard:
  assumes "pton (ai_family cfg) a = None"
  shows "set_sock_addr pton cfg (Some a) = set_sock_addr pton cfg None \<and>
     ss_addr (set_sock_addr pton cfg (Some a)) = replicate (addr_len (ai_family cfg)) 0"
  using assms by (cases "ai_family cfg") (simp_all add: set_sock_addr_def Let_def)

end
