(* ===== verification/Byte_Codec.thy ===== *)
theory Byte_Codec
  imports Ucx_Prelude
begin

text \<open>
  Fixed-width integers and length-prefixed blobs as bytes in little-endian order (the native order
  of the platforms the programs run on), and the interface every wire format of the programs
  implements: an encoder, a decoder that consumes a prefix, and the round trip between them.
\<close>

section \<open>Little-endian integers\<close>

fun le_bytes :: "nat \<Rightarrow> nat \<Rightarrow> byte list" where
  "le_bytes 0 x = []"
| "le_bytes (Suc n) x = of_nat (x mod 256) # le_bytes n (x div 256)"

fun of_le :: "byte list \<Rightarrow> nat" where
  "of_le [] = 0"
| "of_le (b # bs) = unat b + 256 * of_le bs"

text \<open>The same on integers, for evaluation.\<close>

fun le_bytes_int :: "nat \<Rightarrow> int \<Rightarrow> byte list" where
  "le_bytes_int 0 x = []"
| "le_bytes_int (Suc n) x = word_of_int (x mod 256) # le_bytes_int n (x div 256)"

fun of_le_int :: "byte list \<Rightarrow> int" where
  "of_le_int [] = 0"
| "of_le_int (b # bs) = uint b + 256 * of_le_int bs"

lemma le_bytes_code [code]: "le_bytes n x = le_bytes_int n (int x)"
proof (induction n arbitrary: x)
  case (Suc n)
  have "int x mod 256 = int (x mod 256)" "int x div 256 = int (x div 256)"
    by (simp_all add: zmod_int zdiv_int)
  with Suc.IH[of "x div 256"] show ?case by (simp only: le_bytes.simps le_bytes_int.simps of_int_of_nat_eq)
qed simp

lemma of_le_int_eq: "of_le_int bs = int (of_le bs)"
  by (induction bs) simp_all

lemma of_le_code [code]: "of_le bs = nat (of_le_int bs)"
  by (simp add: of_le_int_eq)

lemma length_le_bytes [simp]: "length (le_bytes n x) = n"
  by (induction n arbitrary: x) auto

lemma unat_byte_mod [simp]: "unat (of_nat (x mod 256) :: byte) = x mod 256"
  by (simp add: unat_of_nat)

lemma of_le_le_bytes: "of_le (le_bytes n x) = x mod 256 ^ n"
proof (induction n arbitrary: x)
  case (Suc n)
  have "of_le (le_bytes (Suc n) x) = x mod 256 + 256 * (x div 256 mod 256 ^ n)"
    by (simp add: Suc.IH)
  also have "\<dots> = x mod (256 * 256 ^ n)" by (simp add: mod_mult2_eq)
  finally show ?case by simp
qed simp

lemma of_le_bound: "of_le bs < 256 ^ length bs"
proof (induction bs)
  case (Cons b bs)
  have "unat b < 256" using unsigned_less[of b] by simp
  with Cons show ?case by simp
qed simp

lemma le_bytes_of_le: "le_bytes (length bs) (of_le bs) = bs"
proof (induction bs)
  case (Cons b bs)
  have "unat b < 256" using unsigned_less[of b] by simp
  with Cons show ?case by simp
qed simp

section \<open>The interface\<close>

type_synonym 'a decoder = "byte list \<Rightarrow> ('a \<times> byte list) option"

locale codec =
  fixes enc :: "'a \<Rightarrow> byte list" and dec :: "'a decoder" and ok :: "'a \<Rightarrow> bool"
  assumes dec_enc: "ok x \<Longrightarrow> dec (enc x @ r) = Some (x, r)"
begin

lemma dec_exact: "ok x \<Longrightarrow> dec (enc x) = Some (x, [])"
  using dec_enc[of x "[]"] by simp

lemma prefix_free: "ok x \<Longrightarrow> ok y \<Longrightarrow> enc x @ r = enc y @ r' \<Longrightarrow> x = y \<and> r = r'"
  by (metis dec_enc option.inject prod.inject)

lemma enc_inj: "ok x \<Longrightarrow> ok y \<Longrightarrow> enc x = enc y \<Longrightarrow> x = y"
  by (metis dec_exact option.inject prod.inject)

text \<open>A sequence of messages on one stream is read back one by one.\<close>

fun dec_many :: "nat \<Rightarrow> byte list \<Rightarrow> ('a list \<times> byte list) option" where
  "dec_many 0 bs = Some ([], bs)"
| "dec_many (Suc n) bs =
     (case dec bs of None \<Rightarrow> None
      | Some (x, r) \<Rightarrow> map_option (\<lambda>(xs, r). (x # xs, r)) (dec_many n r))"

lemma dec_many_enc: "list_all ok xs \<Longrightarrow> dec_many (length xs) (concat (map enc xs) @ r) = Some (xs, r)"
  by (induction xs) (auto simp: dec_enc)

end

text \<open>Two formats one after the other.\<close>

definition enc_pair :: "('a \<Rightarrow> byte list) \<Rightarrow> ('b \<Rightarrow> byte list) \<Rightarrow> 'a \<times> 'b \<Rightarrow> byte list" where
  "enc_pair f g p = f (fst p) @ g (snd p)"

definition dec_pair :: "'a decoder \<Rightarrow> 'b decoder \<Rightarrow> ('a \<times> 'b) decoder" where
  "dec_pair f g bs = do { (x, bs) \<leftarrow> f bs; (y, bs) \<leftarrow> g bs; Some ((x, y), bs) }"

locale codec_pair = a: codec enc_a dec_a ok_a + b: codec enc_b dec_b ok_b
  for enc_a :: "'a \<Rightarrow> byte list" and dec_a ok_a and enc_b :: "'b \<Rightarrow> byte list" and dec_b ok_b
begin

lemma pair_dec_enc:
  "ok_a (fst p) \<and> ok_b (snd p) \<Longrightarrow> dec_pair dec_a dec_b (enc_pair enc_a enc_b p @ r) = Some (p, r)"
  by (simp add: enc_pair_def dec_pair_def a.dec_enc b.dec_enc)

end

sublocale codec_pair \<subseteq> ab: codec "enc_pair enc_a enc_b" "dec_pair dec_a dec_b" "\<lambda>p. ok_a (fst p) \<and> ok_b (snd p)"
  by unfold_locales (rule pair_dec_enc)

section \<open>Words and blobs\<close>

definition dec_le :: "nat \<Rightarrow> nat decoder" where
  "dec_le n bs = (if n \<le> length bs then Some (of_le (take n bs), drop n bs) else None)"

definition dec_take :: "nat \<Rightarrow> byte list decoder" where
  "dec_take n bs = (if n \<le> length bs then Some (take n bs, drop n bs) else None)"

definition enc_u64 :: "u64 \<Rightarrow> byte list" where
  "enc_u64 x = le_bytes 8 (unat x)"

definition dec_u64 :: "u64 decoder" where
  "dec_u64 bs = map_option (\<lambda>(n, r). (of_nat n, r)) (dec_le 8 bs)"

text \<open>A blob is prefixed by its length, which has the given number of bytes.\<close>

definition enc_blob :: "nat \<Rightarrow> byte list \<Rightarrow> byte list" where
  "enc_blob n bs = le_bytes n (length bs) @ bs"

definition dec_blob :: "nat \<Rightarrow> byte list decoder" where
  "dec_blob n bs = do { (len, bs) \<leftarrow> dec_le n bs; dec_take len bs }"

interpretation u64c: codec enc_u64 dec_u64 "\<lambda>_. True"
proof
  fix x :: u64 and r
  have "unat x < 2 ^ LENGTH(64)" by (rule unsigned_less)
  then have "of_le (le_bytes 8 (unat x)) = unat x" by (simp add: of_le_le_bytes)
  then show "dec_u64 (enc_u64 x @ r) = Some (x, r)"
    by (simp add: dec_u64_def enc_u64_def dec_le_def)
qed

interpretation blobc: codec "enc_blob n" "dec_blob n" "\<lambda>bs. length bs < 256 ^ n" for n
proof
  fix bs r :: "byte list" assume "length bs < 256 ^ n"
  then show "dec_blob n (enc_blob n bs @ r) = Some (bs, r)"
    by (simp add: dec_blob_def enc_blob_def dec_le_def dec_take_def of_le_le_bytes)
qed

end
