(* ===== verification/Rma_Wire.thy ===== *)
theory Rma_Wire
  imports Byte_Codec C_Lib
begin

text \<open>
  \<open>04_ucp_rma_client_server/ucx_util.cpp\<close>: the TCP helpers and the handshake. The socket layer
  and UCP are the record \<open>rma_api\<close> of functions over their own state \<open>'w\<close>. An exception is
  \<open>Inl\<close> of its message. Every call that acquires or releases something is appended to
  \<open>r_trace\<close>.
\<close>

section \<open>Interfaces and state\<close>

datatype rma_call = M_socket int | M_close int | M_config_read | M_config_release
  | M_init nat | M_cleanup nat | M_worker_create nat | M_worker_destroy nat
  | M_query_address nat | M_release_address nat | M_mem_map nat u64 nat nat | M_mem_unmap nat nat
  | M_rkey_pack nat | M_rkey_buffer_release nat | M_ep_create nat "byte list" nat | M_ep_destroy nat
  | M_rkey_unpack nat "byte list" nat | M_rkey_destroy nat | M_put nat u64 "byte list" u64 nat nat ucs_ptr
  | M_get nat u64 nat u64 nat nat ucs_ptr | M_flush nat nat ucs_ptr | M_request_free nat

datatype rma_out = Out_done bool "byte list" | Out_listening u16 | Out_handshake_sent nat
  | Out_head "byte list" | Out_usage | Out_error string

record 'w rma =
  r_trace :: "rma_call list"
  r_lbuf :: "byte list"
  r_out :: "rma_out list"
  r_world :: 'w

record 'w rma_api =
  sys_socket :: "'w \<Rightarrow> int \<times> 'w"
  sys_setsockopt :: "int \<Rightarrow> 'w \<Rightarrow> int \<times> 'w"
  sys_bind :: "int \<Rightarrow> u16 \<Rightarrow> 'w \<Rightarrow> int \<times> 'w"
  sys_listen :: "int \<Rightarrow> nat \<Rightarrow> 'w \<Rightarrow> int \<times> 'w"
  sys_poll :: "int \<Rightarrow> 'w \<Rightarrow> int \<times> bool \<times> 'w"
  sys_accept :: "int \<Rightarrow> 'w \<Rightarrow> int \<times> 'w"
  sys_connect :: "int \<Rightarrow> byte list \<Rightarrow> u16 \<Rightarrow> 'w \<Rightarrow> int \<times> 'w"
  sys_send :: "int \<Rightarrow> byte list \<Rightarrow> 'w \<Rightarrow> int \<times> 'w"
  sys_recv :: "int \<Rightarrow> nat \<Rightarrow> 'w \<Rightarrow> int \<times> byte list \<times> 'w"
  sys_close :: "int \<Rightarrow> 'w \<Rightarrow> 'w"
  sys_now :: "'w \<Rightarrow> int \<times> 'w"
  inet_pton4 :: "string \<Rightarrow> byte list option"
  r_config_read :: "'w \<Rightarrow> ucs_status \<times> 'w"
  r_init :: "'w \<Rightarrow> ucs_status \<times> nat \<times> 'w"
  r_worker_create :: "nat \<Rightarrow> 'w \<Rightarrow> ucs_status \<times> nat \<times> 'w"
  r_worker_query :: "nat \<Rightarrow> 'w \<Rightarrow> ucs_status \<times> byte list \<times> 'w"
  r_mem_map :: "nat \<Rightarrow> u64 \<Rightarrow> nat \<Rightarrow> 'w \<Rightarrow> ucs_status \<times> nat \<times> 'w"
  r_rkey_pack :: "nat \<Rightarrow> nat \<Rightarrow> 'w \<Rightarrow> ucs_status \<times> byte list \<times> 'w"
  r_ep_create :: "nat \<Rightarrow> byte list \<Rightarrow> 'w \<Rightarrow> ucs_status \<times> nat \<times> 'w"
  r_rkey_unpack :: "nat \<Rightarrow> byte list \<Rightarrow> 'w \<Rightarrow> ucs_status \<times> nat \<times> 'w"
  r_put :: "nat \<Rightarrow> byte list \<Rightarrow> u64 \<Rightarrow> nat \<Rightarrow> nat \<Rightarrow> 'w \<Rightarrow> ucs_ptr \<times> 'w"
  r_get :: "nat \<Rightarrow> nat \<Rightarrow> u64 \<Rightarrow> nat \<Rightarrow> nat \<Rightarrow> 'w \<Rightarrow> ucs_ptr \<times> byte list \<times> 'w"
  r_flush :: "nat \<Rightarrow> nat \<Rightarrow> 'w \<Rightarrow> ucs_ptr \<times> 'w"
  r_progress :: "nat \<Rightarrow> 'w \<Rightarrow> byte list \<times> 'w"
  r_check_status :: "nat \<Rightarrow> 'w \<Rightarrow> ucs_status \<times> 'w"

definition r_log :: "rma_call \<Rightarrow> 'w rma \<Rightarrow> 'w rma" where
  "r_log c s = s\<lparr>r_trace := r_trace s @ [c]\<rparr>"

text \<open>Sequencing with exceptions.\<close>

definition try_bind :: "(string + 'a) \<times> 's \<Rightarrow> ('a \<Rightarrow> 's \<Rightarrow> (string + 'b) \<times> 's) \<Rightarrow> (string + 'b) \<times> 's" where
  "try_bind r f = (case r of (Inl e, s) \<Rightarrow> (Inl e, s) | (Inr x, s) \<Rightarrow> f x s)"

lemma try_bind_Inr: "try_bind r f = (Inr y, t) \<longleftrightarrow> (\<exists>x s. r = (Inr x, s) \<and> f x s = (Inr y, t))"
  by (auto simp: try_bind_def split: sum.splits prod.splits)

lemma try_bind_simps [simp]: "try_bind (Inl e, s) f = (Inl e, s)" "try_bind (Inr x, s) f = f x s"
  by (simp_all add: try_bind_def)

section \<open>TCP helpers\<close>

definition tcp_listen :: "'w rma_api \<Rightarrow> u16 \<Rightarrow> 'w rma \<Rightarrow> (string + int) \<times> 'w rma" where
  "tcp_listen api port s =
     (let (fd, w) = sys_socket api (r_world s); s = s\<lparr>r_world := w\<rparr> in
      if fd < 0 then (Inl ''socket()'', s)
      else let s = r_log (M_socket fd) s; (opt, w) = sys_setsockopt api fd (r_world s); s = s\<lparr>r_world := w\<rparr>;
               (r, w) = sys_bind api fd port (r_world s); s = s\<lparr>r_world := w\<rparr> in
      if r < 0 then (Inl ''bind()'', s)
      else let (r, w) = sys_listen api fd 16 (r_world s); s = s\<lparr>r_world := w\<rparr> in
      if r < 0 then (Inl ''listen()'', s) else (Inr fd, s))"

definition accept_nonblock :: "'w rma_api \<Rightarrow> int \<Rightarrow> 'w rma \<Rightarrow> int \<times> 'w rma" where
  "accept_nonblock api lfd s =
     (let (pret, pollin, w) = sys_poll api lfd (r_world s); s = s\<lparr>r_world := w\<rparr> in
      if pret \<le> 0 \<or> \<not> pollin then (-1, s)
      else let (fd, w) = sys_accept api lfd (r_world s); s = s\<lparr>r_world := w\<rparr>
           in (fd, if fd \<ge> 0 then r_log (M_socket fd) s else s))"

definition tcp_connect :: "'w rma_api \<Rightarrow> string \<Rightarrow> u16 \<Rightarrow> 'w rma \<Rightarrow> (string + int) \<times> 'w rma" where
  "tcp_connect api ip port s =
     (let (fd, w) = sys_socket api (r_world s); s = s\<lparr>r_world := w\<rparr> in
      if fd < 0 then (Inl ''socket()'', s)
      else let s = r_log (M_socket fd) s in
      case inet_pton4 api ip of
        None \<Rightarrow> (Inl ''inet_pton()'', s)
      | Some addr \<Rightarrow>
          let (r, w) = sys_connect api fd addr port (r_world s); s = s\<lparr>r_world := w\<rparr>
          in if r < 0 then (Inl ''connect()'', s) else (Inr fd, s))"

definition tcp_close :: "'w rma_api \<Rightarrow> int \<Rightarrow> 'w rma \<Rightarrow> 'w rma" where
  "tcp_close api fd s = r_log (M_close fd) (s\<lparr>r_world := sys_close api fd (r_world s)\<rparr>)"

text \<open>
  The loops of \<open>send_all\<close> and \<open>recv_all\<close>: each round that does not throw advances the offset, so
  they end for any socket.
\<close>

function send_from :: "'w rma_api \<Rightarrow> int \<Rightarrow> byte list \<Rightarrow> nat \<Rightarrow> 'w rma \<Rightarrow> (string + unit) \<times> 'w rma" where
  "send_from api fd buf off s =
     (if off < length buf then
        (let (n, w) = sys_send api fd (drop off buf) (r_world s); s = s\<lparr>r_world := w\<rparr>
         in if n \<le> 0 then (Inl ''send()'', s) else send_from api fd buf (off + nat n) s)
      else (Inr (), s))"
  by pat_completeness auto
termination
  by (relation "measure (\<lambda>(api, fd, buf, off, s). length buf - off)") auto

definition send_all :: "'w rma_api \<Rightarrow> int \<Rightarrow> byte list \<Rightarrow> 'w rma \<Rightarrow> (string + unit) \<times> 'w rma" where
  "send_all api fd buf s = send_from api fd buf 0 s"

function recv_from :: "'w rma_api \<Rightarrow> int \<Rightarrow> nat \<Rightarrow> nat \<Rightarrow> byte list \<Rightarrow> 'w rma \<Rightarrow> (string + byte list) \<times> 'w rma" where
  "recv_from api fd len off acc s =
     (if off < len then
        (let (n, bs, w) = sys_recv api fd (len - off) (r_world s); s = s\<lparr>r_world := w\<rparr>
         in if n \<le> 0 then (Inl ''recv()'', s) else recv_from api fd len (off + nat n) (acc @ bs) s)
      else (Inr acc, s))"
  by pat_completeness auto
termination
  by (relation "measure (\<lambda>(api, fd, len, off, acc, s). len - off)") auto

definition recv_all :: "'w rma_api \<Rightarrow> int \<Rightarrow> nat \<Rightarrow> 'w rma \<Rightarrow> (string + byte list) \<times> 'w rma" where
  "recv_all api fd len s = recv_from api fd len 0 [] s"

declare send_from.simps [simp del] recv_from.simps [simp del]

section \<open>The handshake\<close>

record handshake =
  worker_addr :: "byte list"
  hs_rkey :: "byte list"
  remote_addr :: u64
  hs_size :: u64

text \<open>The lengths are cut to 32 bits, the data are not.\<close>

definition send_fd :: "'w rma_api \<Rightarrow> handshake \<Rightarrow> int \<Rightarrow> 'w rma \<Rightarrow> (string + unit) \<times> 'w rma" where
  "send_fd api hs fd s =
     (let wlen32 = unat (of_nat (length (worker_addr hs)) :: u32); rlen32 = unat (of_nat (length (hs_rkey hs)) :: u32) in
      try_bind (send_all api fd (le_bytes 4 wlen32) s) (\<lambda>_ s.
      try_bind (if worker_addr hs \<noteq> [] then send_all api fd (worker_addr hs) s else (Inr (), s)) (\<lambda>_ s.
      try_bind (send_all api fd (le_bytes 4 rlen32) s) (\<lambda>_ s.
      try_bind (if hs_rkey hs \<noteq> [] then send_all api fd (hs_rkey hs) s else (Inr (), s)) (\<lambda>_ s.
      try_bind (send_all api fd (enc_u64 (remote_addr hs)) s) (\<lambda>_ s.
      send_all api fd (enc_u64 (hs_size hs)) s))))))"

definition recv_fd :: "'w rma_api \<Rightarrow> int \<Rightarrow> 'w rma \<Rightarrow> (string + handshake) \<times> 'w rma" where
  "recv_fd api fd s =
     try_bind (recv_all api fd 4 s) (\<lambda>b s. let wlen32 = of_le b in
     try_bind (if wlen32 \<noteq> 0 then recv_all api fd wlen32 s else (Inr [], s)) (\<lambda>waddr s.
     try_bind (recv_all api fd 4 s) (\<lambda>b s. let rlen32 = of_le b in
     try_bind (if rlen32 \<noteq> 0 then recv_all api fd rlen32 s else (Inr [], s)) (\<lambda>rk s.
     try_bind (recv_all api fd 8 s) (\<lambda>ra s.
     try_bind (recv_all api fd 8 s) (\<lambda>sz s.
       (Inr \<lparr>worker_addr = waddr, hs_rkey = rk, remote_addr = of_nat (of_le ra), hs_size = of_nat (of_le sz)\<rparr>, s)))))))"

section \<open>The wire format\<close>

text \<open>
  \<open>[u32 wlen][waddr][u32 rlen][rkey][u64 raddr][u64 size]\<close>, as the comment in \<open>ucx_util.h\<close> has
  it.
\<close>

definition hs_tuple :: "handshake \<Rightarrow> byte list \<times> byte list \<times> u64 \<times> u64" where
  "hs_tuple hs = (worker_addr hs, hs_rkey hs, remote_addr hs, hs_size hs)"

definition of_hs_tuple :: "byte list \<times> byte list \<times> u64 \<times> u64 \<Rightarrow> handshake" where
  "of_hs_tuple t = (case t of (wa, rk, ra, sz) \<Rightarrow>
     \<lparr>worker_addr = wa, hs_rkey = rk, remote_addr = ra, hs_size = sz\<rparr>)"

definition enc_handshake :: "handshake \<Rightarrow> byte list" where
  "enc_handshake hs =
     enc_pair (enc_blob 4) (enc_pair (enc_blob 4) (enc_pair enc_u64 enc_u64)) (hs_tuple hs)"

definition dec_handshake :: "handshake decoder" where
  "dec_handshake bs = map_option (\<lambda>(t, r). (of_hs_tuple t, r))
     (dec_pair (dec_blob 4) (dec_pair (dec_blob 4) (dec_pair dec_u64 dec_u64)) bs)"

definition hs_fits :: "handshake \<Rightarrow> bool" where
  "hs_fits hs \<longleftrightarrow> length (worker_addr hs) < 2 ^ 32 \<and> length (hs_rkey hs) < 2 ^ 32"

interpretation hs_tail: codec_pair enc_u64 dec_u64 "\<lambda>_. True" enc_u64 dec_u64 "\<lambda>_. True"
  by unfold_locales

interpretation hs_rest: codec_pair "enc_blob 4" "dec_blob 4" "\<lambda>bs. length bs < 256 ^ 4"
  "enc_pair enc_u64 enc_u64" "dec_pair dec_u64 dec_u64" "\<lambda>p. True \<and> True"
  by unfold_locales

interpretation hs_all: codec_pair "enc_blob 4" "dec_blob 4" "\<lambda>bs. length bs < 256 ^ 4"
  "enc_pair (enc_blob 4) (enc_pair enc_u64 enc_u64)" "dec_pair (dec_blob 4) (dec_pair dec_u64 dec_u64)"
  "\<lambda>p. length (fst p) < 256 ^ 4 \<and> True \<and> True"
  by unfold_locales

interpretation hsc: codec enc_handshake dec_handshake hs_fits
proof
  fix hs r assume "hs_fits hs"
  then show "dec_handshake (enc_handshake hs @ r) = Some (hs, r)"
    using hs_all.ab.dec_enc[of "hs_tuple hs" r]
    by (simp add: dec_handshake_def enc_handshake_def hs_fits_def hs_tuple_def of_hs_tuple_def)
qed

section \<open>What the helpers rely on\<close>

text \<open>
  POSIX stream sockets: \<open>send\<close> accepts a prefix of what it is given, \<open>recv\<close> delivers a prefix
  of what is under way; \<open>out\<close> is everything accepted so far, \<open>inp\<close> everything not yet delivered.
\<close>

definition sends_into :: "'w rma_api \<Rightarrow> int \<Rightarrow> ('w \<Rightarrow> byte list) \<Rightarrow> bool" where
  "sends_into api fd out \<longleftrightarrow> (\<forall>bs w n w'. sys_send api fd bs w = (n, w') \<longrightarrow>
     (if n \<le> 0 then out w' = out w else nat n \<le> length bs \<and> out w' = out w @ take (nat n) bs))"

definition receives_from :: "'w rma_api \<Rightarrow> int \<Rightarrow> ('w \<Rightarrow> byte list) \<Rightarrow> bool" where
  "receives_from api fd inp \<longleftrightarrow> (\<forall>len w n bs w'. sys_recv api fd len w = (n, bs, w') \<longrightarrow> 0 < n \<longrightarrow>
     length bs = nat n \<and> nat n \<le> len \<and> inp w = bs @ inp w')"

text \<open>No connection error: something is accepted, and what is under way is delivered.\<close>

definition send_live :: "'w rma_api \<Rightarrow> int \<Rightarrow> bool" where
  "send_live api fd \<longleftrightarrow> (\<forall>bs w. bs \<noteq> [] \<longrightarrow> 0 < fst (sys_send api fd bs w))"

definition recv_live :: "'w rma_api \<Rightarrow> int \<Rightarrow> ('w \<Rightarrow> byte list) \<Rightarrow> bool" where
  "recv_live api fd inp \<longleftrightarrow> (\<forall>len w. 0 < len \<longrightarrow> inp w \<noteq> [] \<longrightarrow> 0 < fst (sys_recv api fd len w))"

lemma send_from_out:
  assumes "sends_into api fd out" "off \<le> length buf"
  shows "case send_from api fd buf off s of
     (Inr _, s') \<Rightarrow> out (r_world s') = out (r_world s) @ drop off buf \<and> r_trace s' = r_trace s
   | (Inl e, s') \<Rightarrow> \<not> send_live api fd \<and> r_trace s' = r_trace s"
  using assms(2)
proof (induction "length buf - off" arbitrary: off s rule: less_induct)
  case less
  show ?case
  proof (cases "off < length buf")
    case False
    with less.prems show ?thesis by (subst send_from.simps) simp
  next
    case True
    obtain n w where n: "sys_send api fd (drop off buf) (r_world s) = (n, w)" by fastforce
    let ?s = "s\<lparr>r_world := w\<rparr>"
    show ?thesis
    proof (cases "n \<le> 0")
      case le: True
      then have "\<not> send_live api fd" using n True unfolding send_live_def
        by (metis drop_eq_Nil fst_conv linorder_not_le)
      with le n True show ?thesis by (subst send_from.simps) simp
    next
      case gt: False
      with n assms(1) have c: "nat n \<le> length (drop off buf)" "out w = out (r_world s) @ take (nat n) (drop off buf)"
        unfolding sends_into_def by (metis)+
      have IH: "case send_from api fd buf (off + nat n) ?s of
         (Inr _, s') \<Rightarrow> out (r_world s') = out (r_world ?s) @ drop (off + nat n) buf \<and> r_trace s' = r_trace ?s
       | (Inl e, s') \<Rightarrow> \<not> send_live api fd \<and> r_trace s' = r_trace ?s"
        using gt c(1) True by (intro less.hyps) auto
      have "take (nat n) (drop off buf) @ drop (off + nat n) buf = drop off buf"
        by (metis add.commute append_take_drop_id drop_drop)
      moreover have "send_from api fd buf off s = send_from api fd buf (off + nat n) ?s"
        using gt n True by (subst send_from.simps) simp
      ultimately show ?thesis using IH c(2) by (auto split: prod.splits sum.splits)
    qed
  qed
qed

lemma send_all_out:
  assumes "sends_into api fd out"
  shows "send_all api fd buf s = (Inr u, s') \<Longrightarrow> out (r_world s') = out (r_world s) @ buf \<and> r_trace s' = r_trace s"
    and "send_live api fd \<Longrightarrow> \<exists>s'. send_all api fd buf s = (Inr (), s')"
  using send_from_out[OF assms, of 0 buf s]
  by (auto simp: send_all_def split: prod.splits sum.splits)

lemma recv_from_in:
  assumes "receives_from api fd inp" "off \<le> len"
  shows "case recv_from api fd len off acc s of
     (Inr b, s') \<Rightarrow> \<exists>d. b = acc @ d \<and> length d = len - off \<and> inp (r_world s) = d @ inp (r_world s') \<and>
        r_trace s' = r_trace s
   | (Inl e, s') \<Rightarrow> (recv_live api fd inp \<longrightarrow> length (inp (r_world s)) < len - off) \<and> r_trace s' = r_trace s"
  using assms(2)
proof (induction "len - off" arbitrary: off acc s rule: less_induct)
  case less
  show ?case
  proof (cases "off < len")
    case False
    with less.prems show ?thesis by (subst recv_from.simps) simp
  next
    case True
    obtain n bs w where n: "sys_recv api fd (len - off) (r_world s) = (n, bs, w)" using prod_cases3 by blast
    let ?s = "s\<lparr>r_world := w\<rparr>"
    show ?thesis
    proof (cases "n \<le> 0")
      case le: True
      have "recv_live api fd inp \<longrightarrow> inp (r_world s) = []"
        using n True le unfolding recv_live_def by (metis fst_conv linorder_not_le zero_less_diff)
      with le n True show ?thesis by (subst recv_from.simps) auto
    next
      case gt: False
      with n assms(1) have c: "length bs = nat n" "nat n \<le> len - off" "inp (r_world s) = bs @ inp w"
        unfolding receives_from_def by (metis linorder_not_le)+
      have IH: "case recv_from api fd len (off + nat n) (acc @ bs) ?s of
         (Inr b, s') \<Rightarrow> \<exists>d. b = (acc @ bs) @ d \<and> length d = len - (off + nat n) \<and>
            inp (r_world ?s) = d @ inp (r_world s') \<and> r_trace s' = r_trace ?s
       | (Inl e, s') \<Rightarrow> (recv_live api fd inp \<longrightarrow> length (inp (r_world ?s)) < len - (off + nat n)) \<and>
            r_trace s' = r_trace ?s"
        using gt c(2) True by (intro less.hyps) auto
      moreover have "recv_from api fd len off acc s = recv_from api fd len (off + nat n) (acc @ bs) ?s"
        using gt n True by (subst recv_from.simps) simp
      ultimately show ?thesis
        using c by (auto split: prod.splits sum.splits)
    qed
  qed
qed

text \<open>\<open>recv_all\<close> implements the decoder that takes a number of bytes.\<close>

definition refines :: "('w \<Rightarrow> byte list) \<Rightarrow> ('a \<times> byte list) option \<Rightarrow> 'w rma \<Rightarrow> (string + 'a) \<times> 'w rma \<Rightarrow> bool" where
  "refines inp spec s res \<longleftrightarrow> r_trace (snd res) = r_trace s \<and>
     (case spec of
        None \<Rightarrow> \<exists>e. fst res = Inl e
      | Some (x, r) \<Rightarrow> fst res = Inr x \<and> inp (r_world (snd res)) = r)"

lemma refines_bind:
  assumes "refines inp m s res" and "\<And>x s'. refines inp (f (x, inp (r_world s'))) s' (g x s')"
  shows "refines inp (Option.bind m f) s (try_bind res g)"
proof -
  obtain y s' where res: "res = (y, s')" by fastforce
  show ?thesis
  proof (cases m)
    case None
    with assms(1) res show ?thesis by (auto simp: refines_def)
  next
    case (Some p)
    then obtain x r where p: "p = (x, r)" by fastforce
    from assms(1) Some p res have y: "y = Inr x" "inp (r_world s') = r" "r_trace s' = r_trace s"
      by (simp_all add: refines_def)
    with assms(2)[of x s'] Some p res show ?thesis by (simp add: refines_def)
  qed
qed

lemma refines_return: "refines inp (Some (x, inp (r_world s))) s (Inr x, s)"
  by (simp add: refines_def)

lemma recv_all_refines:
  assumes "receives_from api fd inp" "recv_live api fd inp"
  shows "refines inp (dec_take len (inp (r_world s))) s (recv_all api fd len s)"
  using recv_from_in[OF assms(1), of 0 len s "[]"] assms(2)
  by (auto simp: refines_def dec_take_def recv_all_def split: prod.splits sum.splits)

lemma recv_blob_refines:
  assumes "receives_from api fd inp" "recv_live api fd inp"
  shows "refines inp (dec_blob n (inp (r_world s))) s
     (try_bind (recv_all api fd n s) (\<lambda>b s. let len = of_le b in
        if len \<noteq> 0 then recv_all api fd len s else (Inr [], s)))"
proof -
  have eq: "dec_blob n bs = Option.bind (dec_take n bs) (\<lambda>(b, bs). dec_take (of_le b) bs)" for bs
    by (simp add: dec_blob_def dec_le_def dec_take_def)
  show ?thesis
    unfolding eq
  proof (rule refines_bind[OF recv_all_refines[OF assms]], simp add: Let_def, intro conjI impI)
    fix x s' assume "of_le x = 0"
    then show "refines inp (dec_take 0 (inp (r_world s'))) s' (Inr [], s')"
      by (simp add: dec_take_def refines_return)
  next
    fix x s' assume "0 < of_le x"
    then show "refines inp (dec_take (of_le x) (inp (r_world s'))) s' (recv_all api fd (of_le x) s')"
      by (simp add: recv_all_refines[OF assms])
  qed
qed

lemma try_bind_assoc: "try_bind (try_bind m f) g = try_bind m (\<lambda>x s. try_bind (f x s) g)"
  by (auto simp: try_bind_def split: sum.splits prod.splits)

lemma recv_fd_blobs:
  "recv_fd api fd s =
     try_bind (try_bind (recv_all api fd 4 s) (\<lambda>b s. let len = of_le b in
        if len \<noteq> 0 then recv_all api fd len s else (Inr [], s))) (\<lambda>waddr s.
     try_bind (try_bind (recv_all api fd 4 s) (\<lambda>b s. let len = of_le b in
        if len \<noteq> 0 then recv_all api fd len s else (Inr [], s))) (\<lambda>rk s.
     try_bind (recv_all api fd 8 s) (\<lambda>ra s.
     try_bind (recv_all api fd 8 s) (\<lambda>sz s.
       (Inr \<lparr>worker_addr = waddr, hs_rkey = rk, remote_addr = of_nat (of_le ra), hs_size = of_nat (of_le sz)\<rparr>, s)))))"
  by (simp add: recv_fd_def try_bind_assoc Let_def)

lemma dec_handshake_unfold:
  "dec_handshake bs = Option.bind (dec_blob 4 bs) (\<lambda>(waddr, bs).
     Option.bind (dec_blob 4 bs) (\<lambda>(rk, bs).
     Option.bind (dec_take 8 bs) (\<lambda>(ra, bs).
     Option.bind (dec_take 8 bs) (\<lambda>(sz, bs).
       Some (\<lparr>worker_addr = waddr, hs_rkey = rk, remote_addr = of_nat (of_le ra), hs_size = of_nat (of_le sz)\<rparr>, bs)))))"
proof -
  have u: "dec_u64 bs = Option.bind (dec_take 8 bs) (\<lambda>(b, bs). Some (of_nat (of_le b), bs))" for bs
    by (simp add: dec_u64_def dec_le_def dec_take_def)
  show ?thesis
    by (auto simp: dec_handshake_def dec_pair_def u of_hs_tuple_def split: option.splits prod.splits bind_splits)
qed

text \<open>Receiving a handshake is decoding it from the stream.\<close>

lemma recv_fd_refines:
  assumes "receives_from api fd inp" "recv_live api fd inp"
  shows "refines inp (dec_handshake (inp (r_world s))) s (recv_fd api fd s)"
  unfolding recv_fd_blobs dec_handshake_unfold
  by (intro refines_bind recv_blob_refines recv_all_refines assms, simp only: prod.case,
      intro refines_bind recv_blob_refines recv_all_refines assms, simp only: prod.case,
      intro refines_bind recv_blob_refines recv_all_refines assms, simp only: prod.case,
      intro refines_bind recv_blob_refines recv_all_refines assms, simp only: prod.case,
      rule refines_return)

lemma enc_handshake_unfold:
  "enc_handshake hs = le_bytes 4 (length (worker_addr hs)) @ worker_addr hs @
     le_bytes 4 (length (hs_rkey hs)) @ hs_rkey hs @ enc_u64 (remote_addr hs) @ enc_u64 (hs_size hs)"
  by (simp add: enc_handshake_def enc_pair_def enc_blob_def hs_tuple_def)

lemma le_bytes_mod: "le_bytes n (x mod 256 ^ n) = le_bytes n x"
proof (induction n arbitrary: x)
  case (Suc n)
  have "x mod (256 * 256 ^ n) div 256 = x div 256 mod 256 ^ n" by (simp add: mod_mult2_eq)
  moreover have "x mod (256 * 256 ^ n) mod 256 = x mod 256" by (simp add: mod_mult2_eq)
  ultimately show ?case using Suc.IH[of "x div 256"] by simp
qed simp

lemma le_bytes_u32: "le_bytes 4 (unat (of_nat x :: u32)) = le_bytes 4 x"
  using le_bytes_mod[of 4 x] by (simp add: unat_of_nat)

text \<open>Sending one appends its encoding, or fails because the connection does.\<close>

lemma send_fd_out:
  assumes "sends_into api fd out"
  shows "send_fd api hs fd s = (Inr u, s') \<Longrightarrow>
      out (r_world s') = out (r_world s) @ enc_handshake hs \<and> r_trace s' = r_trace s"
    and "send_live api fd \<Longrightarrow> \<exists>s'. send_fd api hs fd s = (Inr (), s')"
proof -
  have w: "(if bs \<noteq> [] then send_all api fd bs t else (Inr (), t)) = send_all api fd bs t" for bs t
    by (simp add: send_all_def send_from.simps)
  show "out (r_world s') = out (r_world s) @ enc_handshake hs \<and> r_trace s' = r_trace s"
    if "send_fd api hs fd s = (Inr u, s')"
    using that unfolding send_fd_def w le_bytes_u32 Let_def
    by (auto simp: try_bind_Inr enc_handshake_unfold dest!: send_all_out(1)[OF assms])
  show "\<exists>s'. send_fd api hs fd s = (Inr (), s')" if "send_live api fd"
  proof -
    have "\<exists>t'. send_all api fd bs t = (Inr (), t')" for bs t using send_all_out(2)[OF assms that] .
    then show ?thesis unfolding send_fd_def w Let_def by (metis try_bind_simps(2))
  qed
qed

end
