(* ===== verification/Rma_Objects.thy ===== *)
theory Rma_Objects
  imports Rma_Wire
begin

text \<open>
  \<open>04_ucp_rma_client_server/ucx_util.cpp\<close>: the classes \<open>UcxEnv\<close>, \<open>UcxMem\<close> and
  \<open>UcxEndpoint\<close>. An object is a record of its data members (\<open>None\<close> is \<open>nullptr\<close>); a constructor
  yields the object or the message of the exception, a destructor acts on the state only.
\<close>

section \<open>UcxEnv\<close>

record ucx_env =
  env_ctx :: "nat option"
  env_worker :: "nat option"

definition UcxEnv_ctor :: "'w rma_api \<Rightarrow> 'w rma \<Rightarrow> (string + ucx_env) \<times> 'w rma" where
  "UcxEnv_ctor api s =
     (let (st, w) = r_config_read api (r_world s); s = s\<lparr>r_world := w\<rparr> in
      if st \<noteq> UCS_OK then (Inl ''ucp_config_read failed'', s)
      else let s = r_log M_config_read s; (st, c, w) = r_init api (r_world s); s = s\<lparr>r_world := w\<rparr> in
      if st \<noteq> UCS_OK then (Inl ''ucp_init failed'', r_log M_config_release s)
      else let s = r_log M_config_release (r_log (M_init c) s);
               (st, wk, w) = r_worker_create api c (r_world s); s = s\<lparr>r_world := w\<rparr> in
      if st \<noteq> UCS_OK then (Inl ''ucp_worker_create failed'', r_log (M_cleanup c) s)
      else (Inr \<lparr>env_ctx = Some c, env_worker = Some wk\<rparr>, r_log (M_worker_create wk) s))"

definition UcxEnv_dtor :: "ucx_env \<Rightarrow> 'w rma \<Rightarrow> 'w rma" where
  "UcxEnv_dtor env s =
     (let s = (case env_worker env of Some wk \<Rightarrow> r_log (M_worker_destroy wk) s | None \<Rightarrow> s)
      in case env_ctx env of Some c \<Rightarrow> r_log (M_cleanup c) s | None \<Rightarrow> s)"

definition worker_address_bytes :: "'w rma_api \<Rightarrow> nat \<Rightarrow> 'w rma \<Rightarrow> (string + byte list) \<times> 'w rma" where
  "worker_address_bytes api wk s =
     (let (st, bs, w) = r_worker_query api wk (r_world s); s = s\<lparr>r_world := w\<rparr> in
      if st \<noteq> UCS_OK then (Inl ''ucp_worker_query failed'', s)
      else (Inr bs, r_log (M_release_address wk) (r_log (M_query_address wk) s)))"

text \<open>
  Progress may complete a GET, which writes the local buffer; \<open>r_progress\<close> says what it holds then
  (nothing new: \<open>[]\<close>). It never writes past the buffer.
\<close>

definition env_progress :: "'w rma_api \<Rightarrow> nat \<Rightarrow> 'w rma \<Rightarrow> 'w rma" where
  "env_progress api wk s =
     (let (bs, w) = r_progress api wk (r_world s); n = min (length bs) (length (r_lbuf s))
      in s\<lparr>r_world := w, r_lbuf := take n bs @ drop n (r_lbuf s)\<rparr>)"

definition rma_check_status :: "'w rma_api \<Rightarrow> nat \<Rightarrow> 'w rma \<Rightarrow> ucs_status \<times> 'w rma" where
  "rma_check_status api r s = (let (st, w) = r_check_status api r (r_world s) in (st, s\<lparr>r_world := w\<rparr>))"

definition env_wait :: "nat \<Rightarrow> 'w rma_api \<Rightarrow> nat \<Rightarrow> nat option \<Rightarrow> 'w rma \<Rightarrow> (ucs_status \<times> 'w rma) option" where
  "env_wait fuel api wk req s =
     (case req of
        None \<Rightarrow> Some (UCS_OK, s)
      | Some r \<Rightarrow> do {
          (st, s) \<leftarrow> poll_until fuel (\<lambda>s. rma_check_status api r (env_progress api wk s))
                       (\<lambda>st. st = UCS_INPROGRESS) s;
          Some (st, r_log (M_request_free r) s)
        })"

section \<open>UcxMem\<close>

record ucx_mem =
  mem_base :: "u64 option"
  mem_len :: nat
  mem_memh :: "nat option"
  mem_ctx :: "nat option"

definition UcxMem_default :: ucx_mem where
  "UcxMem_default = \<lparr>mem_base = None, mem_len = 0, mem_memh = None, mem_ctx = None\<rparr>"

definition UcxMem_ctor :: "'w rma_api \<Rightarrow> nat \<Rightarrow> u64 \<Rightarrow> nat \<Rightarrow> 'w rma \<Rightarrow> (string + ucx_mem) \<times> 'w rma" where
  "UcxMem_ctor api ctx base len s =
     (let (st, mh, w) = r_mem_map api ctx base len (r_world s); s = s\<lparr>r_world := w\<rparr> in
      if st \<noteq> UCS_OK then (Inl ''ucp_mem_map failed'', s)
      else (Inr \<lparr>mem_base = Some base, mem_len = len, mem_memh = Some mh, mem_ctx = Some ctx\<rparr>,
            r_log (M_mem_map ctx base len mh) s))"

definition UcxMem_dtor :: "ucx_mem \<Rightarrow> 'w rma \<Rightarrow> 'w rma" where
  "UcxMem_dtor m s =
     (case mem_memh m of Some mh \<Rightarrow> r_log (M_mem_unmap (case mem_ctx m of Some c \<Rightarrow> c | None \<Rightarrow> 0) mh) s
      | None \<Rightarrow> s)"

text \<open>Move assignment: \<open>(target, source)\<close> afterwards; \<open>self\<close> says that they are the same object.\<close>

definition UcxMem_move_assign :: "bool \<Rightarrow> ucx_mem \<Rightarrow> ucx_mem \<Rightarrow> ucx_mem \<times> ucx_mem" where
  "UcxMem_move_assign self this other = (if self then (this, other) else (other, UcxMem_default))"

definition UcxMem_move_ctor :: "ucx_mem \<Rightarrow> ucx_mem \<times> ucx_mem" where
  "UcxMem_move_ctor other = UcxMem_move_assign False UcxMem_default other"

definition pack_rkey :: "'w rma_api \<Rightarrow> nat \<Rightarrow> nat \<Rightarrow> 'w rma \<Rightarrow> (string + byte list) \<times> 'w rma" where
  "pack_rkey api ctx mh s =
     (let (st, bs, w) = r_rkey_pack api ctx mh (r_world s); s = s\<lparr>r_world := w\<rparr> in
      if st \<noteq> UCS_OK then (Inl ''ucp_rkey_pack failed'', s)
      else (Inr bs, r_log (M_rkey_buffer_release mh) (r_log (M_rkey_pack mh) s)))"

section \<open>UcxEndpoint\<close>

record ucx_endpoint =
  ep_h :: "nat option"

definition UcxEndpoint_default :: ucx_endpoint where
  "UcxEndpoint_default = \<lparr>ep_h = None\<rparr>"

definition UcxEndpoint_ctor :: "'w rma_api \<Rightarrow> nat \<Rightarrow> byte list \<Rightarrow> 'w rma \<Rightarrow> (string + ucx_endpoint) \<times> 'w rma" where
  "UcxEndpoint_ctor api wk addr s =
     (let (st, e, w) = r_ep_create api wk addr (r_world s); s = s\<lparr>r_world := w\<rparr> in
      if st \<noteq> UCS_OK then (Inl ''ucp_ep_create failed'', s)
      else (Inr \<lparr>ep_h = Some e\<rparr>, r_log (M_ep_create wk addr e) s))"

definition UcxEndpoint_dtor :: "ucx_endpoint \<Rightarrow> 'w rma \<Rightarrow> 'w rma" where
  "UcxEndpoint_dtor ep s = (case ep_h ep of Some e \<Rightarrow> r_log (M_ep_destroy e) s | None \<Rightarrow> s)"

definition UcxEndpoint_move_assign :: "bool \<Rightarrow> ucx_endpoint \<Rightarrow> ucx_endpoint \<Rightarrow> ucx_endpoint \<times> ucx_endpoint" where
  "UcxEndpoint_move_assign self this other =
     (if self then (this, other) else (other, UcxEndpoint_default))"

definition UcxEndpoint_move_ctor :: "ucx_endpoint \<Rightarrow> ucx_endpoint \<times> ucx_endpoint" where
  "UcxEndpoint_move_ctor other = UcxEndpoint_move_assign False UcxEndpoint_default other"

definition import_rkey :: "'w rma_api \<Rightarrow> nat \<Rightarrow> byte list \<Rightarrow> 'w rma \<Rightarrow> (string + nat) \<times> 'w rma" where
  "import_rkey api e bs s =
     (let (st, k, w) = r_rkey_unpack api e bs (r_world s); s = s\<lparr>r_world := w\<rparr> in
      if st \<noteq> UCS_OK then (Inl ''ucp_ep_rkey_unpack failed'', s)
      else (Inr k, r_log (M_rkey_unpack e bs k) s))"

definition destroy_rkey :: "nat option \<Rightarrow> 'w rma \<Rightarrow> 'w rma" where
  "destroy_rkey rkey s = (case rkey of Some k \<Rightarrow> r_log (M_rkey_destroy k) s | None \<Rightarrow> s)"

text \<open>
  The local memory is given by its address and the bytes \<open>r_lbuf\<close> in it; of the request parameters the
  programs set the registration \<open>mh\<close>.
\<close>

definition put_nbx :: "'w rma_api \<Rightarrow> nat \<Rightarrow> u64 \<Rightarrow> u64 \<Rightarrow> nat \<Rightarrow> nat \<Rightarrow> 'w rma \<Rightarrow> ucs_ptr \<times> 'w rma" where
  "put_nbx api e laddr raddr k mh s =
     (let (r, w) = r_put api e (r_lbuf s) raddr k mh (r_world s)
      in (r, r_log (M_put e laddr (r_lbuf s) raddr k mh r) (s\<lparr>r_world := w\<rparr>)))"

definition get_nbx :: "'w rma_api \<Rightarrow> nat \<Rightarrow> u64 \<Rightarrow> u64 \<Rightarrow> nat \<Rightarrow> nat \<Rightarrow> 'w rma \<Rightarrow> ucs_ptr \<times> 'w rma" where
  "get_nbx api e laddr raddr k mh s =
     (let (r, bs, w) = r_get api e (length (r_lbuf s)) raddr k mh (r_world s);
          n = min (length bs) (length (r_lbuf s))
      in (r, r_log (M_get e laddr (length (r_lbuf s)) raddr k mh r)
               (s\<lparr>r_world := w, r_lbuf := take n bs @ drop n (r_lbuf s)\<rparr>)))"

definition flush_nbx :: "'w rma_api \<Rightarrow> nat \<Rightarrow> nat \<Rightarrow> 'w rma \<Rightarrow> ucs_ptr \<times> 'w rma" where
  "flush_nbx api e mh s =
     (let (r, w) = r_flush api e mh (r_world s) in (r, r_log (M_flush e mh r) (s\<lparr>r_world := w\<rparr>)))"

section \<open>Resources\<close>

datatype rma_res = F_fd int | F_config | F_ctx nat | F_worker nat | F_addr nat | F_mem nat
  | F_rkeybuf nat | F_ep nat | F_rkey nat | F_req nat

fun rma_acquires :: "rma_call \<Rightarrow> rma_res option" where
  "rma_acquires (M_socket fd) = Some (F_fd fd)"
| "rma_acquires M_config_read = Some F_config"
| "rma_acquires (M_init c) = Some (F_ctx c)"
| "rma_acquires (M_worker_create wk) = Some (F_worker wk)"
| "rma_acquires (M_query_address wk) = Some (F_addr wk)"
| "rma_acquires (M_mem_map c b n mh) = Some (F_mem mh)"
| "rma_acquires (M_rkey_pack mh) = Some (F_rkeybuf mh)"
| "rma_acquires (M_ep_create wk a e) = Some (F_ep e)"
| "rma_acquires (M_rkey_unpack e bs k) = Some (F_rkey k)"
| "rma_acquires (M_put e la bs a k mh (Ptr_REQ r)) = Some (F_req r)"
| "rma_acquires (M_get e la n a k mh (Ptr_REQ r)) = Some (F_req r)"
| "rma_acquires (M_flush e mh (Ptr_REQ r)) = Some (F_req r)"
| "rma_acquires _ = None"

fun rma_releases :: "rma_call \<Rightarrow> rma_res option" where
  "rma_releases (M_close fd) = Some (F_fd fd)"
| "rma_releases M_config_release = Some F_config"
| "rma_releases (M_cleanup c) = Some (F_ctx c)"
| "rma_releases (M_worker_destroy wk) = Some (F_worker wk)"
| "rma_releases (M_release_address wk) = Some (F_addr wk)"
| "rma_releases (M_mem_unmap c mh) = Some (F_mem mh)"
| "rma_releases (M_rkey_buffer_release mh) = Some (F_rkeybuf mh)"
| "rma_releases (M_ep_destroy e) = Some (F_ep e)"
| "rma_releases (M_rkey_destroy k) = Some (F_rkey k)"
| "rma_releases (M_request_free r) = Some (F_req r)"
| "rma_releases _ = None"

interpretation rmr: traced_program rma_acquires rma_releases "r_trace :: 'w rma \<Rightarrow> rma_call list"
proof
  fix c show "rma_acquires c = None \<or> rma_releases c = None" by (cases c) auto
qed

abbreviation rma_triple :: "rma_res multiset \<Rightarrow> 'w rma \<Rightarrow> 'w rma \<Rightarrow> rma_res multiset \<Rightarrow> bool" where
  "rma_triple \<equiv> traced_triple rma_acquires rma_releases r_trace"

lemmas rma_triple_def = traced_triple_def[of rma_acquires rma_releases r_trace]
lemmas rma_triple_same = rmr.st_same
lemmas rma_triple_trans [trans] = rmr.st_trans

lemma rma_triple_calls:
  assumes "r_trace s' = r_trace s @ t" "\<And>R. run_trace rma_acquires rma_releases (P + R) t = Some (Q + R)"
  shows "rma_triple P s s' Q"
  using assms by (auto simp: rma_triple_def res_triple_def)

end
