(* ===== verification/Rma_Programs.thy ===== *)
theory Rma_Programs
  imports Rma_Objects
begin

text \<open>
  \<open>04_ucp_rma_client_server/client.cpp\<close> and \<open>server.cpp\<close>. A program ends by returning from
  \<open>main\<close>, by \<open>exit\<close> (the destructors of local objects do not run) or by an exception nobody
  catches; in that case it depends on the implementation whether the stack is unwound, which is
  the parameter \<open>unwind\<close>.
\<close>

section \<open>Client\<close>

datatype outcome = Ret int | Exit int | Uncaught string

definition leave_scope :: "bool \<Rightarrow> ('w rma \<Rightarrow> 'w rma) \<Rightarrow> outcome \<times> 'w rma \<Rightarrow> outcome \<times> 'w rma" where
  "leave_scope unwind dtor r =
     (case r of
        (Ret n, s) \<Rightarrow> (Ret n, dtor s)
      | (Exit n, s) \<Rightarrow> (Exit n, s)
      | (Uncaught e, s) \<Rightarrow> (Uncaught e, if unwind then dtor s else s))"

definition die :: "string \<Rightarrow> 'w rma \<Rightarrow> outcome \<times> 'w rma" where
  "die msg s = (Exit 1, s\<lparr>r_out := r_out s @ [Out_error msg]\<rparr>)"

fun as_request :: "ucs_ptr \<Rightarrow> nat option" where
  "as_request (Ptr_REQ r) = Some r"
| "as_request _ = None"

definition put_pattern :: "nat \<Rightarrow> byte list" where
  "put_pattern sz = map (\<lambda>i. of_nat (i * 3)) [0..<sz]"

text \<open>The RMA operation, from line 59 of \<open>client.cpp\<close> to the end of \<open>main\<close>.\<close>

definition client_finish :: "bool \<Rightarrow> nat \<Rightarrow> 'w rma \<Rightarrow> outcome \<times> 'w rma" where
  "client_finish do_put rkey s =
     (Ret 0, destroy_rkey (Some rkey) (s\<lparr>r_out := r_out s @ [Out_done do_put (take 16 (r_lbuf s))]\<rparr>))"

definition client_op :: "nat \<Rightarrow> 'w rma_api \<Rightarrow> nat \<Rightarrow> nat \<Rightarrow> bool \<Rightarrow> u64 \<Rightarrow> u64 \<Rightarrow> nat \<Rightarrow> nat \<Rightarrow> 'w rma \<Rightarrow>
    (outcome \<times> 'w rma) option" where
  "client_op fuel api wk e do_put lbuf_addr raddr rkey mh s =
     (if do_put then
        (let (req, s) = put_nbx api e lbuf_addr raddr rkey mh s in
         if UCS_PTR_IS_ERR req then Some (Uncaught ''ucp_put_nbx failed'', destroy_rkey (Some rkey) s)
         else do {
           (st, s) \<leftarrow> env_wait fuel api wk (as_request req) s;
           if st \<noteq> UCS_OK then Some (die ''put completion error'' s)
           else
             let (req, s) = flush_nbx api e mh s in
             if UCS_PTR_IS_ERR req then Some (Uncaught ''flush failed'', destroy_rkey (Some rkey) s)
             else do {
               (st, s) \<leftarrow> env_wait fuel api wk (as_request req) s;
               if st \<noteq> UCS_OK then Some (die ''flush completion error'' s)
               else Some (client_finish do_put rkey s)
             }
         })
      else
        (let (req, s) = get_nbx api e lbuf_addr raddr rkey mh s in
         if UCS_PTR_IS_ERR req then Some (Uncaught ''ucp_get_nbx failed'', destroy_rkey (Some rkey) s)
         else do {
           (st, s) \<leftarrow> env_wait fuel api wk (as_request req) s;
           if st \<noteq> UCS_OK then Some (die ''get completion error'' s)
           else Some (client_finish do_put rkey s)
         }))"

text \<open>The scopes of the local objects, inside out: \<open>lmem\<close>, \<open>ep\<close>, \<open>env\<close>.\<close>

definition client_with_rkey :: "bool \<Rightarrow> nat \<Rightarrow> 'w rma_api \<Rightarrow> u64 \<Rightarrow> nat \<Rightarrow> nat \<Rightarrow> nat \<Rightarrow> bool \<Rightarrow> handshake \<Rightarrow> nat \<Rightarrow>
    'w rma \<Rightarrow> (outcome \<times> 'w rma) option" where
  "client_with_rkey unwind fuel api lbuf_addr ctx wk e do_put hs rkey s =
     (let sz = unat (hs_size hs);
          s = s\<lparr>r_lbuf := (if do_put then put_pattern sz else replicate sz 0)\<rparr> in
      case UcxMem_ctor api ctx lbuf_addr (length (r_lbuf s)) s of
        (Inl err, s) \<Rightarrow> Some (Uncaught err, s)
      | (Inr lmem, s) \<Rightarrow>
          map_option (leave_scope unwind (UcxMem_dtor lmem))
            (client_op fuel api wk e do_put lbuf_addr (remote_addr hs) rkey (the (mem_memh lmem)) s))"

definition client_with_env :: "bool \<Rightarrow> nat \<Rightarrow> 'w rma_api \<Rightarrow> u64 \<Rightarrow> nat \<Rightarrow> nat \<Rightarrow> bool \<Rightarrow> handshake \<Rightarrow> 'w rma \<Rightarrow>
    (outcome \<times> 'w rma) option" where
  "client_with_env unwind fuel api lbuf_addr ctx wk do_put hs s =
     (case UcxEndpoint_ctor api wk (worker_addr hs) s of
        (Inl err, s) \<Rightarrow> Some (Uncaught err, s)
      | (Inr ep, s) \<Rightarrow>
          map_option (leave_scope unwind (UcxEndpoint_dtor ep))
            (case import_rkey api (the (ep_h ep)) (hs_rkey hs) s of
               (Inl err, s) \<Rightarrow> Some (Uncaught err, s)
             | (Inr rkey, s) \<Rightarrow>
                 client_with_rkey unwind fuel api lbuf_addr ctx wk (the (ep_h ep)) do_put hs rkey s))"

definition rma_client_main :: "bool \<Rightarrow> nat \<Rightarrow> 'w rma_api \<Rightarrow> u64 \<Rightarrow> string list \<Rightarrow> 'w rma \<Rightarrow>
    (outcome \<times> 'w rma) option" where
  "rma_client_main unwind fuel api lbuf_addr argv s =
     (if length argv < 4 then Some (Ret 1, s\<lparr>r_out := r_out s @ [Out_usage]\<rparr>)
      else
        let ip = argv ! 1; port = word_of_int (strtoul (argv ! 2)) :: u16; mode = argv ! 3;
            do_put = (mode = ''put''); do_get = (mode = ''get'') in
        if \<not> do_put \<and> \<not> do_get then Some (die ''mode must be put or get'' s)
        else case tcp_connect api ip port s of
          (Inl err, s) \<Rightarrow> Some (Uncaught err, s)
        | (Inr fd, s) \<Rightarrow> (case recv_fd api fd s of
            (Inl err, s) \<Rightarrow> Some (Uncaught err, s)
          | (Inr hs, s) \<Rightarrow>
              let s = tcp_close api fd s in
              (case UcxEnv_ctor api s of
                 (Inl err, s) \<Rightarrow> Some (Uncaught err, s)
               | (Inr env, s) \<Rightarrow>
                   map_option (leave_scope unwind (UcxEnv_dtor env))
                     (client_with_env unwind fuel api lbuf_addr (the (env_ctx env)) (the (env_worker env))
                        do_put hs s))))"

section \<open>Server\<close>

text \<open>The buffer and what the server tells its clients.\<close>

record server_vars =
  sv_worker :: nat
  sv_lfd :: int
  sv_hs :: handshake
  sv_last_print :: int

definition server_pattern :: "nat \<Rightarrow> byte list" where
  "server_pattern sz = map (\<lambda>i. of_nat i) [0..<sz]"

text \<open>
  An object of the server's \<open>main\<close>, which never returns: its destructor runs only when an exception
  unwinds the stack.
\<close>

definition server_scope :: "bool \<Rightarrow> ('w rma \<Rightarrow> 'w rma) \<Rightarrow> (string + 'a) \<times> 'w rma \<Rightarrow> (string + 'a) \<times> 'w rma" where
  "server_scope unwind dtor r =
     (case r of (Inl err, s) \<Rightarrow> (Inl err, if unwind then dtor s else s) | (Inr x, s) \<Rightarrow> (Inr x, s))"

text \<open>
  Everything before the event loop, which is \<open>loop\<close>, inside the scopes of \<open>env\<close> and \<open>mem\<close>; \<open>buf_addr\<close>
  is where the buffer was allocated.
\<close>

definition server_setup :: "bool \<Rightarrow> 'w rma_api \<Rightarrow> u64 \<Rightarrow> u16 \<Rightarrow> nat \<Rightarrow>
    (server_vars \<Rightarrow> 'w rma \<Rightarrow> (string + 'a) \<times> 'w rma) \<Rightarrow> 'w rma \<Rightarrow> (string + 'a) \<times> 'w rma" where
  "server_setup unwind api buf_addr port sz loop s =
     try_bind (UcxEnv_ctor api (s\<lparr>r_lbuf := server_pattern sz\<rparr>)) (\<lambda>env s. server_scope unwind (UcxEnv_dtor env) (
     try_bind (worker_address_bytes api (the (env_worker env)) s) (\<lambda>waddr s.
     try_bind (UcxMem_ctor api (the (env_ctx env)) buf_addr sz s) (\<lambda>mem s. server_scope unwind (UcxMem_dtor mem) (
     try_bind (pack_rkey api (the (env_ctx env)) (the (mem_memh mem)) s) (\<lambda>rkey s.
     try_bind (tcp_listen api port s) (\<lambda>lfd s.
       let (now, w) = sys_now api (r_world s)
       in loop \<lparr>sv_worker = the (env_worker env), sv_lfd = lfd,
                sv_hs = \<lparr>worker_addr = waddr, hs_rkey = rkey, remote_addr = buf_addr, hs_size = of_nat sz\<rparr>,
                sv_last_print = now\<rparr>
           (s\<lparr>r_world := w, r_out := r_out s @ [Out_listening port]\<rparr>))))))))"

text \<open>One turn of the event loop; times are in nanoseconds.\<close>

definition server_turn :: "'w rma_api \<Rightarrow> server_vars \<Rightarrow> 'w rma \<Rightarrow> (string + server_vars) \<times> 'w rma" where
  "server_turn api sv s =
     (let s = env_progress api (sv_worker sv) s; (cfd, s) = accept_nonblock api (sv_lfd sv) s in
      try_bind (if cfd \<ge> 0 then
                  try_bind (send_fd api (sv_hs sv) cfd s) (\<lambda>_ s.
                    let s = tcp_close api cfd s
                    in (Inr (), s\<lparr>r_out := r_out s @ [Out_handshake_sent (unat (hs_size (sv_hs sv)))]\<rparr>))
                else (Inr (), s)) (\<lambda>_ s.
        let (now, w) = sys_now api (r_world s); s = s\<lparr>r_world := w\<rparr> in
        if now - sv_last_print sv > 1000000000
        then (Inr (sv\<lparr>sv_last_print := now\<rparr>), s\<lparr>r_out := r_out s @ [Out_head (take 16 (r_lbuf s))]\<rparr>)
        else (Inr sv, s)))"

text \<open>The loop never ends by itself: \<open>turns\<close> bounds how much of it is run.\<close>

fun server_loop :: "nat \<Rightarrow> 'w rma_api \<Rightarrow> server_vars \<Rightarrow> 'w rma \<Rightarrow> (string + server_vars) \<times> 'w rma" where
  "server_loop 0 api sv s = (Inr sv, s)"
| "server_loop (Suc n) api sv s = try_bind (server_turn api sv s) (server_loop n api)"

definition rma_server_main :: "bool \<Rightarrow> nat \<Rightarrow> 'w rma_api \<Rightarrow> u64 \<Rightarrow> string list \<Rightarrow> 'w rma \<Rightarrow> outcome option \<times> 'w rma" where
  "rma_server_main unwind turns api buf_addr argv s =
     (if length argv < 3 then (Some (Ret 1), s\<lparr>r_out := r_out s @ [Out_usage]\<rparr>)
      else
        let port = word_of_int (strtoul (argv ! 1)) :: u16; sz = nat (strtoul (argv ! 2)) in
        case server_setup unwind api buf_addr port sz (server_loop turns api) s of
          (Inl err, s) \<Rightarrow> (Some (Uncaught err), s)
        | (Inr _, s) \<Rightarrow> (None, s))"

end
