(* ===== verification/Rma_Resources.thy ===== *)
theory Rma_Resources
  imports Rma_Programs
begin

text \<open>
  Ownership in the RMA programs: what each constructor acquires and each destructor releases, and
  from that the balance of whole runs. The trace facts hold for any socket layer and any UCP.
\<close>

section \<open>Objects\<close>

lemma r_trace_log [simp, trace_simps]: "r_trace (r_log c s) = r_trace s @ [c]"
  by (simp add: r_log_def)

lemma r_fields_log [simp, frame_simps]: "r_lbuf (r_log c s) = r_lbuf s" "r_world (r_log c s) = r_world s"
  "r_out (r_log c s) = r_out s"
  by (simp_all add: r_log_def)

lemmas rma_triple_simps = rma_triple_def res_triple_def

lemma triple_env_ctor:
  assumes "UcxEnv_ctor api s = (r, s')"
  shows "case r of Inl e \<Rightarrow> rma_triple P s s' P
     | Inr env \<Rightarrow> \<exists>c wk. env = \<lparr>env_ctx = Some c, env_worker = Some wk\<rparr> \<and>
         rma_triple P s s' (add_mset (F_worker wk) (add_mset (F_ctx c) P))"
  using assms
  by (auto simp: UcxEnv_ctor_def Let_def rma_triple_simps split: prod.splits if_splits)

lemma triple_env_dtor:
  "rma_triple (add_mset (F_worker wk) (add_mset (F_ctx c) P)) s
     (UcxEnv_dtor \<lparr>env_ctx = Some c, env_worker = Some wk\<rparr> s) P"
  by (auto simp: UcxEnv_dtor_def rma_triple_simps)

lemma triple_mem_ctor:
  assumes "UcxMem_ctor api ctx base len s = (r, s')"
  shows "case r of Inl e \<Rightarrow> rma_triple P s s' P
     | Inr m \<Rightarrow> \<exists>mh. m = \<lparr>mem_base = Some base, mem_len = len, mem_memh = Some mh, mem_ctx = Some ctx\<rparr> \<and>
         rma_triple P s s' (add_mset (F_mem mh) P)"
  using assms by (auto simp: UcxMem_ctor_def Let_def rma_triple_simps split: prod.splits if_splits)

lemma triple_mem_dtor:
  "mem_memh m = Some mh \<Longrightarrow> rma_triple (add_mset (F_mem mh) P) s (UcxMem_dtor m s) P"
  by (auto simp: UcxMem_dtor_def rma_triple_simps)

lemma triple_ep_ctor:
  assumes "UcxEndpoint_ctor api wk addr s = (r, s')"
  shows "case r of Inl e \<Rightarrow> rma_triple P s s' P
     | Inr ep \<Rightarrow> \<exists>e. ep = \<lparr>ep_h = Some e\<rparr> \<and> rma_triple P s s' (add_mset (F_ep e) P)"
  using assms by (auto simp: UcxEndpoint_ctor_def Let_def rma_triple_simps split: prod.splits if_splits)

lemma triple_ep_dtor: "rma_triple (add_mset (F_ep e) P) s (UcxEndpoint_dtor \<lparr>ep_h = Some e\<rparr> s) P"
  by (auto simp: UcxEndpoint_dtor_def rma_triple_simps)

lemma triple_import_rkey:
  assumes "import_rkey api e bs s = (r, s')"
  shows "case r of Inl e \<Rightarrow> rma_triple P s s' P | Inr k \<Rightarrow> rma_triple P s s' (add_mset (F_rkey k) P)"
  using assms by (auto simp: import_rkey_def Let_def rma_triple_simps split: prod.splits if_splits)

lemma triple_worker_address: "worker_address_bytes api wk s = (r, s') \<Longrightarrow> rma_triple P s s' P"
  by (auto simp: worker_address_bytes_def Let_def rma_triple_simps split: prod.splits if_splits)

lemma triple_pack_rkey: "pack_rkey api ctx mh s = (r, s') \<Longrightarrow> rma_triple P s s' P"
  by (auto simp: pack_rkey_def Let_def rma_triple_simps split: prod.splits if_splits)

section \<open>Sockets\<close>

lemma send_from_trace [simp, frame_simps]: "r_trace (snd (send_from api fd buf off s)) = r_trace s"
proof (induction api fd buf off s rule: send_from.induct)
  case (1 api fd buf off s)
  then show ?case by (subst send_from.simps) (auto simp: Let_def split: prod.splits)
qed

lemma recv_from_trace [simp, frame_simps]: "r_trace (snd (recv_from api fd len off acc s)) = r_trace s"
proof (induction api fd len off acc s rule: recv_from.induct)
  case (1 api fd len off acc s)
  then show ?case by (subst recv_from.simps) (auto simp: Let_def split: prod.splits)
qed

lemma try_bind_trace:
  "r_trace (snd m) = r_trace s \<Longrightarrow> (\<And>x t. r_trace t = r_trace s \<Longrightarrow> r_trace (snd (f x t)) = r_trace s) \<Longrightarrow>
     r_trace (snd (try_bind m f)) = r_trace s"
  by (auto simp: try_bind_def split: sum.splits prod.splits)

lemma send_fd_trace [simp, frame_simps]: "r_trace (snd (send_fd api hs fd s)) = r_trace s"
  unfolding send_fd_def send_all_def Let_def by (intro try_bind_trace) simp_all

lemma recv_fd_trace [simp, frame_simps]: "r_trace (snd (recv_fd api fd s)) = r_trace s"
  unfolding recv_fd_def recv_all_def Let_def by (intro try_bind_trace) simp_all

lemma triple_connect:
  assumes "tcp_connect api ip port s = (Inr fd, s')"
  shows "rma_triple P s s' (add_mset (F_fd fd) P)"
  using assms
  by (auto simp: tcp_connect_def Let_def rma_triple_simps split: prod.splits if_splits option.splits)

lemma triple_close: "rma_triple (add_mset (F_fd fd) P) s (tcp_close api fd s) P"
  by (auto simp: tcp_close_def rma_triple_simps)

lemma triple_accept:
  assumes "accept_nonblock api lfd s = (cfd, s')"
  shows "rma_triple P s s' (if cfd \<ge> 0 then add_mset (F_fd cfd) P else P)"
  using assms by (auto simp: accept_nonblock_def Let_def rma_triple_simps split: prod.splits if_splits)

lemma triple_listen:
  assumes "tcp_listen api port s = (Inr fd, s')"
  shows "rma_triple P s s' (add_mset (F_fd fd) P)"
  using assms by (auto simp: tcp_listen_def Let_def rma_triple_simps split: prod.splits if_splits)

section \<open>Requests\<close>

lemma env_progress_trace [simp, frame_simps]: "r_trace (env_progress api wk s) = r_trace s"
  by (simp add: env_progress_def Let_def split_beta)

lemma check_status_trace [simp, frame_simps]: "r_trace (snd (rma_check_status api r s)) = r_trace s"
  by (simp add: rma_check_status_def split_beta)

fun req_res :: "ucs_ptr \<Rightarrow> rma_res multiset" where
  "req_res (Ptr_REQ r) = {#F_req r#}"
| "req_res _ = {#}"

text \<open>One round of \<open>UcxEnv::wait\<close>, and the round it returns at.\<close>

definition wait_turn :: "'w rma_api \<Rightarrow> nat \<Rightarrow> nat \<Rightarrow> 'w rma \<Rightarrow> ucs_status \<times> 'w rma" where
  "wait_turn api wk r s = rma_check_status api r (env_progress api wk s)"

lemma env_wait_returns:
  assumes "fst (wait_turn api wk r (((snd \<circ> wait_turn api wk r) ^^ k) s)) \<noteq> UCS_INPROGRESS" "k < fuel"
  shows "\<exists>j st u. j \<le> k \<and> (\<forall>i<j. fst (wait_turn api wk r (((snd \<circ> wait_turn api wk r) ^^ i) s)) = UCS_INPROGRESS) \<and>
     wait_turn api wk r (((snd \<circ> wait_turn api wk r) ^^ j) s) = (st, u) \<and> st \<noteq> UCS_INPROGRESS \<and>
     env_wait fuel api wk (Some r) s = Some (st, r_log (M_request_free r) u)"
proof -
  let ?b = "wait_turn api wk r"
  from poll_until_first[of "\<lambda>st. st = UCS_INPROGRESS" ?b k s fuel] assms obtain j where
    j: "j \<le> k" "\<forall>i<j. fst (?b (((snd \<circ> ?b) ^^ i) s)) = UCS_INPROGRESS" "fst (?b (((snd \<circ> ?b) ^^ j) s)) \<noteq> UCS_INPROGRESS"
    and p: "poll_until fuel ?b (\<lambda>st. st = UCS_INPROGRESS) s = Some (?b (((snd \<circ> ?b) ^^ j) s))"
    by (auto simp: comp_def)
  obtain st u where e: "?b (((snd \<circ> ?b) ^^ j) s) = (st, u)" by fastforce
  have "env_wait fuel api wk (Some r) s = Some (st, r_log (M_request_free r) u)"
    using p e by (simp add: env_wait_def wait_turn_def[abs_def])
  with j e show ?thesis by (intro exI[of _ j] exI[of _ st] exI[of _ u]) simp
qed

lemma env_wait_trace:
  assumes "env_wait fuel api wk req s = Some (st, s')"
  shows "r_trace s' = r_trace s @ (case req of None \<Rightarrow> [] | Some r \<Rightarrow> [M_request_free r])"
proof (cases req)
  case None
  with assms show ?thesis by (simp add: env_wait_def)
next
  case (Some r)
  with assms obtain t where
    t: "poll_until fuel (\<lambda>s. rma_check_status api r (env_progress api wk s)) (\<lambda>st. st = UCS_INPROGRESS) s = Some (st, t)"
      "s' = r_log (M_request_free r) t"
    by (auto simp: env_wait_def split: bind_splits)
  from t(1) have "r_trace t = r_trace s"
    by (rule poll_until_inv[where P = "\<lambda>u. r_trace u = r_trace s"]) simp_all
  with t(2) Some show ?thesis by simp
qed

lemma triple_env_wait:
  assumes "env_wait fuel api wk (as_request p) s = Some (st, s')" "\<not> UCS_PTR_IS_ERR p"
  shows "rma_triple (P + req_res p) s s' P"
  using env_wait_trace[OF assms(1)] assms(2)
  by (cases p) (auto simp: rma_triple_simps)

lemma triple_put: "put_nbx api e la raddr k mh s = (p, s') \<Longrightarrow> rma_triple P s s' (P + req_res p)"
  by (cases p) (auto simp: put_nbx_def rma_triple_simps split: prod.splits)

lemma triple_get: "get_nbx api e la raddr k mh s = (p, s') \<Longrightarrow> rma_triple P s s' (P + req_res p)"
  by (cases p) (auto simp: get_nbx_def Let_def rma_triple_simps split: prod.splits)

lemma triple_flush: "flush_nbx api e mh s = (p, s') \<Longrightarrow> rma_triple P s s' (P + req_res p)"
  by (cases p) (auto simp: flush_nbx_def rma_triple_simps split: prod.splits)

lemma triple_destroy_rkey: "rma_triple (add_mset (F_rkey k) P) s (destroy_rkey (Some k) s) P"
  by (auto simp: destroy_rkey_def rma_triple_simps)

section \<open>The client\<close>

text \<open>A scope that is left by a return releases what its object owns.\<close>

lemma leave_scope_Ret [simp]:
  "leave_scope unwind dtor r = (Ret n, s') \<longleftrightarrow> (\<exists>t. r = (Ret n, t) \<and> s' = dtor t)"
  by (cases r; cases "fst r") (auto simp: leave_scope_def)

lemma client_op_Ret:
  assumes "client_op fuel api wk e do_put la raddr k mh s = Some (Ret n, s')"
  shows "n = 0 \<and> rma_triple (add_mset (F_rkey k) P) s s' P"
proof -
  let ?R = "add_mset (F_rkey k) P"
  have fin: "client_finish do_put k t = (Ret n, s') \<Longrightarrow> n = 0 \<and> rma_triple ?R t s' P" for t
  proof -
    let ?t = "t\<lparr>r_out := r_out t @ [Out_done do_put (take 16 (r_lbuf t))]\<rparr>"
    assume "client_finish do_put k t = (Ret n, s')"
    then have e: "n = 0" "s' = destroy_rkey (Some k) ?t" by (auto simp: client_finish_def)
    have "rma_triple ?R t ?t ?R" by (rule rma_triple_same) simp
    also have "rma_triple ?R ?t s' P" unfolding e by (rule triple_destroy_rkey)
    finally show ?thesis using e by simp
  qed
  show ?thesis
  proof (cases do_put)
    case True
    obtain p s1 where p: "put_nbx api e la raddr k mh s = (p, s1)" by fastforce
    from assms True p obtain s2 where ok: "\<not> UCS_PTR_IS_ERR p"
      and w: "env_wait fuel api wk (as_request p) s1 = Some (UCS_OK, s2)"
      by (auto simp: client_op_def die_def split: if_splits bind_splits)
    obtain q s3 where q: "flush_nbx api e mh s2 = (q, s3)" by fastforce
    from assms True p ok w q obtain s4 where ok2: "\<not> UCS_PTR_IS_ERR q"
      and w2: "env_wait fuel api wk (as_request q) s3 = Some (UCS_OK, s4)"
      and f: "client_finish True k s4 = (Ret n, s')"
      by (auto simp: client_op_def die_def split: if_splits bind_splits)
    have "rma_triple ?R s s1 (?R + req_res p)" using p by (rule triple_put)
    also have "rma_triple (?R + req_res p) s1 s2 ?R" using w ok by (rule triple_env_wait)
    also have "rma_triple ?R s2 s3 (?R + req_res q)" using q by (rule triple_flush)
    also have "rma_triple (?R + req_res q) s3 s4 ?R" using w2 ok2 by (rule triple_env_wait)
    finally show ?thesis using fin[of s4] f True by (auto intro: rma_triple_trans)
  next
    case False
    obtain p s1 where p: "get_nbx api e la raddr k mh s = (p, s1)" by fastforce
    from assms False p obtain s2 where ok: "\<not> UCS_PTR_IS_ERR p"
      and w: "env_wait fuel api wk (as_request p) s1 = Some (UCS_OK, s2)"
      and f: "client_finish False k s2 = (Ret n, s')"
      by (auto simp: client_op_def die_def split: if_splits bind_splits)
    have "rma_triple ?R s s1 (?R + req_res p)" using p by (rule triple_get)
    also have "rma_triple (?R + req_res p) s1 s2 ?R" using w ok by (rule triple_env_wait)
    finally show ?thesis using fin[of s2] f False by (auto intro: rma_triple_trans)
  qed
qed

lemma client_with_rkey_Ret:
  assumes "client_with_rkey unwind fuel api la ctx wk e do_put hs k s = Some (Ret n, s')"
  shows "n = 0 \<and> rma_triple (add_mset (F_rkey k) P) s s' P"
proof -
  let ?s = "s\<lparr>r_lbuf := (if do_put then put_pattern (unat (hs_size hs)) else replicate (unat (hs_size hs)) 0)\<rparr>"
  obtain r s1 where m: "UcxMem_ctor api ctx la (length (r_lbuf ?s)) ?s = (r, s1)" by fastforce
  with assms obtain lmem where r: "r = Inr lmem"
    by (cases r) (auto simp: client_with_rkey_def Let_def)
  let ?R = "add_mset (F_rkey k) P"
  from triple_mem_ctor[OF m, of ?R] r obtain mh where mh: "mem_memh lmem = Some mh"
    "rma_triple ?R ?s s1 (add_mset (F_mem mh) ?R)" by auto
  from assms m r obtain t where t: "client_op fuel api wk e do_put la (remote_addr hs) k mh s1 = Some (Ret n, t)"
    "s' = UcxMem_dtor lmem t"
    using mh(1) by (auto simp: client_with_rkey_def Let_def)
  have "rma_triple ?R s ?s ?R" by (rule rma_triple_same) simp
  also note mh(2)
  also have "rma_triple (add_mset (F_mem mh) ?R) s1 t (add_mset (F_mem mh) P)"
    using client_op_Ret[OF t(1), of "add_mset (F_mem mh) P"] by (simp add: add_mset_commute)
  also have "rma_triple (add_mset (F_mem mh) P) t s' P" unfolding t(2) by (rule triple_mem_dtor[OF mh(1)])
  finally show ?thesis using client_op_Ret[OF t(1)] by simp
qed

lemma client_with_env_Ret:
  assumes "client_with_env unwind fuel api la ctx wk do_put hs s = Some (Ret n, s')"
  shows "n = 0 \<and> rma_triple P s s' P"
proof -
  obtain r s1 where c: "UcxEndpoint_ctor api wk (worker_addr hs) s = (r, s1)" by fastforce
  with assms obtain ep where r: "r = Inr ep" by (cases r) (auto simp: client_with_env_def)
  from triple_ep_ctor[OF c, of P] r obtain e where e: "ep = \<lparr>ep_h = Some e\<rparr>"
    "rma_triple P s s1 (add_mset (F_ep e) P)" by auto
  obtain k' s2 where i: "import_rkey api e (hs_rkey hs) s1 = (k', s2)" by fastforce
  from assms c r e(1) i obtain k t where k: "k' = Inr k"
    "client_with_rkey unwind fuel api la ctx wk e do_put hs k s2 = Some (Ret n, t)"
    "s' = UcxEndpoint_dtor \<lparr>ep_h = Some e\<rparr> t"
    by (cases k') (auto simp: client_with_env_def)
  let ?R = "add_mset (F_ep e) P"
  note e(2)
  also have "rma_triple ?R s1 s2 (add_mset (F_rkey k) ?R)" using triple_import_rkey[OF i, of ?R] k(1) by simp
  also have "rma_triple (add_mset (F_rkey k) ?R) s2 t ?R" using client_with_rkey_Ret[OF k(2)] by blast
  also have "rma_triple ?R t s' P" unfolding k(3) by (rule triple_ep_dtor)
  finally show ?thesis using client_with_rkey_Ret[OF k(2)] by simp
qed

lemma client_main_Ret:
  assumes "rma_client_main unwind fuel api la argv s = Some (Ret n, s')"
  shows "rma_triple P s s' P \<and> (n = 0 \<longleftrightarrow> 4 \<le> length argv)"
proof (cases "length argv < 4")
  case True
  with assms show ?thesis by (auto simp: rma_client_main_def intro: rma_triple_same)
next
  case False
  let ?port = "word_of_int (strtoul (argv ! 2)) :: u16"
  obtain c s1 where c: "tcp_connect api (argv ! 1) ?port s = (c, s1)" by fastforce
  from assms False c obtain fd where fd: "c = Inr fd"
    by (cases c) (auto simp: rma_client_main_def Let_def die_def split: if_splits)
  obtain h s2 where h: "recv_fd api fd s1 = (h, s2)" by fastforce
  from assms False c fd h obtain hs where hs: "h = Inr hs"
    by (cases h) (auto simp: rma_client_main_def Let_def die_def split: if_splits)
  obtain v s3 where v: "UcxEnv_ctor api (tcp_close api fd s2) = (v, s3)" by fastforce
  from assms False c fd h hs v obtain env where env: "v = Inr env"
    by (cases v) (auto simp: rma_client_main_def Let_def die_def split: if_splits)
  from triple_env_ctor[OF v, of P] env obtain cx wk where
    e: "env = \<lparr>env_ctx = Some cx, env_worker = Some wk\<rparr>"
    "rma_triple P (tcp_close api fd s2) s3 (add_mset (F_worker wk) (add_mset (F_ctx cx) P))" by auto
  let ?R = "add_mset (F_worker wk) (add_mset (F_ctx cx) P)"
  from assms False c fd h hs v env e(1) obtain do_put t where
    t: "client_with_env unwind fuel api la cx wk do_put hs s3 = Some (Ret n, t)" "s' = UcxEnv_dtor env t"
    by (auto simp: rma_client_main_def Let_def die_def split: if_splits)
  have "rma_triple P s s1 (add_mset (F_fd fd) P)" using c fd by (auto intro: triple_connect)
  also have "rma_triple (add_mset (F_fd fd) P) s1 s2 (add_mset (F_fd fd) P)"
    using recv_fd_trace[of api fd s1] h by (intro rma_triple_same) simp
  also have "rma_triple (add_mset (F_fd fd) P) s2 (tcp_close api fd s2) P" by (rule triple_close)
  also note e(2)
  also have "rma_triple ?R s3 t ?R" using client_with_env_Ret[OF t(1)] by blast
  also have "rma_triple ?R t s' P" unfolding t(2) e(1) by (rule triple_env_dtor)
  finally show ?thesis using client_with_env_Ret[OF t(1)] False by simp
qed

section \<open>The calls of a PUT\<close>

definition frees :: "ucs_ptr \<Rightarrow> rma_call list" where
  "frees p = (case as_request p of None \<Rightarrow> [] | Some r \<Rightarrow> [M_request_free r])"

lemma client_op_put_trace:
  assumes "client_op fuel api wk e True la raddr k mh s = Some (Ret n, s')"
  shows "\<exists>p q. r_trace s' = r_trace s @ M_put e la (r_lbuf s) raddr k mh p # frees p @ M_flush e mh q # frees q @ [M_rkey_destroy k]"
proof -
  obtain p s1 where p: "put_nbx api e la raddr k mh s = (p, s1)" by fastforce
  from assms p obtain s2 where w: "env_wait fuel api wk (as_request p) s1 = Some (UCS_OK, s2)"
    by (auto simp: client_op_def die_def split: if_splits bind_splits)
  obtain q s3 where q: "flush_nbx api e mh s2 = (q, s3)" by fastforce
  from assms p w q obtain s4 where
    w2: "env_wait fuel api wk (as_request q) s3 = Some (UCS_OK, s4)"
    and f: "client_finish True k s4 = (Ret n, s')"
    by (auto simp: client_op_def die_def split: if_splits bind_splits)
  have "r_trace s1 = r_trace s @ [M_put e la (r_lbuf s) raddr k mh p]" using p by (auto simp: put_nbx_def split: prod.splits)
  moreover have "r_trace s3 = r_trace s2 @ [M_flush e mh q]" using q by (auto simp: flush_nbx_def split: prod.splits)
  moreover have "r_trace s' = r_trace s4 @ [M_rkey_destroy k]"
    using f by (auto simp: client_finish_def destroy_rkey_def)
  ultimately show ?thesis
    using env_wait_trace[OF w] env_wait_trace[OF w2] by (auto simp: frees_def)
qed

lemma client_put_trace:
  assumes "client_with_env unwind fuel api la c wk True hs s = Some (Ret n, s')"
  shows "\<exists>e k mh p q. r_trace s' = r_trace s @
     [M_ep_create wk (worker_addr hs) e, M_rkey_unpack e (hs_rkey hs) k, M_mem_map c la (unat (hs_size hs)) mh,
      M_put e la (put_pattern (unat (hs_size hs))) (remote_addr hs) k mh p] @ frees p @
     M_flush e mh q # frees q @ [M_rkey_destroy k, M_mem_unmap c mh, M_ep_destroy e]"
proof -
  obtain r s1 where c: "UcxEndpoint_ctor api wk (worker_addr hs) s = (r, s1)" by fastforce
  with assms obtain ep where r: "r = Inr ep" by (cases r) (auto simp: client_with_env_def)
  from c r obtain e where e: "ep = \<lparr>ep_h = Some e\<rparr>" "r_trace s1 = r_trace s @ [M_ep_create wk (worker_addr hs) e]"
    by (auto simp: UcxEndpoint_ctor_def Let_def split: prod.splits if_splits)
  obtain k' s2 where i: "import_rkey api e (hs_rkey hs) s1 = (k', s2)" by fastforce
  from assms c r e(1) i obtain k t where k: "k' = Inr k"
    "client_with_rkey unwind fuel api la c wk e True hs k s2 = Some (Ret n, t)"
    "s' = UcxEndpoint_dtor \<lparr>ep_h = Some e\<rparr> t"
    by (cases k') (auto simp: client_with_env_def)
  from i k(1) have t2: "r_trace s2 = r_trace s1 @ [M_rkey_unpack e (hs_rkey hs) k]"
    by (auto simp: import_rkey_def Let_def split: prod.splits if_splits)
  let ?s2 = "s2\<lparr>r_lbuf := put_pattern (unat (hs_size hs))\<rparr>"
  obtain m s3 where m: "UcxMem_ctor api c la (length (r_lbuf ?s2)) ?s2 = (m, s3)" by fastforce
  with k(2) obtain lmem where lm: "m = Inr lmem" by (cases m) (auto simp: client_with_rkey_def Let_def)
  with m obtain mh where mh: "mem_memh lmem = Some mh" "mem_ctx lmem = Some c"
    "r_trace s3 = r_trace s2 @ [M_mem_map c la (unat (hs_size hs)) mh]" "r_lbuf s3 = put_pattern (unat (hs_size hs))"
    by (auto simp: UcxMem_ctor_def put_pattern_def Let_def split: prod.splits if_splits)
  from k(2) m lm mh(1) obtain t' where
    t': "client_op fuel api wk e True la (remote_addr hs) k mh s3 = Some (Ret n, t')" "t = UcxMem_dtor lmem t'"
    by (auto simp: client_with_rkey_def Let_def)
  from client_op_put_trace[OF t'(1)] mh(4) obtain p q where
    "r_trace t' = r_trace s3 @ M_put e la (put_pattern (unat (hs_size hs))) (remote_addr hs) k mh p # frees p @
       M_flush e mh q # frees q @ [M_rkey_destroy k]" by auto
  then show ?thesis
    using k(3) t'(2) mh(1-3) t2 e(2) by (auto simp: UcxMem_dtor_def UcxEndpoint_dtor_def)
qed

section \<open>The server\<close>

lemma triple_server_turn:
  assumes "server_turn api sv s = (Inr sv', s')"
  shows "rma_triple P s s' P \<and> sv_hs sv' = sv_hs sv \<and> sv_worker sv' = sv_worker sv \<and> sv_lfd sv' = sv_lfd sv"
proof -
  let ?s0 = "env_progress api (sv_worker sv) s"
  obtain cfd s1 where a: "accept_nonblock api (sv_lfd sv) ?s0 = (cfd, s1)" by fastforce
  let ?R = "if cfd \<ge> 0 then add_mset (F_fd cfd) P else P"
  have one: "rma_triple P s ?s0 P" by (rule rma_triple_same) simp
  also have "rma_triple P ?s0 s1 ?R" using a by (rule triple_accept)
  finally have acc: "rma_triple P s s1 ?R" .
  from assms a obtain s2 where s2: "(if cfd \<ge> 0 then
                  try_bind (send_fd api (sv_hs sv) cfd s1) (\<lambda>_ s.
                    let s = tcp_close api cfd s
                    in (Inr (), s\<lparr>r_out := r_out s @ [Out_handshake_sent (unat (hs_size (sv_hs sv)))]\<rparr>))
                else (Inr (), s1)) = (Inr (), s2)"
    by (auto simp: server_turn_def try_bind_Inr)
  have two: "rma_triple ?R s1 s2 P"
  proof (cases "cfd \<ge> 0")
    case True
    with s2 obtain t where t: "send_fd api (sv_hs sv) cfd s1 = (Inr (), t)"
      "r_trace s2 = r_trace (tcp_close api cfd t)" by (auto simp: try_bind_Inr Let_def)
    have "r_trace t = r_trace s1" using send_fd_trace[of api "sv_hs sv" cfd s1] t(1) by simp
    then have "rma_triple ?R s1 t ?R" by (rule rma_triple_same)
    also have "rma_triple ?R t (tcp_close api cfd t) P" using True by (simp add: triple_close)
    also have "rma_triple P (tcp_close api cfd t) s2 P" using t(2) by (simp add: rma_triple_same)
    finally show ?thesis .
  next
    case False
    with s2 show ?thesis by (simp add: rma_triple_same)
  qed
  have "r_trace s' = r_trace s2" "sv_hs sv' = sv_hs sv" "sv_worker sv' = sv_worker sv" "sv_lfd sv' = sv_lfd sv"
    using assms a s2 by (auto simp: server_turn_def Let_def split: prod.splits if_splits)
  then show ?thesis
    using rma_triple_trans[OF rma_triple_trans[OF acc two] rma_triple_same[of s' s2]] by simp
qed

lemma triple_server_loop:
  "server_loop n api sv s = (Inr sv', s') \<Longrightarrow> rma_triple P s s' P \<and> sv_hs sv' = sv_hs sv"
proof (induction n arbitrary: sv s)
  case 0
  then show ?case by (simp add: rma_triple_same)
next
  case (Suc n)
  then obtain sv1 s1 where t: "server_turn api sv s = (Inr sv1, s1)" "server_loop n api sv1 s1 = (Inr sv', s')"
    by (auto simp: try_bind_Inr)
  from triple_server_turn[OF t(1), of P] Suc.IH[OF t(2)] show ?case by (auto intro: rma_triple_trans)
qed

lemma server_scope_Inr [simp]: "server_scope unwind dtor r = (Inr x, s) \<longleftrightarrow> r = (Inr x, s)"
  by (auto simp: server_scope_def split: sum.splits prod.splits)

lemma server_setup_owns:
  assumes "server_setup unwind api buf port sz loop s = (Inr x, s')"
  shows "\<exists>sv s1 c mh. loop sv s1 = (Inr x, s') \<and> rma_triple P s s1
      (add_mset (F_fd (sv_lfd sv)) (add_mset (F_mem mh) (add_mset (F_worker (sv_worker sv)) (add_mset (F_ctx c) P)))) \<and>
     remote_addr (sv_hs sv) = buf \<and> hs_size (sv_hs sv) = of_nat sz"
proof -
  let ?s0 = "s\<lparr>r_lbuf := server_pattern sz\<rparr>"
  from assms obtain env s1 waddr s2 mem s3 rk s4 lfd s5 where
    1: "UcxEnv_ctor api ?s0 = (Inr env, s1)" and
    2: "worker_address_bytes api (the (env_worker env)) s1 = (Inr waddr, s2)" and
    3: "UcxMem_ctor api (the (env_ctx env)) buf sz s2 = (Inr mem, s3)" and
    4: "pack_rkey api (the (env_ctx env)) (the (mem_memh mem)) s3 = (Inr rk, s4)" and
    5: "tcp_listen api port s4 = (Inr lfd, s5)" and
    lp: "loop \<lparr>sv_worker = the (env_worker env), sv_lfd = lfd, sv_hs = \<lparr>worker_addr = waddr, hs_rkey = rk, remote_addr = buf,
        hs_size = of_nat sz\<rparr>, sv_last_print = fst (sys_now api (r_world s5))\<rparr>
       (s5\<lparr>r_world := snd (sys_now api (r_world s5)), r_out := r_out s5 @ [Out_listening port]\<rparr>) = (Inr x, s')"
    by (auto simp: server_setup_def try_bind_Inr split_beta)
  define sv where "sv = \<lparr>sv_worker = the (env_worker env), sv_lfd = lfd, sv_hs = \<lparr>worker_addr = waddr, hs_rkey = rk,
      remote_addr = buf, hs_size = of_nat sz\<rparr>, sv_last_print = fst (sys_now api (r_world s5))\<rparr>"
  define s6 where "s6 = s5\<lparr>r_world := snd (sys_now api (r_world s5)), r_out := r_out s5 @ [Out_listening port]\<rparr>"
  have 6: "r_trace s6 = r_trace s5" "sv_worker sv = the (env_worker env)" "sv_lfd sv = lfd"
    "remote_addr (sv_hs sv) = buf" "hs_size (sv_hs sv) = of_nat sz" "loop sv s6 = (Inr x, s')"
    using lp by (simp_all add: sv_def s6_def)
  from triple_env_ctor[OF 1, of P] obtain c wk where
    e: "env = \<lparr>env_ctx = Some c, env_worker = Some wk\<rparr>"
    "rma_triple P ?s0 s1 (add_mset (F_worker wk) (add_mset (F_ctx c) P))" by auto
  let ?R = "add_mset (F_worker wk) (add_mset (F_ctx c) P)"
  from triple_mem_ctor[OF 3, of ?R] obtain mh where mh: "rma_triple ?R s2 s3 (add_mset (F_mem mh) ?R)" by auto
  let ?M = "add_mset (F_mem mh) ?R"
  have "rma_triple P s ?s0 P" by (rule rma_triple_same) simp
  also note e(2)
  also have "rma_triple ?R s1 s2 ?R" using 2 by (rule triple_worker_address)
  also note mh
  also have "rma_triple ?M s3 s4 ?M" using 4 by (rule triple_pack_rkey)
  also have "rma_triple ?M s4 s5 (add_mset (F_fd lfd) ?M)" using 5 by (rule triple_listen)
  also have "rma_triple (add_mset (F_fd lfd) ?M) s5 s6 (add_mset (F_fd lfd) ?M)"
    using 6(1) by (rule rma_triple_same)
  finally show ?thesis using 6 e(1) by (intro exI[of _ sv] exI[of _ s6] exI[of _ c] exI[of _ mh]) simp
qed

section \<open>Exceptions\<close>

text \<open>
  From \<open>s\<close> to \<open>s'\<close> everything that was acquired has been released again, except for a rest that
  satisfies \<open>A\<close>.
\<close>

definition leaves :: "(rma_res multiset \<Rightarrow> bool) \<Rightarrow> 'w rma \<Rightarrow> 'w rma \<Rightarrow> bool" where
  "leaves A s s' \<longleftrightarrow> (\<exists>M. A M \<and> (\<forall>P. rma_triple P s s' (M + P)))"

lemma leavesI: "(\<And>P. rma_triple P s s' (M + P)) \<Longrightarrow> A M \<Longrightarrow> leaves A s s'"
  by (auto simp: leaves_def)

lemma leaves_none: "(\<And>P. rma_triple P s s' P) \<Longrightarrow> A {#} \<Longrightarrow> leaves A s s'"
  by (rule leavesI[where M = "{#}"]) simp_all

lemma leaves_mono: "leaves A s s' \<Longrightarrow> (\<And>M. A M \<Longrightarrow> B M) \<Longrightarrow> leaves B s s'"
  unfolding leaves_def by blast

lemma leaves_after:
  assumes "\<And>P. rma_triple P s s1 (R + P)" "leaves A s1 s'"
  shows "leaves (\<lambda>M. \<exists>M'. A M' \<and> M = M' + R) s s'"
proof -
  from assms(2) obtain M where M: "A M" "\<And>P. rma_triple P s1 s' (M + P)" by (auto simp: leaves_def)
  have "rma_triple P s s' (M + R + P)" for P
    using rma_triple_trans[OF assms(1)[of P] M(2)[of "R + P"]] by (simp add: ac_simps)
  then show ?thesis using M(1) by (auto intro: leavesI)
qed

lemma leaves_trans [trans]:
  assumes "\<And>P. rma_triple P s s1 P" "leaves A s1 s'"
  shows "leaves A s s'"
  using leaves_after[of s s1 "{#}" A s'] assms by simp

text \<open>An object that the unwinding destroys.\<close>

lemma leaves_object:
  assumes "\<And>P. rma_triple P s s1 (R + P)" "leaves A s1 t" "\<And>P. rma_triple (R + P) t s' P"
  shows "leaves A s s'"
proof -
  from assms(2) obtain M where M: "A M" "\<And>P. rma_triple P s1 t (M + P)" by (auto simp: leaves_def)
  have "rma_triple P s s' (M + P)" for P
  proof -
    note assms(1)[of P]
    also note M(2)[of "R + P"]
    also have "rma_triple (M + (R + P)) t s' (M + P)" using assms(3)[of "M + P"] by (simp add: ac_simps)
    finally show ?thesis .
  qed
  with M(1) show ?thesis by (auto intro: leavesI)
qed

text \<open>The same for an object that is destroyed only if the stack is unwound.\<close>

lemma leaves_scope:
  assumes "\<And>P. rma_triple P s s1 (R + P)" "leaves A s1 t" "\<And>P. rma_triple (R + P) t (dtor t) P"
  shows "leaves (\<lambda>M. if unwind then A M else \<exists>M'. A M' \<and> M = M' + R) s (if unwind then dtor t else t)"
proof (cases unwind)
  case True
  then show ?thesis using leaves_object[OF assms] by simp
next
  case False
  then show ?thesis using leaves_after[OF assms(1,2)] by simp
qed

definition fds :: "nat \<Rightarrow> rma_res multiset \<Rightarrow> bool" where
  "fds n M \<longleftrightarrow> (\<exists>F. size F \<le> n \<and> M = image_mset F_fd F)"

lemma fds_simps [simp]: "fds n {#}" "fds n M \<Longrightarrow> fds (Suc n) (add_mset (F_fd fd) M)"
  unfolding fds_def by (auto intro: exI[of _ "add_mset fd F" for F])

lemma fds_mono: "fds m M \<Longrightarrow> m \<le> n \<Longrightarrow> fds n M"
  by (auto simp: fds_def intro: le_trans)

lemma leaves_fds_mono: "leaves (fds m) s s' \<Longrightarrow> m \<le> n \<Longrightarrow> leaves (fds n) s s'"
  by (erule leaves_mono) (rule fds_mono)

lemma leaves_socket:
  assumes "\<And>P. rma_triple P s s1 (add_mset (F_fd fd) P)" "leaves (fds n) s1 s'"
  shows "leaves (fds (Suc n)) s s'"
  using leaves_after[of s s1 "{#F_fd fd#}" "fds n" s'] assms by (auto elim: leaves_mono)

lemma try_bind_Inl:
  "try_bind r f = (Inl e, t) \<longleftrightarrow> r = (Inl e, t) \<or> (\<exists>x s. r = (Inr x, s) \<and> f x s = (Inl e, t))"
  by (auto simp: try_bind_def split: sum.splits prod.splits)

subsection \<open>The server\<close>

lemma server_scope_Inl:
  "server_scope unwind dtor r = (Inl e, s') \<longleftrightarrow> (\<exists>t. r = (Inl e, t) \<and> s' = (if unwind then dtor t else t))"
  by (auto simp: server_scope_def split: sum.splits prod.splits)

lemma one_socket_at_most:
  assumes "r_trace s' = r_trace s \<or> (\<exists>fd. r_trace s' = r_trace s @ [M_socket fd])"
  shows "leaves (fds (Suc 0)) s s'"
  using assms
proof (elim disjE exE)
  assume "r_trace s' = r_trace s"
  then show ?thesis by (intro leaves_none rma_triple_same) simp_all
next
  fix fd assume "r_trace s' = r_trace s @ [M_socket fd]"
  then have "rma_triple P s s' ({#F_fd fd#} + P)" for P by (auto simp: rma_triple_simps)
  then show ?thesis by (rule leavesI) simp
qed

lemma listen_throws: "tcp_listen api port s = (Inl e, s') \<Longrightarrow> leaves (fds (Suc 0)) s s'"
  by (rule one_socket_at_most) (auto simp: tcp_listen_def Let_def split: prod.splits if_splits)

lemma connect_throws: "tcp_connect api ip port s = (Inl e, s') \<Longrightarrow> leaves (fds (Suc 0)) s s'"
  by (rule one_socket_at_most) (auto simp: tcp_connect_def Let_def split: prod.splits if_splits option.splits)

lemma server_turn_throws:
  assumes "server_turn api sv s = (Inl e, s')"
  shows "leaves (fds (Suc 0)) s s'"
proof -
  let ?s0 = "env_progress api (sv_worker sv) s"
  obtain cfd s1 where a: "accept_nonblock api (sv_lfd sv) ?s0 = (cfd, s1)" by fastforce
  from assms a have c: "cfd \<ge> 0" and sd: "send_fd api (sv_hs sv) cfd s1 = (Inl e, s')"
    by (auto simp: server_turn_def Let_def try_bind_Inl split_beta split: if_splits)
  have "rma_triple P s ?s0 P" for P by (rule rma_triple_same) simp
  from rma_triple_trans[OF this triple_accept[OF a]] c have "rma_triple P s s1 (add_mset (F_fd cfd) P)" for P by simp
  moreover have "leaves (fds 0) s1 s'"
    using send_fd_trace[of api "sv_hs sv" cfd s1] sd by (intro leaves_none rma_triple_same) simp_all
  ultimately show ?thesis using leaves_socket[of s s1 cfd 0 s'] by blast
qed

lemma server_loop_throws: "server_loop n api sv s = (Inl e, s') \<Longrightarrow> leaves (fds (Suc 0)) s s'"
proof (induction n arbitrary: sv s)
  case (Suc n)
  from Suc.prems have "server_turn api sv s = (Inl e, s') \<or>
      (\<exists>sv1 s1. server_turn api sv s = (Inr sv1, s1) \<and> server_loop n api sv1 s1 = (Inl e, s'))"
    by (simp add: try_bind_Inl)
  then show ?case
  proof (elim disjE exE conjE)
    fix sv1 s1 assume t: "server_turn api sv s = (Inr sv1, s1)" and l: "server_loop n api sv1 s1 = (Inl e, s')"
    have "rma_triple P s s1 P" for P using triple_server_turn[OF t] by blast
    then show ?thesis using Suc.IH[OF l] by (rule leaves_trans)
  qed (rule server_turn_throws)
qed simp

text \<open>The inner, the middle and the outer scope of \<open>main\<close>.\<close>

lemma server_listen_throws:
  assumes "try_bind (pack_rkey api c mh s) (\<lambda>rk s. try_bind (tcp_listen api port s) (k rk)) = (Inl e, s')"
    and k: "\<And>rk lfd u u'. k rk lfd u = (Inl e, u') \<Longrightarrow> leaves (fds (Suc 0)) u u'"
  shows "leaves (fds 2) s s'"
proof -
  obtain r s1 where 1: "pack_rkey api c mh s = (r, s1)" by fastforce
  have 0: "rma_triple P s s1 P" for P using 1 by (rule triple_pack_rkey)
  have "leaves (fds 2) s1 s'"
  proof (cases r)
    case (Inl err)
    with assms(1) 1 show ?thesis by (auto intro: leaves_none rma_triple_same)
  next
    case (Inr rk)
    obtain q s2 where 2: "tcp_listen api port s1 = (q, s2)" by fastforce
    show ?thesis
    proof (cases q)
      case (Inl err)
      with assms(1) 1 2 Inr have "leaves (fds (Suc 0)) s1 s'" by (auto intro: listen_throws)
      then show ?thesis by (rule leaves_fds_mono) simp
    next
      case Inr2: (Inr lfd)
      with assms(1) 1 2 Inr have "leaves (fds (Suc 0)) s2 s'" by (auto intro: k)
      moreover have "rma_triple P s1 s2 (add_mset (F_fd lfd) P)" for P using 2 Inr2 by (auto intro: triple_listen)
      ultimately have "leaves (fds (Suc (Suc 0))) s1 s'" by (rule leaves_socket[rotated])
      then show ?thesis by (simp add: numeral_2_eq_2)
    qed
  qed
  with 0 show ?thesis by (rule leaves_trans)
qed

text \<open>What the two scopes leave behind besides sockets when the stack is not unwound.\<close>

definition mem_left :: "bool \<Rightarrow> rma_res multiset \<Rightarrow> bool" where
  "mem_left unwind M \<longleftrightarrow> (\<exists>F X. fds 2 F \<and> M = F + X \<and> (X = {#} \<or> \<not> unwind \<and> (\<exists>mh. X = {#F_mem mh#})))"

definition main_left :: "bool \<Rightarrow> rma_res multiset \<Rightarrow> bool" where
  "main_left unwind M \<longleftrightarrow> (\<exists>F X. fds 2 F \<and> M = F + X \<and> (X = {#} \<or> \<not> unwind \<and>
     (\<exists>wk c. X = {#F_worker wk, F_ctx c#} \<or> (\<exists>mh. X = {#F_worker wk, F_ctx c, F_mem mh#}))))"

lemma left_none [simp]: "mem_left unwind {#}" "main_left unwind {#}"
  by (simp_all add: mem_left_def main_left_def)

lemma server_mem_throws:
  assumes "try_bind (worker_address_bytes api wk s) (\<lambda>wa s. try_bind (UcxMem_ctor api c buf sz s)
      (\<lambda>mem s. server_scope unwind (UcxMem_dtor mem) (k wa mem s))) = (Inl e, s')"
    and k: "\<And>wa mem u u'. k wa mem u = (Inl e, u') \<Longrightarrow> leaves (fds 2) u u'"
  shows "leaves (mem_left unwind) s s'"
proof -
  obtain r s1 where 1: "worker_address_bytes api wk s = (r, s1)" by fastforce
  have 0: "rma_triple P s s1 P" for P using 1 by (rule triple_worker_address)
  have "leaves (mem_left unwind) s1 s'"
  proof (cases r)
    case (Inl err)
    with assms(1) 1 show ?thesis by (auto intro: leaves_none rma_triple_same)
  next
    case (Inr wa)
    obtain q s2 where 2: "UcxMem_ctor api c buf sz s1 = (q, s2)" by fastforce
    show ?thesis
    proof (cases q)
      case (Inl err)
      then have "rma_triple P s1 s2 P" for P using triple_mem_ctor[OF 2, of P] by simp
      with assms(1) 1 2 Inr Inl show ?thesis by (auto intro: leaves_none)
    next
      case Inr2: (Inr mem)
      with assms(1) 1 2 Inr obtain t where t: "k wa mem s2 = (Inl e, t)" "s' = (if unwind then UcxMem_dtor mem t else t)"
        by (auto simp: server_scope_Inl)
      from triple_mem_ctor[OF 2, of "{#}"] Inr2 obtain mh where "mem_memh mem = Some mh" by auto
      with triple_mem_ctor[OF 2] Inr2 have "rma_triple P s1 s2 ({#F_mem mh#} + P)" for P by fastforce
      moreover have "rma_triple ({#F_mem mh#} + P) t (UcxMem_dtor mem t) P" for P
        using triple_mem_dtor[OF \<open>mem_memh mem = Some mh\<close>, of P t] by simp
      ultimately have "leaves (\<lambda>M. if unwind then fds 2 M else \<exists>M'. fds 2 M' \<and> M = M' + {#F_mem mh#}) s1 s'"
        unfolding t(2) by (intro leaves_scope[OF _ k[OF t(1)]])
      then show ?thesis by (rule leaves_mono) (auto simp: mem_left_def split: if_splits)
    qed
  qed
  with 0 show ?thesis by (rule leaves_trans)
qed

lemma main_leftI:
  assumes "if unwind then mem_left unwind M else \<exists>M'. mem_left unwind M' \<and> M = M' + {#F_worker wk, F_ctx c#}"
  shows "main_left unwind M"
proof (cases unwind)
  case True
  with assms show ?thesis by (auto simp: mem_left_def main_left_def)
next
  case False
  with assms obtain F X where "fds 2 F" "M = F + (X + {#F_worker wk, F_ctx c#})" "X = {#} \<or> (\<exists>mh. X = {#F_mem mh#})"
    by (auto simp: mem_left_def)
  moreover from this(3) have "\<exists>wk' c'. X + {#F_worker wk, F_ctx c#} = {#F_worker wk', F_ctx c'#} \<or>
      (\<exists>mh. X + {#F_worker wk, F_ctx c#} = {#F_worker wk', F_ctx c', F_mem mh#})" by auto
  ultimately show ?thesis unfolding main_left_def using False by blast
qed

lemma server_setup_throws:
  assumes "server_setup unwind api buf port sz loop s = (Inl e, s')"
    and loop: "\<And>sv u u'. loop sv u = (Inl e, u') \<Longrightarrow> leaves (fds (Suc 0)) u u'"
  shows "leaves (main_left unwind) s s'"
proof -
  let ?s0 = "s\<lparr>r_lbuf := server_pattern sz\<rparr>"
  obtain r s1 where 1: "UcxEnv_ctor api ?s0 = (r, s1)" by fastforce
  have 0: "rma_triple P s ?s0 P" for P by (rule rma_triple_same) simp
  show ?thesis
  proof (cases r)
    case (Inl err)
    then have "rma_triple P ?s0 s1 P" for P using triple_env_ctor[OF 1, of P] by simp
    with 0 have "rma_triple P s s1 P" for P by (blast intro: rma_triple_trans)
    with assms(1) 1 Inl show ?thesis by (auto simp: server_setup_def intro: leaves_none)
  next
    case (Inr env)
    from assms(1) 1 Inr obtain t where t: "try_bind (worker_address_bytes api (the (env_worker env)) s1) (\<lambda>waddr s.
        try_bind (UcxMem_ctor api (the (env_ctx env)) buf sz s) (\<lambda>mem s. server_scope unwind (UcxMem_dtor mem) (
        try_bind (pack_rkey api (the (env_ctx env)) (the (mem_memh mem)) s) (\<lambda>rkey s.
        try_bind (tcp_listen api port s) (\<lambda>lfd s.
          let (now, w) = sys_now api (r_world s)
          in loop \<lparr>sv_worker = the (env_worker env), sv_lfd = lfd,
                sv_hs = \<lparr>worker_addr = waddr, hs_rkey = rkey, remote_addr = buf, hs_size = of_nat sz\<rparr>,
                sv_last_print = now\<rparr>
           (s\<lparr>r_world := w, r_out := r_out s @ [Out_listening port]\<rparr>)))))) = (Inl e, t)"
      and s': "s' = (if unwind then UcxEnv_dtor env t else t)"
      by (auto simp: server_setup_def server_scope_Inl)
    have k: "leaves (fds (Suc 0)) u u'" if "(let (now, w) = sys_now api (r_world u) in loop (sv now) (u\<lparr>r_world := w, r_out := x\<rparr>)) = (Inl e, u')"
      for sv u u' x
    proof -
      from that have "leaves (fds (Suc 0)) (u\<lparr>r_world := snd (sys_now api (r_world u)), r_out := x\<rparr>) u'"
        by (auto simp: split_beta intro: loop)
      then show ?thesis by (rule leaves_trans[rotated]) (simp add: rma_triple_same)
    qed
    have l: "leaves (mem_left unwind) s1 t"
      by (rule server_mem_throws[OF t], erule server_listen_throws, erule k)
    from triple_env_ctor[OF 1, of "{#}"] Inr obtain c wk where env: "env = \<lparr>env_ctx = Some c, env_worker = Some wk\<rparr>" by auto
    let ?R = "{#F_worker wk, F_ctx c#}"
    have "rma_triple P ?s0 s1 (?R + P)" for P using triple_env_ctor[OF 1, of P] Inr env by simp
    from rma_triple_trans[OF 0 this] have "rma_triple P s s1 (?R + P)" for P .
    moreover have "rma_triple (?R + P) t (UcxEnv_dtor env t) P" for P using triple_env_dtor[of wk c P t] env by simp
    ultimately have "leaves (\<lambda>M. if unwind then mem_left unwind M else \<exists>M'. mem_left unwind M' \<and> M = M' + ?R) s s'"
      unfolding s' by (intro leaves_scope[OF _ l])
    then show ?thesis by (rule leaves_mono) (rule main_leftI)
  qed
qed

subsection \<open>The client\<close>

definition key_at_most :: "rma_res multiset \<Rightarrow> bool" where
  "key_at_most M \<longleftrightarrow> M = {#} \<or> (\<exists>k. M = {#F_rkey k#})"

lemma client_op_throws:
  assumes "client_op fuel api wk e do_put la raddr k mh s = Some (Uncaught err, s')"
  shows "rma_triple (add_mset (F_rkey k) P) s s' P"
proof -
  let ?R = "add_mset (F_rkey k) P"
  have fin: "rma_triple ?R u (destroy_rkey (Some k) u) P" for u :: "'a rma"
    by (auto simp: destroy_rkey_def rma_triple_simps)
  have er: "rma_triple ?R u u' ?R" if "rma_triple ?R u u' (?R + req_res p)" "UCS_PTR_IS_ERR p" for u u' :: "'a rma" and p
    using that by (cases p) simp_all
  show ?thesis
  proof (cases do_put)
    case True
    obtain p s1 where p: "put_nbx api e la raddr k mh s = (p, s1)" by fastforce
    show ?thesis
    proof (cases "UCS_PTR_IS_ERR p")
      case True
      with assms p \<open>do_put\<close> have "s' = destroy_rkey (Some k) s1" by (auto simp: client_op_def)
      with er[OF triple_put[OF p] True] fin show ?thesis by (auto intro: rma_triple_trans)
    next
      case False
      with assms p True obtain s2 q s3 where w: "env_wait fuel api wk (as_request p) s1 = Some (UCS_OK, s2)"
        and q: "flush_nbx api e mh s2 = (q, s3)" "UCS_PTR_IS_ERR q" "s' = destroy_rkey (Some k) s3"
        by (auto simp: client_op_def die_def client_finish_def split: if_splits bind_splits prod.splits)
      have "rma_triple ?R s s1 (?R + req_res p)" using p by (rule triple_put)
      also have "rma_triple (?R + req_res p) s1 s2 ?R" using w False by (rule triple_env_wait)
      also have "rma_triple ?R s2 s3 ?R" using er[OF triple_flush[OF q(1)] q(2)] .
      also have "rma_triple ?R s3 s' P" unfolding q(3) by (rule fin)
      finally show ?thesis .
    qed
  next
    case False
    obtain p s1 where p: "get_nbx api e la raddr k mh s = (p, s1)" by fastforce
    with assms False have "UCS_PTR_IS_ERR p" "s' = destroy_rkey (Some k) s1"
      by (auto simp: client_op_def die_def client_finish_def split: if_splits bind_splits)
    with er[OF triple_get[OF p]] fin show ?thesis by (auto intro: rma_triple_trans)
  qed
qed

lemma key_at_most_simps [simp]: "key_at_most {#}" "key_at_most {#F_rkey k#}"
  by (simp_all add: key_at_most_def)

lemma leave_scope_Uncaught [simp]:
  "leave_scope unwind dtor r = (Uncaught err, s') \<longleftrightarrow> (\<exists>t. r = (Uncaught err, t) \<and> s' = (if unwind then dtor t else t))"
  by (cases r; cases "fst r") (auto simp: leave_scope_def)

text \<open>What is left of the scopes of the client, inside out.\<close>

definition rkey_left :: "bool \<Rightarrow> rma_res multiset \<Rightarrow> bool" where
  "rkey_left unwind M \<longleftrightarrow> (\<exists>k. M = {#F_rkey k#}) \<or> (if unwind then M = {#} else \<exists>mh. M = {#F_mem mh#})"

definition ep_left :: "bool \<Rightarrow> rma_res multiset \<Rightarrow> bool" where
  "ep_left unwind M \<longleftrightarrow> (if unwind then key_at_most M
     else M = {#} \<or> (\<exists>e. M = {#F_ep e#} \<or> (\<exists>k. M = {#F_ep e, F_rkey k#}) \<or> (\<exists>mh. M = {#F_ep e, F_mem mh#})))"

definition env_left :: "bool \<Rightarrow> rma_res multiset \<Rightarrow> bool" where
  "env_left unwind M \<longleftrightarrow> M = {#} \<or> (if unwind then key_at_most M
     else \<exists>wk c X. ep_left False X \<and> M = X + {#F_worker wk, F_ctx c#})"

lemma client_with_rkey_throws:
  assumes "client_with_rkey unwind fuel api la ctx wk e do_put hs k s = Some (Uncaught err, s')"
  shows "\<exists>M. rkey_left unwind M \<and> (\<forall>P. rma_triple (add_mset (F_rkey k) P) s s' (M + P))"
proof -
  let ?s = "s\<lparr>r_lbuf := (if do_put then put_pattern (unat (hs_size hs)) else replicate (unat (hs_size hs)) 0)\<rparr>"
  have 0: "rma_triple P s ?s P" for P by (rule rma_triple_same) simp
  obtain r s1 where m: "UcxMem_ctor api ctx la (length (r_lbuf ?s)) ?s = (r, s1)" by fastforce
  show ?thesis
  proof (cases r)
    case (Inl er)
    then have "rma_triple P ?s s1 P" for P using triple_mem_ctor[OF m, of P] by simp
    from rma_triple_trans[OF 0 this] have "rma_triple P s s1 P" for P .
    with assms m Inl show ?thesis
      by (intro exI[of _ "{#F_rkey k#}"]) (auto simp: client_with_rkey_def rkey_left_def Let_def)
  next
    case (Inr lmem)
    from triple_mem_ctor[OF m, of "{#}"] Inr obtain mh where mh: "mem_memh lmem = Some mh" by auto
    with triple_mem_ctor[OF m] Inr have "rma_triple P ?s s1 (add_mset (F_mem mh) P)" for P by fastforce
    from rma_triple_trans[OF 0 this] have 1: "rma_triple P s s1 (add_mset (F_mem mh) P)" for P .
    from assms m Inr mh obtain t where t: "client_op fuel api wk e do_put la (remote_addr hs) k mh s1 = Some (Uncaught err, t)"
      "s' = (if unwind then UcxMem_dtor lmem t else t)"
      by (auto simp: client_with_rkey_def Let_def)
    have 2: "rma_triple (add_mset (F_rkey k) P) s t (add_mset (F_mem mh) P)" for P
    proof -
      note 1[of "add_mset (F_rkey k) P"]
      also have "rma_triple (add_mset (F_mem mh) (add_mset (F_rkey k) P)) s1 t (add_mset (F_mem mh) P)"
        using client_op_throws[OF t(1), of "add_mset (F_mem mh) P"] by (simp add: add_mset_commute)
      finally show ?thesis .
    qed
    show ?thesis
    proof (cases unwind)
      case True
      then show ?thesis using rma_triple_trans[OF 2 triple_mem_dtor[OF mh]] t(2)
        by (intro exI[of _ "{#}"]) (simp add: rkey_left_def)
    next
      case False
      then show ?thesis using 2 t(2) by (intro exI[of _ "{#F_mem mh#}"]) (simp add: rkey_left_def)
    qed
  qed
qed

lemma client_with_env_throws:
  assumes "client_with_env unwind fuel api la ctx wk do_put hs s = Some (Uncaught err, s')"
  shows "leaves (ep_left unwind) s s'"
proof -
  obtain r s1 where c: "UcxEndpoint_ctor api wk (worker_addr hs) s = (r, s1)" by fastforce
  show ?thesis
  proof (cases r)
    case (Inl er)
    then have "rma_triple P s s1 P" for P using triple_ep_ctor[OF c, of P] by simp
    with assms c Inl show ?thesis by (auto simp: client_with_env_def ep_left_def intro: leaves_none)
  next
    case (Inr ep)
    from triple_ep_ctor[OF c, of "{#}"] Inr obtain e where e: "ep = \<lparr>ep_h = Some e\<rparr>" by auto
    with triple_ep_ctor[OF c] Inr have 1: "rma_triple P s s1 ({#F_ep e#} + P)" for P by fastforce
    obtain q s2 where i: "import_rkey api e (hs_rkey hs) s1 = (q, s2)" by fastforce
    from assms c Inr e i obtain t where
      t: "(case q of Inl er \<Rightarrow> Some (Uncaught er, s2)
           | Inr k \<Rightarrow> client_with_rkey unwind fuel api la ctx wk e do_put hs k s2) = Some (Uncaught err, t)"
      and s': "s' = (if unwind then UcxEndpoint_dtor ep t else t)"
      by (auto simp: client_with_env_def split: sum.splits)
    have l: "leaves (\<lambda>M. M = {#} \<or> rkey_left unwind M) s1 t"
    proof (cases q)
      case (Inl er)
      then have "rma_triple P s1 s2 P" for P using triple_import_rkey[OF i, of P] by simp
      with t Inl show ?thesis by (auto intro: leaves_none)
    next
      case (Inr k)
      then have k: "rma_triple P s1 s2 (add_mset (F_rkey k) P)" for P using triple_import_rkey[OF i, of P] by simp
      from t Inr client_with_rkey_throws obtain M where M: "rkey_left unwind M" "\<And>P. rma_triple (add_mset (F_rkey k) P) s2 t (M + P)"
        by force
      from rma_triple_trans[OF k M(2)] show ?thesis by (rule leavesI) (simp add: M(1))
    qed
    have "rma_triple ({#F_ep e#} + P) t (UcxEndpoint_dtor ep t) P" for P using triple_ep_dtor[of e P t] e by simp
    from leaves_scope[where dtor = "UcxEndpoint_dtor ep", OF 1 l this, of unwind] show ?thesis unfolding s'
      by (rule leaves_mono) (auto simp: ep_left_def rkey_left_def key_at_most_def split: if_splits)
  qed
qed

lemma client_main_throws:
  assumes "rma_client_main unwind fuel api la argv s = Some (Uncaught err, s')"
  shows "leaves (\<lambda>M. fds (Suc 0) M \<or> env_left unwind M) s s'"
proof -
  let ?port = "word_of_int (strtoul (argv ! 2)) :: u16" and ?A = "\<lambda>M. fds (Suc 0) M \<or> env_left unwind M"
  obtain c s1 where c: "tcp_connect api (argv ! 1) ?port s = (c, s1)" by fastforce
  show ?thesis
  proof (cases c)
    case (Inl er)
    with assms c have "tcp_connect api (argv ! 1) ?port s = (Inl er, s')"
      by (auto simp: rma_client_main_def Let_def die_def split: if_splits)
    then show ?thesis by (intro leaves_mono[OF connect_throws]) simp_all
  next
    case (Inr fd)
    with c have 1: "rma_triple P s s1 (add_mset (F_fd fd) P)" for P by (auto intro: triple_connect)
    obtain h s2 where h: "recv_fd api fd s1 = (h, s2)" by fastforce
    have "rma_triple P s1 s2 P" for P using recv_fd_trace[of api fd s1] h by (intro rma_triple_same) simp
    from rma_triple_trans[OF 1 this] have 2: "rma_triple P s s2 (add_mset (F_fd fd) P)" for P .
    show ?thesis
    proof (cases h)
      case (Inl er)
      with assms c Inr h have "s' = s2"
        by (auto simp: rma_client_main_def Let_def die_def split: if_splits)
      with 2 show ?thesis by (intro leavesI[where M = "{#F_fd fd#}"]) simp_all
    next
      case Inr2: (Inr hs)
      let ?s3 = "tcp_close api fd s2"
      from rma_triple_trans[OF 2 triple_close] have 3: "rma_triple P s ?s3 P" for P .
      obtain v s4 where v: "UcxEnv_ctor api ?s3 = (v, s4)" by fastforce
      have "leaves (env_left unwind) ?s3 s'"
      proof (cases v)
        case (Inl er)
        then have "rma_triple P ?s3 s4 P" for P using triple_env_ctor[OF v, of P] by simp
        with assms c Inr h Inr2 v Inl show ?thesis
          by (auto simp: rma_client_main_def Let_def die_def env_left_def split: if_splits intro: leaves_none)
      next
        case Inr3: (Inr env)
        from triple_env_ctor[OF v, of "{#}"] Inr3 obtain cx wk where env: "env = \<lparr>env_ctx = Some cx, env_worker = Some wk\<rparr>" by auto
        let ?R = "{#F_worker wk, F_ctx cx#}"
        have 4: "rma_triple P ?s3 s4 (?R + P)" for P using triple_env_ctor[OF v, of P] Inr3 env by simp
        from assms c Inr h Inr2 v Inr3 env obtain do_put t where
          t: "client_with_env unwind fuel api la cx wk do_put hs s4 = Some (Uncaught err, t)" "s' = (if unwind then UcxEnv_dtor env t else t)"
          by (auto simp: rma_client_main_def Let_def die_def split: if_splits)
        have "rma_triple (?R + P) t (UcxEnv_dtor env t) P" for P using triple_env_dtor[of wk cx P t] env by simp
        from leaves_scope[where dtor = "UcxEnv_dtor env", OF 4 client_with_env_throws[OF t(1)] this, of unwind] show ?thesis unfolding t(2)
          by (rule leaves_mono) (cases unwind, simp add: env_left_def ep_left_def, auto simp: env_left_def)
      qed
      with 3 have "leaves (env_left unwind) s s'" by (rule leaves_trans)
      then show ?thesis by (rule leaves_mono) simp
    qed
  qed
qed

text \<open>The same, read from the trace of a whole run.\<close>

lemma rma_triple_run:
  assumes "rma_triple {#} s s' M" "r_trace s = []"
  shows "run_trace rma_acquires rma_releases {#} (r_trace s') = Some M"
  using assms rmr.triple_run by (auto simp: rma_triple_def)

lemma leaves_run:
  assumes "leaves A s s'" "r_trace s = []"
  shows "\<exists>M. run_trace rma_acquires rma_releases {#} (r_trace s') = Some M \<and> A M"
proof -
  from assms(1) obtain M where M: "A M" "\<And>P. rma_triple P s s' (M + P)" by (auto simp: leaves_def)
  from rma_triple_run[OF M(2)[of "{#}"] assms(2)] M(1) show ?thesis by simp
qed

lemma fds_Suc_0: "fds (Suc 0) M \<longleftrightarrow> M = {#} \<or> (\<exists>fd. M = {#F_fd fd#})"
proof -
  have "size F \<le> Suc 0 \<longleftrightarrow> F = {#} \<or> (\<exists>fd. F = {#fd#})" for F :: "int multiset"
    by (auto simp: le_Suc_eq size_1_singleton_mset)
  then show ?thesis by (auto simp: fds_def)
qed

lemma server_loop_owns:
  assumes "server_setup unwind api buf port sz (server_loop turns api) s = (Inr sv, s')"
  shows "\<exists>lfd mh wk c. rma_triple P s s' (add_mset (F_fd lfd) (add_mset (F_mem mh) (add_mset (F_worker wk) (add_mset (F_ctx c) P))))"
proof -
  from server_setup_owns[OF assms, of P] obtain sv1 s1 c mh where
    l: "server_loop turns api sv1 s1 = (Inr sv, s')" and own: "rma_triple P s s1
      (add_mset (F_fd (sv_lfd sv1)) (add_mset (F_mem mh) (add_mset (F_worker (sv_worker sv1)) (add_mset (F_ctx c) P))))" by blast
  from rma_triple_trans[OF own] triple_server_loop[OF l] show ?thesis by blast
qed

end
