(* ===== verification/Rma_Properties.thy ===== *)
theory Rma_Properties
  imports Rma_Resources
begin

text \<open>
  Properties of the RMA programs: the handshake over TCP, the order of the operations of a PUT, the
  ownership rules of the classes and the event loop of the server.
\<close>

section \<open>A concrete pipe and library\<close>

text \<open>A stream that accepts three bytes at a time and delivers two, and a library that obliges.\<close>

definition pipe_api :: "byte list rma_api" where
  "pipe_api = \<lparr>
     sys_socket = (\<lambda>w. (5, w)), sys_setsockopt = (\<lambda>fd w. (0, w)), sys_bind = (\<lambda>fd p w. (0, w)), sys_listen = (\<lambda>fd n w. (0, w)),
     sys_poll = (\<lambda>fd w. (1, True, w)), sys_accept = (\<lambda>fd w. (6, w)),
     sys_connect = (\<lambda>fd a p w. (0, w)),
     sys_send = (\<lambda>fd bs w. (int (min 3 (length bs)), w @ take 3 bs)),
     sys_recv = (\<lambda>fd len w. let n = min 2 (min len (length w)) in (int n, take n w, drop n w)),
     sys_close = (\<lambda>fd w. w), sys_now = (\<lambda>w. (0, w)), inet_pton4 = (\<lambda>a. Some [127, 0, 0, 1]),
     r_config_read = (\<lambda>w. (UCS_OK, w)), r_init = (\<lambda>w. (UCS_OK, 1, w)),
     r_worker_create = (\<lambda>c w. (UCS_OK, 2, w)), r_worker_query = (\<lambda>wk w. (UCS_OK, [9, 8, 7], w)),
     r_mem_map = (\<lambda>c b n w. (UCS_OK, 3, w)), r_rkey_pack = (\<lambda>c mh w. (UCS_OK, [4, 4], w)),
     r_ep_create = (\<lambda>wk a w. (UCS_OK, 4, w)), r_rkey_unpack = (\<lambda>e bs w. (UCS_OK, 5, w)),
     r_put = (\<lambda>e bs a k mh w. (Ptr_REQ 6, w)), r_get = (\<lambda>e n a k mh w. (Ptr_NULL, [], w)),
     r_flush = (\<lambda>e mh w. (Ptr_NULL, w)), r_progress = (\<lambda>wk w. ([], w)),
     r_check_status = (\<lambda>r w. (UCS_OK, w))\<rparr>"

lemma pipe_ok:
  "sends_into pipe_api fd (\<lambda>w. w)" "send_live pipe_api fd"
  "receives_from pipe_api fd (\<lambda>w. w)" "recv_live pipe_api fd (\<lambda>w. w)"
proof -
  show "sends_into pipe_api fd (\<lambda>w. w)"
    by (auto simp: sends_into_def pipe_api_def min_def)
  show "send_live pipe_api fd" by (simp add: send_live_def pipe_api_def)
  show "receives_from pipe_api fd (\<lambda>w. w)"
    by (auto simp: receives_from_def pipe_api_def Let_def)
  show "recv_live pipe_api fd (\<lambda>w. w)" by (simp add: recv_live_def pipe_api_def Let_def)
qed

definition demo_hs :: handshake where
  "demo_hs = \<lparr>worker_addr = [9, 8, 7], hs_rkey = [4, 4], remote_addr = 40, hs_size = 3\<rparr>"

definition demo_rma :: "byte list \<Rightarrow> byte list rma" where
  "demo_rma w = \<lparr>r_trace = [], r_lbuf = [], r_out = [], r_world = w\<rparr>"

section \<open>Handshake\<close>

text \<open>
  (C15) A handshake whose two blobs are shorter than 4 GiB crosses a TCP connection unchanged, however
  the kernel cuts the stream into pieces: sending succeeds, and the receiver that gets those bytes
  (and possibly more) returns the same handshake and leaves exactly the rest of the stream.
\<close>

theorem handshake_crosses_tcp:
  assumes "hs_fits hs" and "sends_into api fd out" "send_live api fd"
    and "receives_from api' fd' inp" "recv_live api' fd' inp"
  shows "\<exists>s'. send_fd api hs fd s = (Inr (), s') \<and>
     (\<forall>sent rest c. out (r_world s') = out (r_world s) @ sent \<longrightarrow> inp (r_world c) = sent @ rest \<longrightarrow>
        (\<exists>c'. recv_fd api' fd' c = (Inr hs, c') \<and> inp (r_world c') = rest))"
proof -
  from send_fd_out(2)[OF assms(2,3)] obtain s' where s': "send_fd api hs fd s = (Inr (), s')" by blast
  have "\<exists>c'. recv_fd api' fd' c = (Inr hs, c') \<and> inp (r_world c') = rest"
    if "out (r_world s') = out (r_world s) @ sent" "inp (r_world c) = sent @ rest" for sent rest c
  proof -
    from that send_fd_out(1)[OF assms(2) s'] have "inp (r_world c) = enc_handshake hs @ rest" by simp
    with hsc.dec_enc[OF assms(1), of rest] recv_fd_refines[OF assms(4,5), of c] show ?thesis
      by (cases "recv_fd api' fd' c") (simp add: refines_def)
  qed
  with s' show ?thesis by blast
qed

theorem handshake_crosses_tcp_witness:
  "\<exists>s'. send_fd pipe_api demo_hs 5 (demo_rma []) = (Inr (), s') \<and>
     (\<exists>c'. recv_fd pipe_api 5 (demo_rma (r_world s' @ [1])) = (Inr demo_hs, c') \<and> r_world c' = [1])"
proof -
  have "hs_fits demo_hs" by (simp add: hs_fits_def demo_hs_def)
  from handshake_crosses_tcp[OF this pipe_ok, of 5 "demo_rma []" 5] obtain s' where
    s': "send_fd pipe_api demo_hs 5 (demo_rma []) = (Inr (), s')"
    "\<forall>sent rest c. r_world s' = r_world (demo_rma []) @ sent \<longrightarrow> r_world c = sent @ rest \<longrightarrow>
        (\<exists>c'. recv_fd pipe_api 5 c = (Inr demo_hs, c') \<and> r_world c' = rest)" by blast
  from s'(2)[rule_format, of "r_world s'" "demo_rma (r_world s' @ [1])" "[1]"]
  have "\<exists>c'. recv_fd pipe_api 5 (demo_rma (r_world s' @ [1])) = (Inr demo_hs, c') \<and> r_world c' = [1]"
    by (simp add: demo_rma_def)
  with s'(1) show ?thesis by blast
qed

text \<open>
  (C16) Receiving a handshake is exactly decoding the wire format
  \<open>[u32 wlen][waddr][u32 rlen][rkey][u64 raddr][u64 size]\<close> from the stream: it returns what the
  decoder returns and consumes what it consumes, and it throws exactly when the stream ends too
  early.
\<close>

theorem recv_fd_is_decoding:
  assumes "receives_from api fd inp" "recv_live api fd inp"
  shows "case dec_handshake (inp (r_world s)) of
     Some (hs, rest) \<Rightarrow> \<exists>s'. recv_fd api fd s = (Inr hs, s') \<and> inp (r_world s') = rest \<and> r_trace s' = r_trace s
   | None \<Rightarrow> \<exists>e s'. recv_fd api fd s = (Inl e, s') \<and> r_trace s' = r_trace s"
  using recv_fd_refines[OF assms, of s]
  by (cases "recv_fd api fd s") (auto simp: refines_def split: option.splits)

theorem recv_fd_is_decoding_witness:
  "\<exists>e s'. recv_fd pipe_api 5 (demo_rma [3, 0, 0, 0, 1]) = (Inl e, s')"
proof -
  have "dec_handshake [3, 0, 0, 0, 1] = None" by code_simp
  with recv_fd_is_decoding[OF pipe_ok(3,4), of 5 "demo_rma [3, 0, 0, 0, 1]"] show ?thesis
    by (auto simp: demo_rma_def)
qed

section \<open>The client\<close>

text \<open>
  (C17) When the client returns from \<open>main\<close>, the socket, the UCP context, worker, endpoint, memory
  registration, remote key, configuration and requests it acquired have each been released exactly
  once, for any network and any UCP.
\<close>

theorem client_releases_everything:
  assumes "rma_client_main unwind fuel api lbuf_addr argv s = Some (Ret n, s')" and "r_trace s = []"
  shows "run_trace rma_acquires rma_releases {#} (r_trace s') = Some {#}"
proof -
  from client_main_Ret[OF assms(1), of "{#}"] obtain t where
    "r_trace s' = r_trace s @ t" "res_triple rma_acquires rma_releases {#} t {#}"
    by (auto simp: rma_triple_def)
  then show ?thesis using rmr.triple_run assms(2) by auto
qed

definition client_argv :: "string list" where
  "client_argv = [''client'', ''127.0.0.1'', ''9'', ''put'']"

lemma pipe_connect: "tcp_connect pipe_api ip port s = (Inr 5, r_log (M_socket 5) s)"
  by (simp add: tcp_connect_def pipe_api_def)

lemma pipe_env: "UcxEnv_ctor pipe_api s = (Inr \<lparr>env_ctx = Some 1, env_worker = Some 2\<rparr>,
   r_log (M_worker_create 2) (r_log M_config_release (r_log (M_init 1) (r_log M_config_read s))))"
  by (simp add: UcxEnv_ctor_def pipe_api_def)

lemma demo_put_run: "\<exists>s'. client_with_env False 3 pipe_api 80 1 2 True demo_hs s = Some (Ret 0, s')"
  by (simp add: client_with_env_def UcxEndpoint_ctor_def import_rkey_def client_with_rkey_def UcxMem_ctor_def
      client_op_def put_nbx_def env_wait_def rma_check_status_def flush_nbx_def client_finish_def
      leave_scope_def pipe_api_def Let_def split_beta numeral_3_eq_3)

lemma demo_client_run:
  "\<exists>s'. rma_client_main False 3 pipe_api 80 client_argv (demo_rma (enc_handshake demo_hs)) = Some (Ret 0, s')"
proof -
  let ?s = "r_log (M_socket 5) (demo_rma (enc_handshake demo_hs))"
  have "dec_handshake (r_world ?s) = Some (demo_hs, [])"
    using hsc.dec_exact[of demo_hs] by (simp add: demo_rma_def hs_fits_def demo_hs_def)
  with recv_fd_refines[OF pipe_ok(3,4)[of 5], of ?s] obtain c where "recv_fd pipe_api 5 ?s = (Inr demo_hs, c)"
    by (cases "recv_fd pipe_api 5 ?s") (auto simp: refines_def)
  moreover obtain s' where
    "client_with_env False 3 pipe_api 80 1 2 True demo_hs
       (r_log (M_worker_create 2) (r_log M_config_release (r_log (M_init 1) (r_log M_config_read
          (tcp_close pipe_api 5 c))))) = Some (Ret 0, s')"
    using demo_put_run by blast
  ultimately show ?thesis
    by (simp add: rma_client_main_def client_argv_def pipe_connect pipe_env)
qed

theorem client_releases_everything_witness:
  "\<exists>s'. rma_client_main False 3 pipe_api 80 client_argv (demo_rma (enc_handshake demo_hs)) = Some (Ret 0, s') \<and>
     run_trace rma_acquires rma_releases {#} (r_trace s') = Some {#}"
proof -
  from demo_client_run obtain s' where
    r: "rma_client_main False 3 pipe_api 80 client_argv (demo_rma (enc_handshake demo_hs)) = Some (Ret 0, s')"
    by blast
  from client_releases_everything[OF r] r show ?thesis by (simp add: demo_rma_def)
qed

text \<open>
  (C21) What a client that dies from an exception leaves behind. Whether an exception that nobody catches
  unwinds the stack is up to the implementation. If it does, everything was released exactly once except
  at most the TCP socket (when the connection or the handshake failed) or the imported remote key, a
  plain handle that no destructor owns. If it does not, the worker and the context stay behind as well,
  once they exist, with the endpoint and either the remote key or the registration of the buffer.
\<close>

theorem client_exception_releases:
  assumes "rma_client_main unwind fuel api lbuf_addr argv s = Some (Uncaught err, s')" and "r_trace s = []"
  shows "\<exists>M. run_trace rma_acquires rma_releases {#} (r_trace s') = Some M \<and>
     (M = {#} \<or> (\<exists>fd. M = {#F_fd fd#}) \<or>
      (if unwind then \<exists>k. M = {#F_rkey k#}
       else \<exists>wk c X. M = X + {#F_worker wk, F_ctx c#} \<and>
         (X = {#} \<or> (\<exists>e. X = {#F_ep e#} \<or> (\<exists>k. X = {#F_ep e, F_rkey k#}) \<or> (\<exists>mh. X = {#F_ep e, F_mem mh#})))))"
proof -
  from leaves_run[OF client_main_throws[OF assms(1)] assms(2)] obtain M where
    "run_trace rma_acquires rma_releases {#} (r_trace s') = Some M" "fds (Suc 0) M \<or> env_left unwind M" by blast
  then show ?thesis
    by (cases unwind) (simp_all only: fds_Suc_0 env_left_def key_at_most_def ep_left_def if_True if_False, blast+)
qed

text \<open>A library that refuses to register memory.\<close>

definition no_memory_api :: "byte list rma_api" where
  "no_memory_api = pipe_api\<lparr>r_mem_map := (\<lambda>c b n w. (UCS_ERR_NO_MEMORY, 0, w))\<rparr>"

lemma client_no_memory_run:
  "(case rma_client_main True 3 no_memory_api 80 client_argv (demo_rma (enc_handshake demo_hs)) of
      Some (Uncaught e, s') \<Rightarrow> Some (run_trace rma_acquires rma_releases {#} (r_trace s')) | _ \<Rightarrow> None) = Some (Some {#F_rkey 5#})"
  by code_simp

theorem client_exception_releases_witness:
  "\<exists>e s'. rma_client_main True 3 no_memory_api 80 client_argv (demo_rma (enc_handshake demo_hs)) = Some (Uncaught e, s') \<and>
     (\<exists>M. run_trace rma_acquires rma_releases {#} (r_trace s') = Some M \<and>
       (M = {#} \<or> (\<exists>fd. M = {#F_fd fd#}) \<or> (\<exists>k. M = {#F_rkey k#})))"
proof -
  from client_no_memory_run obtain e s' where
    r: "rma_client_main True 3 no_memory_api 80 client_argv (demo_rma (enc_handshake demo_hs)) = Some (Uncaught e, s')"
    by (auto split: option.splits prod.splits outcome.splits)
  from client_exception_releases[OF r] r show ?thesis by (simp add: demo_rma_def)
qed



text \<open>
  (C23) \<open>UcxEnv::wait\<close> polls until the library reports a final status: if that is the case after \<open>k\<close> rounds
  of progress, the call returns at the first round where it is, with the status of that round, and
  the request is freed exactly once, after it.
\<close>

theorem env_wait_terminates:
  assumes "fst (wait_turn api wk r (((snd \<circ> wait_turn api wk r) ^^ k) s)) \<noteq> UCS_INPROGRESS" "k < fuel"
  shows "\<exists>j st u. j \<le> k \<and> (\<forall>i<j. fst (wait_turn api wk r (((snd \<circ> wait_turn api wk r) ^^ i) s)) = UCS_INPROGRESS) \<and>
     wait_turn api wk r (((snd \<circ> wait_turn api wk r) ^^ j) s) = (st, u) \<and> st \<noteq> UCS_INPROGRESS \<and>
     env_wait fuel api wk (Some r) s = Some (st, r_log (M_request_free r) u)"
  by (rule env_wait_returns[OF assms])

text \<open>A library that completes a request with the third check of its status.\<close>

definition slow_api :: "byte list rma_api" where
  "slow_api = pipe_api\<lparr>r_check_status := (\<lambda>r w. (if w = [] then UCS_OK else UCS_INPROGRESS, drop 1 w))\<rparr>"

theorem env_wait_terminates_witness:
  "\<exists>j st u. j \<le> 2 \<and> wait_turn slow_api 2 6 (((snd \<circ> wait_turn slow_api 2 6) ^^ j) (demo_rma [1, 1])) = (st, u) \<and>
     env_wait 3 slow_api 2 (Some 6) (demo_rma [1, 1]) = Some (st, r_log (M_request_free 6) u) \<and> st \<noteq> UCS_INPROGRESS"
proof -
  have "fst (wait_turn slow_api 2 6 (((snd \<circ> wait_turn slow_api 2 6) ^^ 2) (demo_rma [1, 1]))) \<noteq> UCS_INPROGRESS"
    by (simp add: wait_turn_def env_progress_def rma_check_status_def slow_api_def pipe_api_def demo_rma_def numeral_2_eq_2)
  from env_wait_terminates[OF this, of 3] show ?thesis by auto
qed

section \<open>Ownership\<close>

text \<open>
  (C22) Moving a \<open>UcxMem\<close> into a new object transfers the registration: destroying both objects,
  in either order, unmaps it exactly once. Move assignment onto an object that holds a registration
  forgets that one: destroying both objects leaves it mapped.
\<close>

theorem mem_move_ownership:
  assumes "mem_memh this = Some a" "mem_memh other = Some b"
  shows "(case UcxMem_move_ctor other of (x, y) \<Rightarrow>
       r_trace (UcxMem_dtor y (UcxMem_dtor x s)) = r_trace (UcxMem_dtor other s) \<and>
       r_trace (UcxMem_dtor x (UcxMem_dtor y s)) = r_trace (UcxMem_dtor other s)) \<and>
     (case UcxMem_move_assign False this other of (x, y) \<Rightarrow>
       \<exists>t. r_trace (UcxMem_dtor y (UcxMem_dtor x s)) = r_trace s @ t \<and>
         run_trace rma_acquires rma_releases {#F_mem a, F_mem b#} t = Some {#F_mem a#})"
  using assms by (simp add: UcxMem_move_ctor_def UcxMem_move_assign_def UcxMem_dtor_def UcxMem_default_def)

theorem mem_move_ownership_witness:
  "case UcxMem_move_assign False \<lparr>mem_base = Some 1, mem_len = 1, mem_memh = Some 7, mem_ctx = Some 1\<rparr>
       \<lparr>mem_base = Some 2, mem_len = 1, mem_memh = Some 8, mem_ctx = Some 1\<rparr> of (x, y) \<Rightarrow>
     \<exists>t. r_trace (UcxMem_dtor y (UcxMem_dtor x (demo_rma []))) = t \<and>
       run_trace rma_acquires rma_releases {#F_mem 7, F_mem 8#} t = Some {#F_mem 7#}"
  using mem_move_ownership[of "\<lparr>mem_base = Some 1, mem_len = 1, mem_memh = Some 7, mem_ctx = Some 1\<rparr>" 7
      "\<lparr>mem_base = Some 2, mem_len = 1, mem_memh = Some 8, mem_ctx = Some 1\<rparr>" 8 "demo_rma []"]
  by (simp add: UcxMem_move_assign_def demo_rma_def)

section \<open>The server\<close>

text \<open>
  (C20) A whole run of the server, for any network and any UCP. While the event loop runs, whatever
  number of clients it has served, the server owns exactly one context, one worker, one registration
  and the listening socket. An exception from the set-up or from any turn of the loop ends the program;
  sockets then stay open, the listening one and one connection at most. If the implementation unwinds the
  stack of an exception that nobody catches, nothing else is left; if it does not, the worker and
  the context stay behind as well, once they exist, and the registration, once it exists.
\<close>

theorem server_main_resources:
  assumes "rma_server_main unwind turns api buf_addr argv s = (r, s')" and "r_trace s = []"
  shows "\<exists>M. run_trace rma_acquires rma_releases {#} (r_trace s') = Some M \<and>
     (case r of
        None \<Rightarrow> \<exists>lfd mh wk c. M = {#F_fd lfd, F_mem mh, F_worker wk, F_ctx c#}
      | Some (Uncaught e) \<Rightarrow> \<exists>F X. size F \<le> 2 \<and> M = image_mset F_fd F + X \<and>
          (X = {#} \<or> \<not> unwind \<and> (\<exists>wk c. X = {#F_worker wk, F_ctx c#} \<or> (\<exists>mh. X = {#F_worker wk, F_ctx c, F_mem mh#})))
      | Some _ \<Rightarrow> M = {#})"
proof (cases "length argv < 3")
  case True
  with assms show ?thesis by (auto simp: rma_server_main_def)
next
  case False
  let ?port = "word_of_int (strtoul (argv ! 1)) :: u16" and ?sz = "nat (strtoul (argv ! 2))"
  obtain q t where q: "server_setup unwind api buf_addr ?port ?sz (server_loop turns api) s = (q, t)" by fastforce
  show ?thesis
  proof (cases q)
    case (Inl e)
    have "leaves (main_left unwind) s t" by (rule server_setup_throws[OF q[unfolded Inl] server_loop_throws])
    from leaves_run[OF this assms(2)] obtain M where
      "run_trace rma_acquires rma_releases {#} (r_trace t) = Some M" "main_left unwind M" by blast
    moreover from this(2) have "\<exists>F X. size F \<le> 2 \<and> M = image_mset F_fd F + X \<and> (X = {#} \<or> \<not> unwind \<and>
        (\<exists>wk c. X = {#F_worker wk, F_ctx c#} \<or> (\<exists>mh. X = {#F_worker wk, F_ctx c, F_mem mh#})))"
      unfolding main_left_def fds_def by blast
    moreover have "r = Some (Uncaught e)" "s' = t" using assms(1) False q Inl by (auto simp: rma_server_main_def Let_def)
    ultimately show ?thesis by simp
  next
    case (Inr sv)
    from server_loop_owns[OF q[unfolded Inr], of "{#}"] obtain lfd mh wk c where
      "rma_triple {#} s t {#F_fd lfd, F_mem mh, F_worker wk, F_ctx c#}" by blast
    from rma_triple_run[OF this assms(2)] show ?thesis
      using assms(1) False q Inr by (auto simp: rma_server_main_def Let_def)
  qed
qed

text \<open>A client that goes away before it has the handshake.\<close>

definition broken_pipe_api :: "byte list rma_api" where
  "broken_pipe_api = pipe_api\<lparr>sys_send := (\<lambda>fd bs w. (-1, w))\<rparr>"

definition server_argv :: "string list" where
  "server_argv = [''server'', ''9'', ''3'']"

lemma server_argv_values: "strtoul (server_argv ! Suc 0) = 9" "strtoul (server_argv ! 2) = 3" "length server_argv = 3"
  by code_simp+

lemma broken_send: "\<exists>e s'. send_fd broken_pipe_api hs fd s = (Inl e, s')"
  by (auto simp: send_fd_def send_all_def send_from.simps broken_pipe_api_def Let_def)

lemma broken_turn: "\<exists>e s'. server_turn broken_pipe_api sv s = (Inl e, s')"
proof -
  obtain t where "accept_nonblock broken_pipe_api (sv_lfd sv) (env_progress broken_pipe_api (sv_worker sv) s) = (6, t)"
    by (auto simp: accept_nonblock_def broken_pipe_api_def pipe_api_def)
  moreover obtain e s' where "send_fd broken_pipe_api (sv_hs sv) 6 t = (Inl e, s')" using broken_send by blast
  ultimately show ?thesis by (simp add: server_turn_def)
qed

lemma server_broken_pipe_run:
  "\<exists>e s'. rma_server_main False 2 broken_pipe_api 40 server_argv (demo_rma []) = (Some (Uncaught e), s')"
proof -
  have l: "\<exists>e s'. server_loop 2 broken_pipe_api sv s = (Inl e, s')" for sv s
    using broken_turn[of sv s] by (auto simp: numeral_2_eq_2)
  obtain r s' where r: "server_setup False broken_pipe_api 40 9 3 (server_loop 2 broken_pipe_api) (demo_rma []) = (r, s')"
    by fastforce
  have "\<exists>e. r = Inl e"
  proof (cases r)
    case (Inr x)
    from server_setup_owns[OF r[unfolded Inr], of "{#}"] obtain sv t where
      "server_loop 2 broken_pipe_api sv t = (Inr x, s')" by blast
    with l[of sv t] show ?thesis by auto
  qed simp
  with r show ?thesis by (auto simp: rma_server_main_def server_argv_values Let_def)
qed

theorem server_main_resources_witness:
  "\<exists>e s'. rma_server_main False 2 broken_pipe_api 40 server_argv (demo_rma []) = (Some (Uncaught e), s') \<and>
     (\<exists>M F X. run_trace rma_acquires rma_releases {#} (r_trace s') = Some M \<and> size F \<le> 2 \<and> M = image_mset F_fd F + X \<and>
        (X = {#} \<or> (\<exists>wk c. X = {#F_worker wk, F_ctx c#} \<or> (\<exists>mh. X = {#F_worker wk, F_ctx c, F_mem mh#}))))"
proof -
  from server_broken_pipe_run obtain e s' where
    r: "rma_server_main False 2 broken_pipe_api 40 server_argv (demo_rma []) = (Some (Uncaught e), s')"
    by blast
  from server_main_resources[OF r] r show ?thesis by (simp add: demo_rma_def)
qed

text \<open>
  (C19) End to end: a client that connects while the server runs learns from the handshake the
  address and the size of the server's buffer, as long as the address and key blobs and the size are
  within the range of the wire format.
\<close>

theorem client_learns_server_buffer:
  assumes "server_setup unwind api buf_addr port sz (\<lambda>sv s. (Inr sv, s)) s = (Inr sv, s1)" and "hs_fits (sv_hs sv)"
    and "sends_into api cfd out" "send_live api cfd"
    and "receives_from api' fd inp" "recv_live api' fd inp" and "sz < 2 ^ 64"
  shows "\<exists>s2. send_fd api (sv_hs sv) cfd s1 = (Inr (), s2) \<and>
     (\<forall>sent c. out (r_world s2) = out (r_world s1) @ sent \<longrightarrow> inp (r_world c) = sent \<longrightarrow>
        (\<exists>hs c'. recv_fd api' fd c = (Inr hs, c') \<and> remote_addr hs = buf_addr \<and> unat (hs_size hs) = sz))"
proof -
  from send_fd_out(2)[OF assms(3,4)] obtain s2 where s2: "send_fd api (sv_hs sv) cfd s1 = (Inr (), s2)" by blast
  have own: "remote_addr (sv_hs sv) = buf_addr" "hs_size (sv_hs sv) = of_nat sz"
    using server_setup_owns[OF assms(1), of "{#}"] by auto
  have "\<exists>hs c'. recv_fd api' fd c = (Inr hs, c') \<and> remote_addr hs = buf_addr \<and> unat (hs_size hs) = sz"
    if "out (r_world s2) = out (r_world s1) @ sent" "inp (r_world c) = sent" for sent c
  proof -
    from that send_fd_out(1)[OF assms(3) s2] have "inp (r_world c) = enc_handshake (sv_hs sv)" by simp
    with hsc.dec_exact[OF assms(2)] recv_fd_refines[OF assms(5,6), of c] have
      "fst (recv_fd api' fd c) = Inr (sv_hs sv)" by (simp add: refines_def)
    then show ?thesis using own assms(7) by (cases "recv_fd api' fd c") (auto simp: unat_of_nat)
  qed
  with s2 show ?thesis by blast
qed

lemma demo_setup:
  "(case server_setup False pipe_api 40 9 3 (\<lambda>sv s. (Inr sv, s)) (demo_rma []) of (Inl e, s) \<Rightarrow> None | (Inr sv, s) \<Rightarrow> Some (sv_hs sv, r_world s))
     = Some (demo_hs, [])"
  by code_simp

theorem client_learns_server_buffer_witness:
  "\<exists>sv s1 s2. server_setup False pipe_api 40 9 3 (\<lambda>sv s. (Inr sv, s)) (demo_rma []) = (Inr sv, s1) \<and>
     send_fd pipe_api (sv_hs sv) 6 s1 = (Inr (), s2) \<and>
     (\<exists>hs c'. recv_fd pipe_api 5 (demo_rma (r_world s2)) = (Inr hs, c') \<and> remote_addr hs = 40 \<and>
        unat (hs_size hs) = 3)"
proof -
  from demo_setup obtain sv s1 where s1: "server_setup False pipe_api 40 9 3 (\<lambda>sv s. (Inr sv, s)) (demo_rma []) = (Inr sv, s1)"
    "sv_hs sv = demo_hs" "r_world s1 = []" by (auto split: prod.splits sum.splits)
  have "hs_fits (sv_hs sv)" by (simp add: s1(2) hs_fits_def demo_hs_def)
  from client_learns_server_buffer[OF s1(1) this pipe_ok, of 6 5] obtain s2 where
    s2: "send_fd pipe_api (sv_hs sv) 6 s1 = (Inr (), s2)"
    "\<forall>sent c. r_world s2 = r_world s1 @ sent \<longrightarrow> r_world c = sent \<longrightarrow>
        (\<exists>hs c'. recv_fd pipe_api 5 c = (Inr hs, c') \<and> remote_addr hs = 40 \<and> unat (hs_size hs) = 3)" by auto
  from s2(2)[rule_format, of "r_world s2" "demo_rma (r_world s2)"] s1(3) s1(1) s2(1)
  show ?thesis by (auto simp: demo_rma_def)
qed

end
