(* ===== verification/Oob_Socket.thy ===== *)
theory Oob_Socket
  imports C_Lib Byte_Codec C_Memory
begin

text \<open>
  The out-of-band connection of \<open>hello_world_util.h\<close>: \<open>connect_common\<close> and \<open>barrier\<close> of the UCT
  program (its copy in the client/server program is never called). The socket layer is the record \<open>sock_api\<close> of functions over
  its own state \<open>'w\<close>. \<open>connect_common\<close> also yields the calls it made that acquire or release
  something.
\<close>

section \<open>The socket layer\<close>

text \<open>An entry of the list \<open>getaddrinfo\<close> yields.\<close>

record addrinfo =
  ai_fam :: sa_family
  ai_addr :: "byte list"

record 'w sock_api =
  so_getaddrinfo :: "string option \<Rightarrow> string \<Rightarrow> bool \<Rightarrow> sa_family \<Rightarrow> 'w \<Rightarrow> int \<times> addrinfo list \<times> 'w"
  so_socket :: "addrinfo \<Rightarrow> 'w \<Rightarrow> int \<times> 'w"
  so_connect :: "int \<Rightarrow> addrinfo \<Rightarrow> 'w \<Rightarrow> int \<times> 'w"
  so_setsockopt :: "int \<Rightarrow> 'w \<Rightarrow> int \<times> 'w"
  so_bind :: "int \<Rightarrow> addrinfo \<Rightarrow> 'w \<Rightarrow> int \<times> 'w"
  so_listen :: "int \<Rightarrow> nat \<Rightarrow> 'w \<Rightarrow> int \<times> 'w"
  so_accept :: "int \<Rightarrow> 'w \<Rightarrow> int \<times> 'w"
  so_close :: "int \<Rightarrow> 'w \<Rightarrow> 'w"
  so_send :: "int \<Rightarrow> byte list \<Rightarrow> 'w \<Rightarrow> int \<times> 'w"
  so_recv :: "int \<Rightarrow> nat \<Rightarrow> 'w \<Rightarrow> int \<times> byte list \<times> 'w"
  so_poll :: "int \<Rightarrow> 'w \<Rightarrow> int \<times> 'w"

datatype sock_call = S_addrinfo | S_freeaddrinfo | S_open int | S_close int

section \<open>connect\_common\<close>

text \<open>How the loop over the addresses is left.\<close>

datatype addr_exit = Chosen int | Failed_close int | Exhausted

text \<open>One address on the server side: bind, listen, accept one connection, close the listener.\<close>

definition try_serve :: "'w sock_api \<Rightarrow> int \<Rightarrow> addrinfo \<Rightarrow> 'w \<Rightarrow> addr_exit option \<times> sock_call list \<times> 'w" where
  "try_serve api sockfd t w =
     (let (ret, w) = so_setsockopt api sockfd w in
      if ret < 0 then (Some (Failed_close sockfd), [], w)
      else let (ret, w) = so_bind api sockfd t w in
      if ret = 0 then
        (let (ret, w) = so_listen api sockfd 0 w in
         if ret < 0 then (Some (Failed_close sockfd), [], w)
         else let (fd, w) = so_accept api sockfd w; w = so_close api sockfd w
              in (Some (Chosen fd), (if fd \<ge> 0 then [S_open fd] else []) @ [S_close sockfd], w))
      else (None, [], w))"

fun try_addrs :: "'w sock_api \<Rightarrow> string option \<Rightarrow> addrinfo list \<Rightarrow> 'w \<Rightarrow> addr_exit \<times> sock_call list \<times> 'w" where
  "try_addrs api server [] w = (Exhausted, [], w)"
| "try_addrs api server (t # ts) w =
     (let (sockfd, w) = so_socket api t w in
      if sockfd < 0 then try_addrs api server ts w
      else
        let (ex, cs, w) = (case server of
              Some _ \<Rightarrow> (let (ret, w) = so_connect api sockfd t w
                         in (if ret = 0 then Some (Chosen sockfd) else None, [], w))
            | None \<Rightarrow> try_serve api sockfd t w) in
        case ex of
          Some e \<Rightarrow> (e, S_open sockfd # cs, w)
        | None \<Rightarrow>
            let w = so_close api sockfd w; (e, cs', w) = try_addrs api server ts w
            in (e, S_open sockfd # cs @ S_close sockfd # cs', w))"

definition connect_common ::
  "'w sock_api \<Rightarrow> string option \<Rightarrow> u16 \<Rightarrow> sa_family \<Rightarrow> 'w \<Rightarrow> int \<times> sock_call list \<times> 'w" where
  "connect_common api server server_port af w =
     (let service = snprintf_str 8 (show_nat (unat server_port));
          (ret, res, w) = so_getaddrinfo api server service (server = None) af w in
      if ret < 0 then (-1, [], w)
      else let (e, cs, w) = try_addrs api server res w in
      case e of
        Chosen fd \<Rightarrow> (fd, S_addrinfo # cs @ [S_freeaddrinfo], w)
      | Exhausted \<Rightarrow> (-1, S_addrinfo # cs @ [S_freeaddrinfo], w)
      | Failed_close fd \<Rightarrow> (-1, S_addrinfo # cs @ [S_close fd, S_freeaddrinfo], so_close api fd w))"

section \<open>barrier\<close>

text \<open>
  The state \<open>'s\<close> is the caller's, with \<open>get\<close> and \<open>put\<close> for the socket layer inside it, because the
  loop runs the caller's progress callback. \<open>dummy\<close> is an \<open>int\<close>, 4 bytes.
\<close>

definition barrier :: "nat \<Rightarrow> 'w sock_api \<Rightarrow> ('s \<Rightarrow> 'w) \<Rightarrow> ('w \<Rightarrow> 's \<Rightarrow> 's) \<Rightarrow> int \<Rightarrow> ('s \<Rightarrow> 's) \<Rightarrow> 's \<Rightarrow>
    (int \<times> 's) option" where
  "barrier fuel api get put oob_sock progress_cb s =
     (let (res, w) = so_send api oob_sock [0, 0, 0, 0] (get s); s = put w s in
      if res < 0 then Some (c_int res, s)
      else do {
        (res, s) \<leftarrow> poll_until fuel
           (\<lambda>s. let (res, w) = so_poll api oob_sock (get s) in (res, progress_cb (put w s)))
           (\<lambda>res. res \<noteq> 1) s;
        let (res, bs, w) = so_recv api oob_sock 4 (get s);
        Some (if res = 4 then 0 else 1, put w s)
      })"

section \<open>Ownership\<close>

datatype sock_res = SR_addrinfo | SR_fd int

fun sock_acquires :: "sock_call \<Rightarrow> sock_res option" where
  "sock_acquires S_addrinfo = Some SR_addrinfo"
| "sock_acquires (S_open fd) = Some (SR_fd fd)"
| "sock_acquires _ = None"

fun sock_releases :: "sock_call \<Rightarrow> sock_res option" where
  "sock_releases S_freeaddrinfo = Some SR_addrinfo"
| "sock_releases (S_close fd) = Some (SR_fd fd)"
| "sock_releases _ = None"

interpretation sor: resource_protocol sock_acquires sock_releases
proof
  fix c show "sock_acquires c = None \<or> sock_releases c = None" by (cases c) auto
qed

abbreviation sock_triple :: "sock_res multiset \<Rightarrow> sock_call list \<Rightarrow> sock_res multiset \<Rightarrow> bool" where
  "sock_triple \<equiv> res_triple sock_acquires sock_releases"

definition fd_res :: "int \<Rightarrow> sock_res multiset" where
  "fd_res fd = (if fd \<ge> 0 then {#SR_fd fd#} else {#})"

text \<open>What is open when the loop is left.\<close>

fun exit_res :: "addr_exit \<Rightarrow> sock_res multiset" where
  "exit_res (Chosen fd) = fd_res fd"
| "exit_res (Failed_close fd) = {#SR_fd fd#}"
| "exit_res Exhausted = {#}"

lemma try_serve_owns:
  assumes "try_serve api sockfd t w = (ex, cs, w')" "0 \<le> sockfd"
  shows "sock_triple (P + {#SR_fd sockfd#}) cs (P + (case ex of Some e \<Rightarrow> exit_res e | None \<Rightarrow> {#SR_fd sockfd#}))"
  using assms
  by (auto simp: try_serve_def Let_def res_triple_def fd_res_def split: prod.splits if_splits)

lemma try_addrs_owns:
  "try_addrs api server ts w = (e, cs, w') \<Longrightarrow> sock_triple P cs (P + exit_res e)"
proof (induction ts arbitrary: e cs w w')
  case Nil
  then show ?case by (auto intro: sor.triple_nil)
next
  case (Cons t ts)
  obtain sockfd w1 where so: "so_socket api t w = (sockfd, w1)" by fastforce
  show ?case
  proof (cases "sockfd < 0")
    case True
    with Cons.prems so show ?thesis by (simp add: Cons.IH)
  next
    case False
    obtain ex c2 w2 where st: "(case server of
              Some _ \<Rightarrow> (let (ret, w) = so_connect api sockfd t w1
                         in (if ret = 0 then Some (Chosen sockfd) else None, [], w))
            | None \<Rightarrow> try_serve api sockfd t w1) = (ex, c2, w2)" using prod_cases3 by blast
    let ?Q = "P + {#SR_fd sockfd#}"
    have op: "sock_triple P [S_open sockfd] ?Q" using sor.triple_acquire[of "S_open sockfd"] by simp
    have c2: "sock_triple ?Q c2 (P + (case ex of Some e \<Rightarrow> exit_res e | None \<Rightarrow> {#SR_fd sockfd#}))"
    proof (cases server)
      case None
      with st False try_serve_owns[of api sockfd t w1 ex c2 w2 P] show ?thesis by simp
    next
      case (Some a)
      with st False show ?thesis
        by (auto simp: Let_def fd_res_def split: prod.splits if_splits intro: sor.triple_nil)
    qed
    show ?thesis
    proof (cases ex)
      case (Some e')
      with Cons.prems so False st have "e = e'" "cs = S_open sockfd # c2" by auto
      with sor.triple_cons[OF op c2] Some show ?thesis by simp
    next
      case None
      obtain e' c3 w3 where r: "try_addrs api server ts (so_close api sockfd w2) = (e', c3, w3)"
        using prod_cases3 by blast
      with None Cons.prems so False st have e: "e = e'" "cs = S_open sockfd # c2 @ S_close sockfd # c3" by auto
      have "sock_triple ?Q (S_close sockfd # c3) (P + exit_res e')"
        using sor.triple_cons[OF sor.triple_release[of "S_close sockfd" "SR_fd sockfd" P] Cons.IH[OF r]] by simp
      with c2 None have "sock_triple ?Q (c2 @ S_close sockfd # c3) (P + exit_res e')"
        by (auto intro: sor.triple_seq)
      with sor.triple_cons[OF op] e show ?thesis by blast
    qed
  qed
qed

text \<open>\<open>connect_common\<close> leaves open exactly the socket it returns, if any.\<close>

lemma connect_common_owns:
  assumes "connect_common api server port af w = (fd, cs, w')"
  shows "sock_triple P cs (P + fd_res fd)"
proof -
  obtain ret res w1 where g: "so_getaddrinfo api server (snprintf_str 8 (show_nat (unat port))) (server = None) af w
      = (ret, res, w1)" using prod_cases3 by blast
  show ?thesis
  proof (cases "ret < 0")
    case True
    with assms g show ?thesis by (auto simp: connect_common_def fd_res_def intro: sor.triple_nil)
  next
    case False
    obtain e c1 w2 where t: "try_addrs api server res w1 = (e, c1, w2)" using prod_cases3 by blast
    let ?P = "add_mset SR_addrinfo P"
    have a: "sock_triple P [S_addrinfo] ?P" by (rule sor.triple_acquire) simp
    have b: "sock_triple ?P c1 (?P + exit_res e)" using t by (rule try_addrs_owns)
    have f: "sock_triple (add_mset SR_addrinfo R) [S_freeaddrinfo] R" for R by (rule sor.triple_release) simp
    have seq: "sock_triple P (S_addrinfo # c1 @ [S_freeaddrinfo]) (P + exit_res e)"
      using sor.triple_cons[OF a sor.triple_seq[OF b]] f[of "P + exit_res e"] by simp
    show ?thesis
    proof (cases e)
      case (Chosen x1)
      with assms g False t seq show ?thesis by (auto simp: connect_common_def)
    next
      case (Failed_close x)
      have "sock_triple (?P + exit_res e) [S_close x, S_freeaddrinfo] P"
        using Failed_close by (auto simp: res_triple_def)
      with Failed_close assms g False t sor.triple_cons[OF a sor.triple_seq[OF b]] show ?thesis
        by (auto simp: connect_common_def fd_res_def)
    next
      case Exhausted
      with assms g False t seq show ?thesis by (auto simp: connect_common_def fd_res_def)
    qed
  qed
qed

section \<open>Waiting at the barrier\<close>

text \<open>One turn of the loop, after which the caller's state has changed.\<close>

definition barrier_turn :: "'w sock_api \<Rightarrow> ('s \<Rightarrow> 'w) \<Rightarrow> ('w \<Rightarrow> 's \<Rightarrow> 's) \<Rightarrow> int \<Rightarrow> ('s \<Rightarrow> 's) \<Rightarrow> 's \<Rightarrow> 's" where
  "barrier_turn api get put fd cb s = cb (put (snd (so_poll api fd (get s))) s)"

lemma barrier_returns:
  assumes send: "so_send api fd [0, 0, 0, 0] (get s) = (n, w)" "0 \<le> n"
    and ready: "fst (so_poll api fd (get ((barrier_turn api get put fd cb ^^ k) (put w s)))) = 1"
    and fuel: "k < fuel"
  shows "\<exists>j\<le>k. (\<forall>i<j. fst (so_poll api fd (get ((barrier_turn api get put fd cb ^^ i) (put w s)))) \<noteq> 1) \<and>
     fst (so_poll api fd (get ((barrier_turn api get put fd cb ^^ j) (put w s)))) = 1 \<and>
     (\<exists>u res bs w'. u = (barrier_turn api get put fd cb ^^ Suc j) (put w s) \<and> so_recv api fd 4 (get u) = (res, bs, w') \<and>
        barrier fuel api get put fd cb s = Some (if res = 4 then 0 else 1, put w' u))"
proof -
  let ?b = "\<lambda>s. let (res, w) = so_poll api fd (get s) in (res, cb (put w s))"
  have e: "(\<lambda>u. snd (?b u)) = barrier_turn api get put fd cb" "fst (?b u) = fst (so_poll api fd (get u))"
    "?b u = (fst (so_poll api fd (get u)), barrier_turn api get put fd cb u)" for u
    by (simp_all add: split_beta barrier_turn_def fun_eq_iff)
  from poll_until_first[of "\<lambda>res. res \<noteq> 1" ?b k "put w s" fuel] ready fuel obtain j where
    j: "j \<le> k" "\<forall>i<j. fst (so_poll api fd (get ((barrier_turn api get put fd cb ^^ i) (put w s)))) \<noteq> 1"
    "fst (so_poll api fd (get ((barrier_turn api get put fd cb ^^ j) (put w s)))) = 1"
    and p: "poll_until fuel ?b (\<lambda>res. res \<noteq> 1) (put w s) = Some (?b ((barrier_turn api get put fd cb ^^ j) (put w s)))"
    unfolding e(1,2) by auto
  let ?u = "(barrier_turn api get put fd cb ^^ Suc j) (put w s)"
  have p': "poll_until fuel ?b (\<lambda>res. res \<noteq> 1) (put w s) = Some (1, ?u)"
    using p j(3) e(3)[of "(barrier_turn api get put fd cb ^^ j) (put w s)"] by simp
  obtain res bs w' where r: "so_recv api fd 4 (get ?u) = (res, bs, w')" using prod_cases3 by blast
  have "barrier fuel api get put fd cb s = Some (if res = 4 then 0 else 1, put w' ?u)"
    using send p' r by (simp add: barrier_def)
  with j r show ?thesis by blast
qed

end
