(* ===== verification/Uct_Model.thy ===== *)
theory Uct_Model
  imports Oob_Socket Hello_World_Util
begin

text \<open>
  \<open>uct_hello_world.c\<close>: data, callbacks and the three ways of sending an active message. The UCT
  library is the record \<open>uct_api\<close> of functions over its own state \<open>'w\<close>. Progressing a worker, or
  sending, yields the list of callbacks the library runs; \<open>uct_dispatch\<close> runs them. Data the library
  hands to a callback lives in memory the library lends and takes back. A failed \<open>assert\<close> ends the
  process: it is a fault, and what the model does after it has no meaning.
\<close>

section \<open>Data\<close>

datatype func_am = FUNC_AM_SHORT | FUNC_AM_BCOPY | FUNC_AM_ZCOPY

record cmd_args =
  arg_server_name :: "string option"
  arg_server_port :: u16
  arg_ai_family :: sa_family
  arg_func_am_type :: func_am
  arg_dev_name :: "string option"
  arg_tl_name :: "string option"
  arg_test_strlen :: int

text \<open>The command line, with the global \<open>test_mem_type\<close> and the compile-time switch.\<close>

record uct_config =
  uc_args :: cmd_args
  uc_mem :: ucs_memory_type
  uc_cuda :: bool

record tl_resource =
  res_tl_name :: string
  res_dev_name :: string

record md_attr =
  md_need_memh :: bool
  md_reg_mem_types :: "ucs_memory_type \<Rightarrow> bool"

record iface_attr =
  cap_am_short :: bool
  cap_am_bcopy :: bool
  cap_am_zcopy :: bool
  cap_connect_to_ep :: bool
  cap_connect_to_iface :: bool
  max_short :: nat
  max_bcopy :: nat
  max_zcopy :: nat
  device_addr_len :: nat
  iface_addr_len :: nat
  ep_addr_len :: nat

record iface_info =
  if_attr :: iface_attr
  if_iface :: "nat option"
  if_md_attr :: md_attr
  if_md :: nat
  if_worker :: nat

record am_short_args =
  sh_header :: u64
  sh_payload :: ptr
  sh_len :: nat

record am_bcopy_args =
  bc_data :: ptr
  bc_len :: nat

record zcopy_comp =
  comp_count :: int
  comp_status :: ucs_status
  comp_md :: nat
  comp_memh :: "nat option"

definition func_am_t_str :: "func_am \<Rightarrow> string" where
  "func_am_t_str f = (case f of FUNC_AM_SHORT \<Rightarrow> ''uct_ep_am_short''
     | FUNC_AM_BCOPY \<Rightarrow> ''uct_ep_am_bcopy'' | FUNC_AM_ZCOPY \<Rightarrow> ''uct_ep_am_zcopy'')"

definition func_am_max_size :: "func_am \<Rightarrow> iface_attr \<Rightarrow> nat" where
  "func_am_max_size f attr = (case f of FUNC_AM_SHORT \<Rightarrow> max_short attr
     | FUNC_AM_BCOPY \<Rightarrow> max_bcopy attr | FUNC_AM_ZCOPY \<Rightarrow> max_zcopy attr)"

text \<open>What the library does to the program: deliver a message (with or without a descriptor that
  outlives the callback), or report one operation of the outstanding completion as finished.\<close>

datatype uct_event = Ev_am "byte list" bool | Ev_complete ucs_status

datatype uct_out = Out_using string string | Out_strings string string "byte list option" nat

datatype uct_call = U_async_create nat | U_async_destroy nat | U_worker_create nat | U_worker_destroy nat
  | U_query_components | U_release_components | U_config_read nat | U_config_release nat
  | U_md_open nat | U_md_close nat | U_query_tl | U_release_tl | U_iface_open nat | U_iface_close nat
  | U_set_am_handler nat nat | U_ep_create nat | U_ep_destroy nat
  | U_mem_reg nat | U_mem_dereg nat
  | U_am_short nat nat u64 "byte list" ucs_status | U_am_bcopy nat nat "byte list" int
  | U_am_zcopy nat nat "byte list" ucs_status | U_sock sock_call

record 'w uct =
  u_heap :: heap
  desc_holder :: ptr
  u_comp :: "zcopy_comp option"
  u_trace :: "uct_call list"
  u_out :: "uct_out list"
  u_world :: 'w

text \<open>
  \<open>ut_bcopy_buffer\<close> is the buffer \<open>uct_ep_am_bcopy\<close> has for the message, or the error it returns
  without packing anything; \<open>ut_bcopy_send\<close> is the rest of that call, after the pack callback.
\<close>

record 'w uct_api =
  ut_async_create :: "'w \<Rightarrow> ucs_status \<times> nat \<times> 'w"
  ut_worker_create :: "nat \<Rightarrow> 'w \<Rightarrow> ucs_status \<times> nat \<times> 'w"
  ut_query_components :: "'w \<Rightarrow> ucs_status \<times> nat list \<times> 'w"
  ut_md_resource_count :: "nat \<Rightarrow> 'w \<Rightarrow> ucs_status \<times> nat \<times> 'w"
  ut_md_resources :: "nat \<Rightarrow> 'w \<Rightarrow> ucs_status \<times> (nat \<Rightarrow> string) \<times> 'w"
  ut_md_config_read :: "nat \<Rightarrow> 'w \<Rightarrow> ucs_status \<times> nat \<times> 'w"
  ut_md_open :: "nat \<Rightarrow> string \<Rightarrow> nat \<Rightarrow> 'w \<Rightarrow> ucs_status \<times> nat \<times> 'w"
  ut_md_query :: "nat \<Rightarrow> 'w \<Rightarrow> ucs_status \<times> md_attr \<times> 'w"
  ut_query_tl :: "nat \<Rightarrow> 'w \<Rightarrow> ucs_status \<times> tl_resource list \<times> 'w"
  ut_iface_config_read :: "nat \<Rightarrow> string \<Rightarrow> 'w \<Rightarrow> ucs_status \<times> nat \<times> 'w"
  ut_iface_open :: "nat \<Rightarrow> nat \<Rightarrow> string \<Rightarrow> string \<Rightarrow> nat \<Rightarrow> 'w \<Rightarrow> ucs_status \<times> nat \<times> 'w"
  ut_progress_enable :: "nat \<Rightarrow> 'w \<Rightarrow> 'w"
  ut_iface_query :: "nat \<Rightarrow> 'w \<Rightarrow> ucs_status \<times> iface_attr \<times> 'w"
  ut_set_am_handler :: "nat \<Rightarrow> nat \<Rightarrow> 'w \<Rightarrow> ucs_status \<times> 'w"
  ut_get_device_address :: "nat \<Rightarrow> 'w \<Rightarrow> ucs_status \<times> byte list \<times> 'w"
  ut_get_address :: "nat \<Rightarrow> 'w \<Rightarrow> ucs_status \<times> byte list \<times> 'w"
  ut_is_reachable :: "nat \<Rightarrow> byte list option \<Rightarrow> byte list option \<Rightarrow> 'w \<Rightarrow> int \<times> 'w"
  ut_ep_create :: "nat \<Rightarrow> (byte list option \<times> byte list option) option \<Rightarrow> 'w \<Rightarrow> ucs_status \<times> nat \<times> 'w"
  ut_ep_get_address :: "nat \<Rightarrow> 'w \<Rightarrow> ucs_status \<times> byte list \<times> 'w"
  ut_connect_to_ep :: "nat \<Rightarrow> byte list option \<Rightarrow> byte list option \<Rightarrow> 'w \<Rightarrow> ucs_status \<times> 'w"
  ut_am_short :: "nat \<Rightarrow> nat \<Rightarrow> u64 \<Rightarrow> byte list \<Rightarrow> 'w \<Rightarrow> ucs_status \<times> uct_event list \<times> 'w"
  ut_bcopy_buffer :: "nat \<Rightarrow> nat \<Rightarrow> 'w \<Rightarrow> (ucs_status + byte list) \<times> 'w"
  ut_bcopy_send :: "nat \<Rightarrow> nat \<Rightarrow> byte list \<Rightarrow> 'w \<Rightarrow> int \<times> uct_event list \<times> 'w"
  ut_am_zcopy :: "nat \<Rightarrow> nat \<Rightarrow> byte list \<Rightarrow> nat option \<Rightarrow> 'w \<Rightarrow> ucs_status \<times> uct_event list \<times> 'w"
  ut_mem_reg :: "nat \<Rightarrow> ptr \<Rightarrow> nat \<Rightarrow> 'w \<Rightarrow> ucs_status \<times> nat \<times> 'w"
  ut_progress :: "nat \<Rightarrow> 'w \<Rightarrow> uct_event list \<times> 'w"
  ut_sock :: "'w sock_api"

section \<open>State\<close>

definition u_log :: "uct_call \<Rightarrow> 'w uct \<Rightarrow> 'w uct" where
  "u_log c s = s\<lparr>u_trace := u_trace s @ [c]\<rparr>"

definition u_log_if :: "bool \<Rightarrow> uct_call \<Rightarrow> 'w uct \<Rightarrow> 'w uct" where
  "u_log_if b c s = (if b then u_log c s else s)"

definition u_on_heap :: "(heap \<Rightarrow> heap) \<Rightarrow> 'w uct \<Rightarrow> 'w uct" where
  "u_on_heap f s = s\<lparr>u_heap := f (u_heap s)\<rparr>"

definition u_fault :: "fault \<Rightarrow> 'w uct \<Rightarrow> 'w uct" where
  "u_fault f = u_on_heap (raise_fault f)"

text \<open>\<open>p - n\<close> in bytes.\<close>

definition ptr_sub :: "ptr \<Rightarrow> nat \<Rightarrow> ptr" where
  "ptr_sub p n = (case p of Addr b off \<Rightarrow> if n \<le> off then Addr b (off - n) else Wild | _ \<Rightarrow> p)"

text \<open>Reading a C string, as \<open>%s\<close> does: up to the first NUL.\<close>

definition c_string :: "ptr \<Rightarrow> heap \<Rightarrow> byte list \<times> heap" where
  "c_string p h =
     (case p of
        NULLp \<Rightarrow> ([], raise_fault NullDeref h)
      | Wild \<Rightarrow> ([], raise_fault WildDeref h)
      | Addr b off \<Rightarrow>
          (case blocks h b of
             None \<Rightarrow> ([], raise_fault UseAfterFree h)
           | Some k \<Rightarrow> if \<not> cpu_kind (b_kind k) then ([], raise_fault DeviceAccess h)
                       else let bs = drop off (b_bytes k) in
                         (takeWhile (\<lambda>c. c \<noteq> 0) bs,
                          if 0 \<in> set bs then h else raise_fault OutOfBounds h)))"

section \<open>Callbacks\<close>

definition print_strings :: "string \<Rightarrow> string \<Rightarrow> ptr \<Rightarrow> nat \<Rightarrow> 'w uct \<Rightarrow> 'w uct" where
  "print_strings label local_str remote_str len s =
     (if len \<noteq> 0 then
        (let (t, h) = c_string remote_str (u_heap s)
         in s\<lparr>u_heap := h, u_out := u_out s @ [Out_strings label local_str (Some t) len]\<rparr>)
      else s\<lparr>u_out := u_out s @ [Out_strings label local_str None len]\<rparr>)"

text \<open>\<open>recv_desc_t\<close> is one \<open>int\<close>, 4 bytes.\<close>

definition hello_world :: "func_am \<Rightarrow> ptr \<Rightarrow> nat \<Rightarrow> bool \<Rightarrow> 'w uct \<Rightarrow> ucs_status \<times> 'w uct" where
  "hello_world func_am_type data len desc_flag s =
     (let s = print_strings ''callback'' (func_am_t_str func_am_type) data len s in
      if desc_flag then
        (let rdesc = ptr_sub data 4; s = u_on_heap (store cpu_kind rdesc (le_bytes 4 1)) s
         in (UCS_INPROGRESS, s\<lparr>desc_holder := rdesc\<rparr>))
      else
        let (rdesc, h) = c_malloc (size_t (4 + int len)) (u_heap s); s = s\<lparr>u_heap := h\<rparr> in
        if rdesc = NULLp then (UCS_ERR_NO_MEMORY, s)
        else let s = u_on_heap (store cpu_kind rdesc (le_bytes 4 0)) s;
                 s = u_on_heap (c_memcpy (ptr_add rdesc 4) data len) s
             in (UCS_OK, s\<lparr>desc_holder := rdesc\<rparr>))"

definition zcopy_completion_cb :: "'w uct \<Rightarrow> 'w uct" where
  "zcopy_completion_cb s =
     (case u_comp s of
        None \<Rightarrow> u_fault WildDeref s
      | Some cm \<Rightarrow>
          if \<not> (comp_count cm = 0 \<and> comp_status cm = UCS_OK) then u_fault AssertFailed s
          else let s = (case comp_memh cm of Some mh \<Rightarrow> u_log (U_mem_dereg mh) s | None \<Rightarrow> s)
               in s\<lparr>desc_holder := Wild\<rparr>)"

text \<open>
  The library's side. A message is lent for the time of the callback; with a descriptor, which has
  the 4 bytes of headroom the interface was opened with, it stays lent when the callback returns
  \<open>UCS_INPROGRESS\<close>. A completion counts down and its callback runs when the count reaches 0.
\<close>

definition deliver_am :: "func_am \<Rightarrow> byte list \<Rightarrow> bool \<Rightarrow> 'w uct \<Rightarrow> 'w uct" where
  "deliver_am func bs desc_flag s =
     (let room = (if desc_flag then map (junk (u_heap s) (next_blk (u_heap s))) [0..<4] else []);
          (b, h) = lend (room @ bs) (u_heap s);
          (status, s) = hello_world func (Addr b (length room)) (length bs) desc_flag (s\<lparr>u_heap := h\<rparr>)
      in if desc_flag \<and> status = UCS_INPROGRESS then s else u_on_heap (reclaim (Addr b 0)) s)"

definition complete_one :: "ucs_status \<Rightarrow> 'w uct \<Rightarrow> 'w uct" where
  "complete_one status s =
     (case u_comp s of
        None \<Rightarrow> u_fault WildDeref s
      | Some cm \<Rightarrow>
          let cm = cm\<lparr>comp_count := comp_count cm - 1,
                comp_status := (if comp_status cm = UCS_OK then status else comp_status cm)\<rparr>;
              s = s\<lparr>u_comp := Some cm\<rparr>
          in if comp_count cm = 0 then zcopy_completion_cb s else s)"

fun uct_dispatch :: "uct_config \<Rightarrow> uct_event \<Rightarrow> 'w uct \<Rightarrow> 'w uct" where
  "uct_dispatch cfg (Ev_am bs d) s = deliver_am (arg_func_am_type (uc_args cfg)) bs d s"
| "uct_dispatch cfg (Ev_complete st) s = complete_one st s"

definition uct_dispatch_all :: "uct_config \<Rightarrow> uct_event list \<Rightarrow> 'w uct \<Rightarrow> 'w uct" where
  "uct_dispatch_all cfg evs s = fold (uct_dispatch cfg) evs s"

definition uct_worker_progress :: "'w uct_api \<Rightarrow> uct_config \<Rightarrow> nat \<Rightarrow> 'w uct \<Rightarrow> 'w uct" where
  "uct_worker_progress api cfg worker s =
     (let (evs, w) = ut_progress api worker (u_world s) in uct_dispatch_all cfg evs (s\<lparr>u_world := w\<rparr>))"

definition progress_worker :: "'w uct_api \<Rightarrow> uct_config \<Rightarrow> nat \<Rightarrow> 'w uct \<Rightarrow> 'w uct" where
  "progress_worker api cfg worker s = uct_worker_progress api cfg worker s"

section \<open>Sending\<close>

definition am_short_params_pack :: "ptr \<Rightarrow> nat \<Rightarrow> heap \<Rightarrow> am_short_args \<times> heap" where
  "am_short_params_pack buf len h =
     (let (hd, h) = load cpu_kind buf 8 h; header = word_of_int (of_le_int hd) in
      if len > 8 then (\<lparr>sh_header = header, sh_payload = ptr_add buf 8, sh_len = len - 8\<rparr>, h)
      else (\<lparr>sh_header = header, sh_payload = NULLp, sh_len = 0\<rparr>, h))"

text \<open>\<open>uct_ep_am_short\<close> reads the payload, if there is one, with the CPU.\<close>

definition ep_am_short :: "'w uct_api \<Rightarrow> uct_config \<Rightarrow> nat \<Rightarrow> nat \<Rightarrow> am_short_args \<Rightarrow> 'w uct \<Rightarrow>
    ucs_status \<times> 'w uct" where
  "ep_am_short api cfg ep am_id a s =
     (let (bs, h) = (if sh_len a = 0 then ([], u_heap s) else load cpu_kind (sh_payload a) (sh_len a) (u_heap s));
          (status, evs, w) = ut_am_short api ep am_id (sh_header a) bs (u_world s);
          s = u_log (U_am_short ep am_id (sh_header a) bs status) (s\<lparr>u_heap := h, u_world := w\<rparr>)
      in (status, uct_dispatch_all cfg evs s))"

definition do_am_short :: "nat \<Rightarrow> 'w uct_api \<Rightarrow> uct_config \<Rightarrow> iface_info \<Rightarrow> nat \<Rightarrow> nat \<Rightarrow> ptr \<Rightarrow> 'w uct \<Rightarrow>
    (ucs_status \<times> 'w uct) option" where
  "do_am_short fuel api cfg if_info ep am_id buf s =
     (let (send_args, h) = am_short_params_pack buf (size_t (arg_test_strlen (uc_args cfg))) (u_heap s)
      in poll_until fuel
           (\<lambda>s. let (status, s) = ep_am_short api cfg ep am_id send_args s
                in (status, uct_worker_progress api cfg (if_worker if_info) s))
           (\<lambda>status. status = UCS_ERR_NO_RESOURCE) (s\<lparr>u_heap := h\<rparr>))"

definition am_bcopy_data_pack_cb :: "uct_config \<Rightarrow> ptr \<Rightarrow> am_bcopy_args \<Rightarrow> heap \<Rightarrow> nat \<times> heap" where
  "am_bcopy_data_pack_cb cfg dest bc_args h =
     (bc_len bc_args, mem_type_memcpy (uc_cuda cfg) (uc_mem cfg) dest (bc_data bc_args) (bc_len bc_args) h)"

definition ep_am_bcopy :: "'w uct_api \<Rightarrow> uct_config \<Rightarrow> nat \<Rightarrow> nat \<Rightarrow> am_bcopy_args \<Rightarrow> 'w uct \<Rightarrow> int \<times> 'w uct" where
  "ep_am_bcopy api cfg ep am_id args s =
     (case ut_bcopy_buffer api ep am_id (u_world s) of
        (Inl status, w) \<Rightarrow> (status, s\<lparr>u_world := w\<rparr>)
      | (Inr buf, w) \<Rightarrow>
          let (b, h) = lend buf (u_heap s);
              (len, h) = am_bcopy_data_pack_cb cfg (Addr b 0) args h;
              bs = peek (Addr b 0) len h; h = reclaim (Addr b 0) h;
              (ret, evs, w) = ut_bcopy_send api ep am_id bs w;
              s = u_log (U_am_bcopy ep am_id bs ret) (s\<lparr>u_heap := h, u_world := w\<rparr>)
          in (ret, uct_dispatch_all cfg evs s))"

definition do_am_bcopy :: "nat \<Rightarrow> 'w uct_api \<Rightarrow> uct_config \<Rightarrow> iface_info \<Rightarrow> nat \<Rightarrow> nat \<Rightarrow> ptr \<Rightarrow> 'w uct \<Rightarrow>
    (ucs_status \<times> 'w uct) option" where
  "do_am_bcopy fuel api cfg if_info ep am_id buf s = do {
     let args = \<lparr>bc_data = buf, bc_len = size_t (arg_test_strlen (uc_args cfg))\<rparr>;
     (len, s) \<leftarrow> poll_until fuel
        (\<lambda>s. let (len, s) = ep_am_bcopy api cfg ep am_id args s
             in (len, uct_worker_progress api cfg (if_worker if_info) s))
        (\<lambda>len. len = UCS_ERR_NO_RESOURCE) s;
     Some (if len \<ge> 0 then UCS_OK else c_int len, s)
   }"

text \<open>
  The completion object is a local variable of \<open>do_am_zcopy\<close>: \<open>u_comp\<close> is \<open>None\<close> again when the
  function has returned. The data is read from the caller's buffer by the device, whatever its kind.
\<close>

definition ep_am_zcopy :: "'w uct_api \<Rightarrow> uct_config \<Rightarrow> nat \<Rightarrow> nat \<Rightarrow> ptr \<Rightarrow> nat \<Rightarrow> nat option \<Rightarrow> 'w uct \<Rightarrow>
    ucs_status \<times> 'w uct" where
  "ep_am_zcopy api cfg ep am_id buf len memh s =
     (let (bs, h) = load any_kind buf len (u_heap s);
          (status, evs, w) = ut_am_zcopy api ep am_id bs memh (u_world s);
          s = u_log (U_am_zcopy ep am_id bs status) (s\<lparr>u_heap := h, u_world := w\<rparr>)
      in (status, uct_dispatch_all cfg evs s))"

definition zcopy_send :: "nat \<Rightarrow> 'w uct_api \<Rightarrow> uct_config \<Rightarrow> iface_info \<Rightarrow> nat \<Rightarrow> nat \<Rightarrow> ptr \<Rightarrow> nat \<Rightarrow> nat option \<Rightarrow>
    'w uct \<Rightarrow> (ucs_status \<times> 'w uct) option" where
  "zcopy_send fuel api cfg if_info ep am_id buf len memh s = do {
     (status, s) \<leftarrow> poll_until fuel
        (\<lambda>s. let (status, s) = ep_am_zcopy api cfg ep am_id buf len memh s
             in (status, uct_worker_progress api cfg (if_worker if_info) s))
        (\<lambda>status. status = UCS_ERR_NO_RESOURCE) s;
     if status = UCS_INPROGRESS then do {
       s \<leftarrow> spin fuel (\<lambda>s. desc_holder s \<noteq> NULLp) (uct_worker_progress api cfg (if_worker if_info)) s;
       Some (UCS_OK, s)
     }
     else Some (status, s)
   }"

definition do_am_zcopy :: "nat \<Rightarrow> 'w uct_api \<Rightarrow> uct_config \<Rightarrow> iface_info \<Rightarrow> nat \<Rightarrow> nat \<Rightarrow> ptr \<Rightarrow> 'w uct \<Rightarrow>
    (ucs_status \<times> 'w uct) option" where
  "do_am_zcopy fuel api cfg if_info ep am_id buf s =
     (let len = size_t (arg_test_strlen (uc_args cfg));
          (status, memh, s) =
            (if md_need_memh (if_md_attr if_info) then
               (let (status, mh, w) = ut_mem_reg api (if_md if_info) buf len (u_world s)
                in (status, Some mh, u_log_if (status = UCS_OK) (U_mem_reg mh) (s\<lparr>u_world := w\<rparr>)))
             else (UCS_OK, None, s));
          s = s\<lparr>u_comp := Some \<lparr>comp_count = 1, comp_status = UCS_OK, comp_md = if_md if_info, comp_memh = memh\<rparr>\<rparr>
      in if status \<noteq> UCS_OK then Some (status, s\<lparr>u_comp := None\<rparr>)
         else do {
           (status, s) \<leftarrow> zcopy_send fuel api cfg if_info ep am_id buf len memh s;
           Some (status, s\<lparr>u_comp := None\<rparr>)
         })"

end
