(* ===== verification/Uct_Program.thy ===== *)
theory Uct_Program
  imports Uct_Model
begin

text \<open>
  \<open>uct_hello_world.c\<close>: the command line, the search for a device and transport, the exchange of
  addresses and \<open>main\<close>. The labels of \<open>main\<close> are functions \<open>out_...\<close>, each falling through to the
  next; its local variables are the record \<open>uct_locals\<close>. The body of \<open>main\<close> is cut into stages, each
  calling the next or jumping to a label.
\<close>

section \<open>Command line\<close>

definition uct_defaults :: "bool \<Rightarrow> uct_config" where
  "uct_defaults hc = \<lparr>uc_args = \<lparr>arg_server_name = None, arg_server_port = 13337, arg_ai_family = AF_INET,
       arg_func_am_type = FUNC_AM_SHORT, arg_dev_name = None, arg_tl_name = None, arg_test_strlen = 16\<rparr>,
     uc_mem = UCS_MEMORY_TYPE_HOST, uc_cuda = hc\<rparr>"

definition print_err_usage :: ucs_status where
  "print_err_usage = UCS_ERR_UNSUPPORTED"

text \<open>One turn of the loop of \<open>parse_cmd\<close>; the port is cut to 16 bits before it is checked.\<close>

definition uct_parse_opt :: "char \<Rightarrow> string \<Rightarrow> uct_config \<Rightarrow> int + uct_config" where
  "uct_parse_opt c optarg cfg =
     (let a = uc_args cfg; put = (\<lambda>a. Inr (cfg\<lparr>uc_args := a\<rparr>)) in
      if c = CHR ''i'' then put (a\<lparr>arg_func_am_type := FUNC_AM_SHORT\<rparr>)
      else if c = CHR ''b'' then put (a\<lparr>arg_func_am_type := FUNC_AM_BCOPY\<rparr>)
      else if c = CHR ''z'' then put (a\<lparr>arg_func_am_type := FUNC_AM_ZCOPY\<rparr>)
      else if c = CHR ''d'' then put (a\<lparr>arg_dev_name := Some optarg\<rparr>)
      else if c = CHR ''t'' then put (a\<lparr>arg_tl_name := Some optarg\<rparr>)
      else if c = CHR ''n'' then put (a\<lparr>arg_server_name := Some optarg\<rparr>)
      else if c = CHR ''6'' then put (a\<lparr>arg_ai_family := AF_INET6\<rparr>)
      else if c = CHR ''p'' then
        (let port = word_of_int (atoi optarg) in
         if port \<le> 0 then Inl UCS_ERR_UNSUPPORTED else put (a\<lparr>arg_server_port := port\<rparr>))
      else if c = CHR ''s'' then
        (let len = atol optarg in
         if len < 0 then Inl UCS_ERR_UNSUPPORTED else put (a\<lparr>arg_test_strlen := len\<rparr>))
      else if c = CHR ''m'' then
        (let mt = parse_mem_type (uc_cuda cfg) (uc_mem cfg) optarg in
         if mt = UCS_MEMORY_TYPE_LAST then Inl UCS_ERR_UNSUPPORTED else Inr (cfg\<lparr>uc_mem := mt\<rparr>))
      else Inl print_err_usage)"

fun uct_parse_loop :: "(char \<times> string) list \<Rightarrow> uct_config \<Rightarrow> int + uct_config" where
  "uct_parse_loop [] cfg = Inr cfg"
| "uct_parse_loop ((c, optarg) # os) cfg =
     (case uct_parse_opt c optarg cfg of Inl ret \<Rightarrow> Inl ret | Inr cfg \<Rightarrow> uct_parse_loop os cfg)"

definition uct_parse_cmd :: "bool \<Rightarrow> string list \<Rightarrow> int + uct_config" where
  "uct_parse_cmd hc argv =
     (case uct_parse_loop (fst (getopt (opt_spec ''6ibzd:t:n:p:s:m:h'') (drop 1 argv))) (uct_defaults hc) of
        Inl ret \<Rightarrow> Inl ret
      | Inr cfg \<Rightarrow> if arg_dev_name (uc_args cfg) = None then Inl print_err_usage
                   else if arg_tl_name (uc_args cfg) = None then Inl print_err_usage
                   else Inr cfg)"

section \<open>Device and transport\<close>

definition init_iface :: "'w uct_api \<Rightarrow> uct_config \<Rightarrow> string \<Rightarrow> string \<Rightarrow> func_am \<Rightarrow> iface_info \<Rightarrow> 'w uct \<Rightarrow>
    ucs_status \<times> iface_info \<times> 'w uct" where
  "init_iface api cfg dev_name tl_name func_am_type p s =
     (let (status, config, w) = ut_iface_config_read api (if_md p) tl_name (u_world s); s = s\<lparr>u_world := w\<rparr> in
      if status \<noteq> UCS_OK then (UCS_ERR_UNSUPPORTED, p, s)
      else
        let s = u_log (U_config_read config) s;
            s = (if if_iface p \<noteq> None then u_fault AssertFailed s else s);
            (status, iface, w) = ut_iface_open api (if_md p) (if_worker p) tl_name dev_name config (u_world s);
            s = u_log_if (status = UCS_OK) (U_iface_open iface) (s\<lparr>u_world := w\<rparr>);
            s = u_log (U_config_release config) s in
        if status \<noteq> UCS_OK then (UCS_ERR_UNSUPPORTED, p, s)
        else
          let p = p\<lparr>if_iface := Some iface\<rparr>;
              s = s\<lparr>u_world := ut_progress_enable api iface (u_world s)\<rparr>;
              (status, attr, w) = ut_iface_query api iface (u_world s); s = s\<lparr>u_world := w\<rparr>;
              p = (if status = UCS_OK then p\<lparr>if_attr := attr\<rparr> else p) in
          if status = UCS_OK \<and>
             (func_am_type = FUNC_AM_SHORT \<and> cap_am_short attr \<and> uc_mem cfg \<noteq> UCS_MEMORY_TYPE_CUDA \<or>
              func_am_type = FUNC_AM_BCOPY \<and> cap_am_bcopy attr \<or>
              func_am_type = FUNC_AM_ZCOPY \<and> cap_am_zcopy attr)
          then (UCS_OK, p, s)
          else (UCS_ERR_UNSUPPORTED, p\<lparr>if_iface := None\<rparr>, u_log (U_iface_close iface) s))"

text \<open>\<open>strcmp\<close> of both names, the second only when the first agrees.\<close>

definition names_match :: "cmd_args \<Rightarrow> tl_resource \<Rightarrow> 'w uct \<Rightarrow> bool \<times> 'w uct" where
  "names_match a r s =
     (case arg_dev_name a of
        None \<Rightarrow> (False, u_fault NullDeref s)
      | Some d \<Rightarrow> if d \<noteq> res_dev_name r then (False, s)
                  else (case arg_tl_name a of
                      None \<Rightarrow> (False, u_fault NullDeref s)
                    | Some t \<Rightarrow> (t = res_tl_name r, s)))"

text \<open>The loop over the transports of a memory domain: the status, and whether it was left early.\<close>

fun tl_loop :: "'w uct_api \<Rightarrow> uct_config \<Rightarrow> tl_resource list \<Rightarrow> iface_info \<Rightarrow> 'w uct \<Rightarrow>
    ucs_status \<times> bool \<times> iface_info \<times> 'w uct" where
  "tl_loop api cfg [] p s = (UCS_OK, False, p, s)"
| "tl_loop api cfg (r # rs) p s =
     (let (same, s) = names_match (uc_args cfg) r s in
      if \<not> same then tl_loop api cfg rs p s
      else if arg_func_am_type (uc_args cfg) = FUNC_AM_ZCOPY \<and> \<not> md_reg_mem_types (if_md_attr p) (uc_mem cfg)
      then (UCS_ERR_UNSUPPORTED, True, p, s)
      else
        let (status, p, s) = init_iface api cfg (res_dev_name r) (res_tl_name r)
                               (arg_func_am_type (uc_args cfg)) p s in
        if status \<noteq> UCS_OK then (status, True, p, s)
        else (status, True, p, s\<lparr>u_out := u_out s @ [Out_using (res_tl_name r) (res_dev_name r)]\<rparr>))"

text \<open>
  The loop over the memory domains of a component; \<open>Some status\<close> is a jump to
  \<open>release_component_list\<close>.
\<close>

fun md_loop :: "'w uct_api \<Rightarrow> uct_config \<Rightarrow> nat \<Rightarrow> string list \<Rightarrow> iface_info \<Rightarrow> 'w uct \<Rightarrow>
    ucs_status option \<times> iface_info \<times> 'w uct" where
  "md_loop api cfg cmpt [] p s = (None, p, s)"
| "md_loop api cfg cmpt (md_name # names) p s =
     (let (status, md_config, w) = ut_md_config_read api cmpt (u_world s); s = s\<lparr>u_world := w\<rparr> in
      if status \<noteq> UCS_OK then (Some status, p, s)
      else
        let s = u_log (U_config_read md_config) s;
            (status, md, w) = ut_md_open api cmpt md_name md_config (u_world s);
            s = u_log_if (status = UCS_OK) (U_md_open md) (s\<lparr>u_world := w\<rparr>);
            s = u_log (U_config_release md_config) s in
        if status \<noteq> UCS_OK then (Some status, p, s)
        else
          let p = p\<lparr>if_md := md\<rparr>;
              (status, attr, w) = ut_md_query api md (u_world s); s = s\<lparr>u_world := w\<rparr> in
          if status \<noteq> UCS_OK then (Some status, p, u_log (U_md_close md) s)
          else
            let p = p\<lparr>if_md_attr := attr\<rparr>;
                (status, tls, w) = ut_query_tl api md (u_world s); s = s\<lparr>u_world := w\<rparr> in
            if status \<noteq> UCS_OK then (Some status, p, u_log (U_md_close md) s)
            else
              let s = u_log U_query_tl s;
                  (status, early, p, s) = tl_loop api cfg tls p s;
                  s = u_log U_release_tl s in
              if status = UCS_OK \<and> early then (Some status, p, s)
              else md_loop api cfg cmpt names p (u_log (U_md_close md) s))"

fun component_loop :: "'w uct_api \<Rightarrow> uct_config \<Rightarrow> nat list \<Rightarrow> iface_info \<Rightarrow> 'w uct \<Rightarrow>
    ucs_status option \<times> iface_info \<times> 'w uct" where
  "component_loop api cfg [] p s = (None, p, s)"
| "component_loop api cfg (cmpt # cmpts) p s =
     (let (status, count, w) = ut_md_resource_count api cmpt (u_world s); s = s\<lparr>u_world := w\<rparr> in
      if status \<noteq> UCS_OK then (Some status, p, s)
      else
        let (status, md_resources, w) = ut_md_resources api cmpt (u_world s); s = s\<lparr>u_world := w\<rparr> in
        if status \<noteq> UCS_OK then (Some status, p, s)
        else
          let p = p\<lparr>if_iface := None\<rparr>;
              (jump, p, s) = md_loop api cfg cmpt (map md_resources [0..<count]) p s in
          case jump of
            Some status \<Rightarrow> (Some status, p, s)
          | None \<Rightarrow> component_loop api cfg cmpts p s)"

definition dev_tl_lookup :: "'w uct_api \<Rightarrow> uct_config \<Rightarrow> iface_info \<Rightarrow> 'w uct \<Rightarrow>
    ucs_status \<times> iface_info \<times> 'w uct" where
  "dev_tl_lookup api cfg p s =
     (let (status, components, w) = ut_query_components api (u_world s); s = s\<lparr>u_world := w\<rparr> in
      if status \<noteq> UCS_OK then (status, p, s)
      else
        let s = u_log U_query_components s;
            (jump, p, s) = component_loop api cfg components p s
        in ((case jump of Some status \<Rightarrow> status | None \<Rightarrow> UCS_ERR_UNSUPPORTED), p,
            u_log U_release_components s))"

section \<open>Address exchange\<close>

definition sock_send :: "'w uct_api \<Rightarrow> int \<Rightarrow> byte list \<Rightarrow> 'w uct \<Rightarrow> int \<times> 'w uct" where
  "sock_send api fd bs s = (let (n, w) = so_send (ut_sock api) fd bs (u_world s) in (c_int n, s\<lparr>u_world := w\<rparr>))"

text \<open>\<open>recv\<close> writes at most the length it is given.\<close>

definition sock_recv :: "'w uct_api \<Rightarrow> int \<Rightarrow> nat \<Rightarrow> 'w uct \<Rightarrow> int \<times> byte list \<times> 'w uct" where
  "sock_recv api fd n s =
     (let (r, bs, w) = so_recv (ut_sock api) fd n (u_world s) in (c_int r, take n bs, s\<lparr>u_world := w\<rparr>))"

definition sendrecv :: "'w uct_api \<Rightarrow> int \<Rightarrow> ptr \<Rightarrow> nat \<Rightarrow> 'w uct \<Rightarrow> int \<times> ptr \<times> 'w uct" where
  "sendrecv api sock sbuf slen s =
     (let (ret, s) = sock_send api sock (le_bytes 8 slen) s in
      if ret < 0 \<or> ret \<noteq> 8 then (-1, NULLp, s)
      else
        let (bs, h) = load cpu_kind sbuf slen (u_heap s);
            (ret, s) = sock_send api sock bs (s\<lparr>u_heap := h\<rparr>) in
        if ret \<noteq> c_int (int slen) then (-1, NULLp, s)
        else
          let (ret, bs, s) = sock_recv api sock 8 s; rlen = of_le (splice 0 bs (replicate 8 0)) in
          if ret \<noteq> 8 \<or> int rlen > (2 ^ 64 - 1) div 2 then (-1, NULLp, s)
          else
            let (rbuf, h) = c_calloc rlen (u_heap s); s = s\<lparr>u_heap := h\<rparr> in
            if rbuf = NULLp then (-1, rbuf, s)
            else
              let (ret, bs, s) = sock_recv api sock rlen s;
                  s = u_on_heap (store cpu_kind rbuf bs) s in
              if ret \<noteq> c_int (int rlen) then (-1, rbuf, s) else (0, rbuf, s))"

section \<open>Labels of main\<close>

record uct_locals =
  l_async :: nat
  l_info :: iface_info
  l_own_dev :: ptr
  l_peer_dev :: ptr
  l_own_iface :: ptr
  l_peer_iface :: ptr
  l_own_ep :: ptr
  l_peer_ep :: ptr
  l_sock :: int
  l_ep :: nat

definition the_iface :: "uct_locals \<Rightarrow> nat" where
  "the_iface l = (case if_iface (l_info l) of Some i \<Rightarrow> i | None \<Rightarrow> 0)"

definition main_out :: "ucs_status \<Rightarrow> 'w uct \<Rightarrow> int \<times> 'w uct" where
  "main_out status s = (if status = UCS_ERR_UNSUPPORTED then UCS_OK else status, s)"

definition out_cleanup_async :: "uct_locals \<Rightarrow> ucs_status \<Rightarrow> 'w uct \<Rightarrow> int \<times> 'w uct" where
  "out_cleanup_async l status s = main_out status (u_log (U_async_destroy (l_async l)) s)"

definition out_destroy_worker :: "uct_locals \<Rightarrow> ucs_status \<Rightarrow> 'w uct \<Rightarrow> int \<times> 'w uct" where
  "out_destroy_worker l status s =
     out_cleanup_async l status (u_log (U_worker_destroy (if_worker (l_info l))) s)"

definition out_destroy_iface :: "uct_locals \<Rightarrow> ucs_status \<Rightarrow> 'w uct \<Rightarrow> int \<times> 'w uct" where
  "out_destroy_iface l status s =
     out_destroy_worker l status (u_log (U_md_close (if_md (l_info l))) (u_log (U_iface_close (the_iface l)) s))"

definition out_free_dev_addrs :: "uct_locals \<Rightarrow> ucs_status \<Rightarrow> 'w uct \<Rightarrow> int \<times> 'w uct" where
  "out_free_dev_addrs l status s =
     out_destroy_iface l status (u_on_heap (c_free (l_peer_dev l)) (u_on_heap (c_free (l_own_dev l)) s))"

definition out_free_if_addrs :: "uct_locals \<Rightarrow> ucs_status \<Rightarrow> 'w uct \<Rightarrow> int \<times> 'w uct" where
  "out_free_if_addrs l status s =
     out_free_dev_addrs l status (u_on_heap (c_free (l_peer_iface l)) (u_on_heap (c_free (l_own_iface l)) s))"

text \<open>\<open>close (-1)\<close> is refused by the system and closes nothing.\<close>

definition out_close_oob_sock :: "'w uct_api \<Rightarrow> uct_locals \<Rightarrow> ucs_status \<Rightarrow> 'w uct \<Rightarrow> int \<times> 'w uct" where
  "out_close_oob_sock api l status s =
     (let s = s\<lparr>u_world := so_close (ut_sock api) (l_sock l) (u_world s)\<rparr>
      in out_free_if_addrs l status (u_log_if (l_sock l \<ge> 0) (U_sock (S_close (l_sock l))) s))"

definition out_free_ep_addrs :: "'w uct_api \<Rightarrow> uct_locals \<Rightarrow> ucs_status \<Rightarrow> 'w uct \<Rightarrow> int \<times> 'w uct" where
  "out_free_ep_addrs api l status s =
     out_close_oob_sock api l status (u_on_heap (c_free (l_peer_ep l)) (u_on_heap (c_free (l_own_ep l)) s))"

definition out_free_ep :: "'w uct_api \<Rightarrow> uct_locals \<Rightarrow> ucs_status \<Rightarrow> 'w uct \<Rightarrow> int \<times> 'w uct" where
  "out_free_ep api l status s = out_free_ep_addrs api l status (u_log (U_ep_destroy (l_ep l)) s)"

section \<open>Stages of main\<close>

abbreviation (input) am_id :: nat where
  "am_id \<equiv> 0"

definition uct_barrier :: "nat \<Rightarrow> 'w uct_api \<Rightarrow> uct_config \<Rightarrow> uct_locals \<Rightarrow> 'w uct \<Rightarrow> (int \<times> 'w uct) option" where
  "uct_barrier fuel api cfg l s =
     barrier fuel (ut_sock api) u_world (\<lambda>w s. s\<lparr>u_world := w\<rparr>) (l_sock l)
       (progress_worker api cfg (if_worker (l_info l))) s"

text \<open>The contents of an address buffer, as the library reads it; a null pointer is no address.\<close>

definition addr_of :: "ptr \<Rightarrow> 'w uct \<Rightarrow> byte list option" where
  "addr_of p s = (case p of Addr b off \<Rightarrow> map_option (\<lambda>k. drop off (b_bytes k)) (blocks (u_heap s) b) | _ \<Rightarrow> None)"

definition uct_client_send :: "nat \<Rightarrow> 'w uct_api \<Rightarrow> uct_config \<Rightarrow> uct_locals \<Rightarrow> 'w uct \<Rightarrow>
    ((ucs_status \<times> bool) \<times> 'w uct) option" where
  "uct_client_send fuel api cfg l s =
     (let a = uc_args cfg;
          (str, h) = mem_type_malloc (uc_cuda cfg) (uc_mem cfg) (size_t (arg_test_strlen a)) (u_heap s);
          s = s\<lparr>u_heap := h\<rparr> in
      if str = NULLp then Some ((UCS_ERR_NO_MEMORY, False), s)
      else
        let (res, h) = uct_generate_test_string (uc_cuda cfg) (uc_mem cfg) str (c_int (arg_test_strlen a)) (u_heap s);
            s = s\<lparr>u_heap := h\<rparr> in
        if res < 0 then Some ((UCS_ERR_NO_MEMORY, False), s)
        else do {
          (status, s) \<leftarrow> (case arg_func_am_type a of
              FUNC_AM_SHORT \<Rightarrow> do_am_short fuel api cfg (l_info l) (l_ep l) am_id str s
            | FUNC_AM_BCOPY \<Rightarrow> do_am_bcopy fuel api cfg (l_info l) (l_ep l) am_id str s
            | FUNC_AM_ZCOPY \<Rightarrow> do_am_zcopy fuel api cfg (l_info l) (l_ep l) am_id str s);
          let s = u_on_heap (mem_type_free (uc_cuda cfg) (uc_mem cfg) str) s;
          Some ((status, status = UCS_OK), s)
        })"

definition uct_server_recv :: "nat \<Rightarrow> 'w uct_api \<Rightarrow> uct_config \<Rightarrow> uct_locals \<Rightarrow> 'w uct \<Rightarrow> 'w uct option" where
  "uct_server_recv fuel api cfg l s = do {
     s \<leftarrow> spin fuel (\<lambda>s. desc_holder s \<noteq> NULLp) (uct_worker_progress api cfg (if_worker (l_info l))) s;
     let rdesc = desc_holder s;
     let s = print_strings ''main'' (func_am_t_str (arg_func_am_type (uc_args cfg))) (ptr_add rdesc 4)
               (size_t (arg_test_strlen (uc_args cfg))) s;
     let (flag, h) = load cpu_kind rdesc 4 (u_heap s);
     let s = s\<lparr>u_heap := h\<rparr>;
     Some (if of_le flag \<noteq> 0 then u_on_heap (reclaim rdesc) s else u_on_heap (c_free rdesc) s)
   }"

definition uct_transfer :: "nat \<Rightarrow> 'w uct_api \<Rightarrow> uct_config \<Rightarrow> uct_locals \<Rightarrow> ucs_status \<Rightarrow> 'w uct \<Rightarrow>
    (int \<times> 'w uct) option" where
  "uct_transfer fuel api cfg l status s =
     (let a = uc_args cfg in
      if size_t (arg_test_strlen a) > func_am_max_size (arg_func_am_type a) (if_attr (l_info l))
      then Some (out_free_ep api l UCS_ERR_UNSUPPORTED s)
      else do {
        ((status, go_on), s) \<leftarrow> (case arg_server_name a of
            Some _ \<Rightarrow> uct_client_send fuel api cfg l s
          | None \<Rightarrow> map_option (Pair (status, True)) (uct_server_recv fuel api cfg l s));
        if \<not> go_on then Some (out_free_ep api l status s)
        else do {
          (r, s) \<leftarrow> uct_barrier fuel api cfg l s;
          Some (out_free_ep api l (if r \<noteq> 0 then UCS_ERR_IO_ERROR else status) s)
        }
      })"

definition uct_connect :: "nat \<Rightarrow> 'w uct_api \<Rightarrow> uct_config \<Rightarrow> uct_locals \<Rightarrow> 'w uct \<Rightarrow> (int \<times> 'w uct) option" where
  "uct_connect fuel api cfg l s =
     (let attr = if_attr (l_info l) in
      if cap_connect_to_ep attr then
        (let (own_ep, h) = c_calloc (ep_addr_len attr) (u_heap s); s = s\<lparr>u_heap := h\<rparr>; l = l\<lparr>l_own_ep := own_ep\<rparr> in
         if own_ep = NULLp then Some (out_close_oob_sock api l UCS_ERR_NO_MEMORY s)
         else
           let (status, ep, w) = ut_ep_create api (the_iface l) None (u_world s);
               s = u_log_if (status = UCS_OK) (U_ep_create ep) (s\<lparr>u_world := w\<rparr>) in
           if status \<noteq> UCS_OK then Some (out_free_ep_addrs api l status s)
           else
             let l = l\<lparr>l_ep := ep\<rparr>;
                 (status, bs, w) = ut_ep_get_address api ep (u_world s);
                 s = u_on_heap (if status = UCS_OK then store cpu_kind own_ep bs else id) (s\<lparr>u_world := w\<rparr>) in
             if status \<noteq> UCS_OK then Some (out_free_ep api l status s)
             else
               let (status, peer_ep, s) = sendrecv api (l_sock l) own_ep (ep_addr_len attr) s; l = l\<lparr>l_peer_ep := peer_ep\<rparr> in
               if status \<noteq> 0 then Some (out_free_ep api l status s)
               else
                 let (status, w) = ut_connect_to_ep api ep (addr_of (l_peer_dev l) s) (addr_of peer_ep s) (u_world s);
                     s = s\<lparr>u_world := w\<rparr>
                 in do {
                   (r, s) \<leftarrow> uct_barrier fuel api cfg l s;
                   if r \<noteq> 0 then Some (out_free_ep api l UCS_ERR_IO_ERROR s)
                   else uct_transfer fuel api cfg l status s
                 })
      else if cap_connect_to_iface attr then
        (let (status, ep, w) = ut_ep_create api (the_iface l)
               (Some (addr_of (l_peer_dev l) s, addr_of (l_peer_iface l) s)) (u_world s);
             s = u_log_if (status = UCS_OK) (U_ep_create ep) (s\<lparr>u_world := w\<rparr>) in
         if status \<noteq> UCS_OK then Some (out_free_ep_addrs api l status s)
         else uct_transfer fuel api cfg (l\<lparr>l_ep := ep\<rparr>) status s)
      else Some (out_free_ep_addrs api l UCS_ERR_UNSUPPORTED s))"

definition uct_reach :: "nat \<Rightarrow> 'w uct_api \<Rightarrow> uct_config \<Rightarrow> uct_locals \<Rightarrow> 'w uct \<Rightarrow> (int \<times> 'w uct) option" where
  "uct_reach fuel api cfg l s =
     (let (r, w) = ut_is_reachable api (the_iface l) (addr_of (l_peer_dev l) s) (addr_of (l_peer_iface l) s) (u_world s);
          s = s\<lparr>u_world := w\<rparr> in
      if r = 0 then Some (out_close_oob_sock api l r s)
      else uct_connect fuel api cfg l s)"

definition uct_iface_address :: "nat \<Rightarrow> 'w uct_api \<Rightarrow> uct_config \<Rightarrow> uct_locals \<Rightarrow> 'w uct \<Rightarrow>
    (int \<times> 'w uct) option" where
  "uct_iface_address fuel api cfg l s =
     (let len = iface_addr_len (if_attr (l_info l)) in
      if len > 0 then
        (let (status, bs, w) = ut_get_address api (the_iface l) (u_world s);
             s = u_on_heap (if status = UCS_OK then store cpu_kind (l_own_iface l) bs else id) (s\<lparr>u_world := w\<rparr>) in
         if status \<noteq> UCS_OK then Some (out_close_oob_sock api l status s)
         else
           let (status, peer_iface, s) = sendrecv api (l_sock l) (l_own_iface l) len s; l = l\<lparr>l_peer_iface := peer_iface\<rparr> in
           if status \<noteq> 0 then Some (out_close_oob_sock api l status s)
           else uct_reach fuel api cfg l s)
      else uct_reach fuel api cfg l s)"

definition uct_device_address :: "nat \<Rightarrow> 'w uct_api \<Rightarrow> uct_config \<Rightarrow> uct_locals \<Rightarrow> 'w uct \<Rightarrow>
    (int \<times> 'w uct) option" where
  "uct_device_address fuel api cfg l s =
     (let len = device_addr_len (if_attr (l_info l)) in
      if len > 0 then
        (let (status, bs, w) = ut_get_device_address api (the_iface l) (u_world s);
             s = u_on_heap (if status = UCS_OK then store cpu_kind (l_own_dev l) bs else id) (s\<lparr>u_world := w\<rparr>) in
         if status \<noteq> UCS_OK then Some (out_free_if_addrs l status s)
         else
           let (res, peer_dev, s) = sendrecv api (l_sock l) (l_own_dev l) len s; l = l\<lparr>l_peer_dev := peer_dev\<rparr> in
           if res \<noteq> 0 then Some (out_close_oob_sock api l UCS_ERR_NO_MESSAGE s)
           else uct_iface_address fuel api cfg l s)
      else uct_iface_address fuel api cfg l s)"

definition uct_setup :: "nat \<Rightarrow> 'w uct_api \<Rightarrow> uct_config \<Rightarrow> uct_locals \<Rightarrow> 'w uct \<Rightarrow> (int \<times> 'w uct) option" where
  "uct_setup fuel api cfg l s =
     (let (status, w) = ut_set_am_handler api (the_iface l) am_id (u_world s);
          s = u_log (U_set_am_handler (the_iface l) am_id) (s\<lparr>u_world := w\<rparr>) in
      if status \<noteq> UCS_OK then Some (out_destroy_iface l status s)
      else
        let (own_dev, h) = c_calloc (device_addr_len (if_attr (l_info l))) (u_heap s);
            s = s\<lparr>u_heap := h\<rparr>; l = l\<lparr>l_own_dev := own_dev\<rparr> in
        if own_dev = NULLp then Some (out_destroy_iface l status s)
        else
          let (own_iface, h) = c_calloc (iface_addr_len (if_attr (l_info l))) (u_heap s);
              s = s\<lparr>u_heap := h\<rparr>; l = l\<lparr>l_own_iface := own_iface\<rparr> in
          if own_iface = NULLp then Some (out_free_dev_addrs l status s)
          else
            let a = uc_args cfg;
                (oob_sock, calls, w) = connect_common (ut_sock api) (arg_server_name a) (arg_server_port a)
                   (arg_ai_family a) (u_world s);
                s = s\<lparr>u_world := w, u_trace := u_trace s @ map U_sock calls\<rparr>; l = l\<lparr>l_sock := oob_sock\<rparr> in
            if oob_sock < 0 then Some (out_close_oob_sock api l UCS_ERR_IO_ERROR s)
            else uct_device_address fuel api cfg l s)"

text \<open>\<open>l\<close> is what the uninitialised locals hold; the pointers main initialises are set here.\<close>

definition uct_main :: "nat \<Rightarrow> 'w uct_api \<Rightarrow> bool \<Rightarrow> string list \<Rightarrow> uct_locals \<Rightarrow> 'w uct \<Rightarrow> (int \<times> 'w uct) option" where
  "uct_main fuel api hc argv l s =
     (case uct_parse_cmd hc argv of
        Inl _ \<Rightarrow> Some (main_out UCS_ERR_INVALID_PARAM s)
      | Inr cfg \<Rightarrow>
          let l = l\<lparr>l_peer_dev := NULLp, l_peer_iface := NULLp, l_own_ep := NULLp, l_peer_ep := NULLp, l_sock := -1\<rparr>;
              (status, async, w) = ut_async_create api (u_world s);
              s = u_log_if (status = UCS_OK) (U_async_create async) (s\<lparr>u_world := w\<rparr>) in
          if status \<noteq> UCS_OK then Some (main_out status s)
          else
            let l = l\<lparr>l_async := async\<rparr>;
                (status, worker, w) = ut_worker_create api async (u_world s);
                s = u_log_if (status = UCS_OK) (U_worker_create worker) (s\<lparr>u_world := w\<rparr>) in
            if status \<noteq> UCS_OK then Some (out_cleanup_async l status s)
            else
              let (status, info, s) = dev_tl_lookup api cfg ((l_info l)\<lparr>if_worker := worker\<rparr>) s;
                  l = l\<lparr>l_info := info\<rparr> in
              if status \<noteq> UCS_OK then Some (out_destroy_worker l status s)
              else uct_setup fuel api cfg l s)"

definition uct_start :: "heap \<Rightarrow> 'w \<Rightarrow> 'w uct" where
  "uct_start h w = \<lparr>u_heap = h, desc_holder = NULLp, u_comp = None, u_trace = [], u_out = [], u_world = w\<rparr>"

section \<open>Settings\<close>

definition uct_settings_ok :: "bool \<Rightarrow> uct_config \<Rightarrow> bool" where
  "uct_settings_ok hc cfg \<longleftrightarrow> arg_server_port (uc_args cfg) \<noteq> 0 \<and> 0 \<le> arg_test_strlen (uc_args cfg) \<and>
     arg_test_strlen (uc_args cfg) < 2 ^ 63 \<and> uc_cuda cfg = hc \<and> uc_mem cfg \<noteq> UCS_MEMORY_TYPE_LAST \<and>
     arg_ai_family (uc_args cfg) \<noteq> AF_UNSPEC"

interpretation uto: option_loop uct_parse_opt uct_parse_loop "uct_settings_ok hc" for hc
proof
  show "uct_parse_opt c a x = Inr y \<Longrightarrow> uct_settings_ok hc x \<Longrightarrow> uct_settings_ok hc y" for c a x y
    using strtol_range[of a] by (auto simp: uct_parse_opt_def uct_settings_ok_def atol_def Let_def split: if_splits)
qed simp_all

end
