(* ===== verification/Uct_Resources.thy ===== *)
theory Uct_Resources
  imports Uct_Program
begin

text \<open>
  What \<open>uct_hello_world.c\<close> owns outside its heap: contexts, workers, memory domains, interfaces,
  endpoints, registrations, lists and configurations of the UCT library, and sockets. Facts about
  the trace of external calls, for any behaviour of the library and of the socket layer.
\<close>

section \<open>Resources of the calls\<close>

datatype uct_res = UR_async nat | UR_worker nat | UR_components | UR_config nat | UR_md nat | UR_tl
  | UR_iface nat | UR_ep nat | UR_memh nat | UR_sock sock_res

fun uct_acquires :: "uct_call \<Rightarrow> uct_res option" where
  "uct_acquires (U_async_create a) = Some (UR_async a)"
| "uct_acquires (U_worker_create a) = Some (UR_worker a)"
| "uct_acquires U_query_components = Some UR_components"
| "uct_acquires (U_config_read a) = Some (UR_config a)"
| "uct_acquires (U_md_open a) = Some (UR_md a)"
| "uct_acquires U_query_tl = Some UR_tl"
| "uct_acquires (U_iface_open a) = Some (UR_iface a)"
| "uct_acquires (U_ep_create a) = Some (UR_ep a)"
| "uct_acquires (U_mem_reg a) = Some (UR_memh a)"
| "uct_acquires (U_sock c) = map_option UR_sock (sock_acquires c)"
| "uct_acquires _ = None"

fun uct_releases :: "uct_call \<Rightarrow> uct_res option" where
  "uct_releases (U_async_destroy a) = Some (UR_async a)"
| "uct_releases (U_worker_destroy a) = Some (UR_worker a)"
| "uct_releases U_release_components = Some UR_components"
| "uct_releases (U_config_release a) = Some (UR_config a)"
| "uct_releases (U_md_close a) = Some (UR_md a)"
| "uct_releases U_release_tl = Some UR_tl"
| "uct_releases (U_iface_close a) = Some (UR_iface a)"
| "uct_releases (U_ep_destroy a) = Some (UR_ep a)"
| "uct_releases (U_mem_dereg a) = Some (UR_memh a)"
| "uct_releases (U_sock c) = map_option UR_sock (sock_releases c)"
| "uct_releases _ = None"

interpretation utr: traced_program uct_acquires uct_releases "u_trace :: 'w uct \<Rightarrow> uct_call list"
proof
  fix c show "uct_acquires c = None \<or> uct_releases c = None"
    by (cases c) (use sor.one_effect in auto)
qed

abbreviation uct_triple :: "uct_res multiset \<Rightarrow> 'w uct \<Rightarrow> 'w uct \<Rightarrow> uct_res multiset \<Rightarrow> bool" where
  "uct_triple \<equiv> traced_triple uct_acquires uct_releases u_trace"

lemmas uct_triple_def = traced_triple_def[of uct_acquires uct_releases u_trace]
lemmas uct_triple_same = utr.st_same
lemmas uct_triple_refl [simp, intro] = utr.st_refl
lemmas uct_triple_trans [trans] = utr.st_trans
lemmas uct_triple_frame = utr.st_frame
lemmas uct_triple_release = utr.st_release
lemmas uct_triple_acquire = utr.st_acquire

lemma u_trace_log [simp, trace_simps]: "u_trace (u_log c s) = u_trace s @ [c]"
  "u_trace (u_log_if b c s) = u_trace s @ (if b then [c] else [])"
  by (simp_all add: u_log_def u_log_if_def)

lemma u_world_log [simp, frame_simps]: "u_world (u_log c s) = u_world s" "u_world (u_log_if b c s) = u_world s"
  "u_heap (u_log c s) = u_heap s" "u_heap (u_log_if b c s) = u_heap s"
  "desc_holder (u_log c s) = desc_holder s" "u_comp (u_log c s) = u_comp s"
  "desc_holder (u_log_if b c s) = desc_holder s" "u_comp (u_log_if b c s) = u_comp s"
  by (simp_all add: u_log_def u_log_if_def)

lemma u_heap_frame [simp, frame_simps]: "u_trace (u_on_heap f s) = u_trace s" "u_trace (u_fault g s) = u_trace s"
  "u_world (u_on_heap f s) = u_world s" "u_comp (u_on_heap f s) = u_comp s" "u_comp (u_fault g s) = u_comp s"
  "u_world (u_fault g s) = u_world s" "desc_holder (u_on_heap f s) = desc_holder s"
  "desc_holder (u_fault g s) = desc_holder s"
  by (simp_all add: u_on_heap_def u_fault_def)

lemmas uct_step_simps = uct_triple_def res_triple_def

section \<open>Callbacks\<close>

lemma print_strings_frame [simp, frame_simps]: "u_trace (print_strings a b c n s) = u_trace s"
  "u_comp (print_strings a b c n s) = u_comp s" "u_world (print_strings a b c n s) = u_world s"
  "desc_holder (print_strings a b c n s) = desc_holder s"
  by (simp_all add: print_strings_def Let_def split_beta)

lemma hello_world_frame [simp, frame_simps]: "u_trace (snd (hello_world f d n g s)) = u_trace s"
  "u_comp (snd (hello_world f d n g s)) = u_comp s"
  by (simp_all add: hello_world_def Let_def split_beta)

lemma deliver_am_frame [simp, frame_simps]: "u_trace (deliver_am f bs d s) = u_trace s"
  "u_comp (deliver_am f bs d s) = u_comp s"
  by (simp_all add: deliver_am_def Let_def split_beta)

text \<open>The registration that the completion object still holds.\<close>

definition pending :: "'w uct \<Rightarrow> uct_res multiset" where
  "pending s = (case u_comp s of
     Some cm \<Rightarrow> (case comp_memh cm of Some mh \<Rightarrow> if 0 < comp_count cm then {#UR_memh mh#} else {#} | None \<Rightarrow> {#})
   | None \<Rightarrow> {#})"

text \<open>
  Steps of the library: whatever it calls back, the registration of the completion object is
  released at most once, and never when the object does not hold it.
\<close>

definition lib_step :: "'w uct \<Rightarrow> 'w uct \<Rightarrow> bool" where
  "lib_step s s' \<longleftrightarrow> (\<forall>P. \<exists>L. L \<subseteq># pending s \<and> pending s' \<subseteq># L \<and> uct_triple (P + pending s) s s' (P + L)) \<and>
     map_option comp_memh (u_comp s') = map_option comp_memh (u_comp s)"

lemma lib_stepI:
  assumes "\<And>P. uct_triple (P + pending s) s s' (P + L)" "L \<subseteq># pending s" "pending s' \<subseteq># L"
    and "map_option comp_memh (u_comp s') = map_option comp_memh (u_comp s)"
  shows "lib_step s s'"
  using assms unfolding lib_step_def by blast

lemma lib_step_frame:
  assumes "u_comp s' = u_comp s" "u_trace s' = u_trace s @ t" "\<And>P. res_triple uct_acquires uct_releases P t P"
  shows "lib_step s s'"
proof -
  have "pending s' = pending s" using assms(1) by (simp add: pending_def)
  with assms show ?thesis by (intro lib_stepI[of s s' "pending s"]) (auto simp: uct_triple_def)
qed

lemma lib_step_same: "u_comp s' = u_comp s \<Longrightarrow> u_trace s' = u_trace s \<Longrightarrow> lib_step s s'"
  by (rule lib_step_frame[where t = "[]"]) (auto intro: utr.triple_nil)

lemma lib_step_trans [trans]:
  assumes "lib_step s s'" "lib_step s' s''"
  shows "lib_step s s''"
  unfolding lib_step_def
proof (intro conjI allI)
  fix P
  from assms(1) obtain L where L: "L \<subseteq># pending s" "pending s' \<subseteq># L" "uct_triple (P + pending s) s s' (P + L)"
    unfolding lib_step_def by blast
  let ?P = "P + (L - pending s')"
  from assms(2) obtain M where M: "M \<subseteq># pending s'" "pending s'' \<subseteq># M"
    "uct_triple (?P + pending s') s' s'' (?P + M)"
    unfolding lib_step_def by blast
  have e: "?P + pending s' = P + L"
    using subset_mset.diff_add[OF L(2)] by (simp only: add.assoc)
  have "uct_triple (P + pending s) s s'' (P + (L - pending s' + M))"
    using uct_triple_trans[OF L(3)] M(3) unfolding e by (simp add: add.assoc)
  moreover have "L - pending s' + M \<subseteq># L"
    using M(1) L(2) by (metis subset_mset.add_left_mono subset_mset.diff_add)
  then have "L - pending s' + M \<subseteq># pending s" using L(1) by (rule subset_mset.order_trans)
  moreover have "pending s'' \<subseteq># L - pending s' + M" using M(2) by (simp add: subset_mset.add_increasing)
  ultimately show "\<exists>L. L \<subseteq># pending s \<and> pending s'' \<subseteq># L \<and> uct_triple (P + pending s) s s'' (P + L)" by blast
next
  show "map_option comp_memh (u_comp s'') = map_option comp_memh (u_comp s)"
    using assms by (simp add: lib_step_def)
qed

lemma lib_step_refl [simp]: "lib_step s s"
  by (rule lib_step_same) simp_all

text \<open>Outside \<open>do_am_zcopy\<close> the library has nothing to release.\<close>

lemma lib_step_idle:
  assumes "lib_step s s'" "u_comp s = None"
  shows "uct_triple P s s' P \<and> u_comp s' = None"
proof -
  have "pending s = {#}" using assms(2) by (simp add: pending_def)
  with assms show ?thesis by (auto simp: lib_step_def)
qed

lemma complete_one_step: "lib_step s (complete_one st s)"
proof (cases "u_comp s")
  case None
  then show ?thesis by (intro lib_step_same) (simp_all add: complete_one_def)
next
  case (Some cm)
  note d = complete_one_def zcopy_completion_cb_def pending_def
  show ?thesis
  proof (cases "comp_memh cm")
    case None
    with Some have "u_trace (complete_one st s) = u_trace s" "pending (complete_one st s) = {#}" "pending s = {#}"
      "map_option comp_memh (u_comp (complete_one st s)) = map_option comp_memh (u_comp s)"
      by (simp_all add: d Let_def)
    then show ?thesis by (intro lib_stepI[of s _ "{#}"]) (auto intro: uct_triple_same)
  next
    case (Some mh)
    show ?thesis
    proof (cases "comp_count cm = 1 \<and> (if comp_status cm = UCS_OK then st else comp_status cm) = UCS_OK")
      case True
      with \<open>u_comp s = Some cm\<close> Some show ?thesis
        by (intro lib_stepI[of s _ "{#}"]) (auto simp: d Let_def intro: uct_triple_release[of "U_mem_dereg mh"])
    next
      case False
      with \<open>u_comp s = Some cm\<close> Some have "u_trace (complete_one st s) = u_trace s"
        "pending (complete_one st s) \<subseteq># pending s"
        "map_option comp_memh (u_comp (complete_one st s)) = map_option comp_memh (u_comp s)"
        by (auto simp: d Let_def)
      then show ?thesis by (intro lib_stepI[of s _ "pending s"]) (auto intro: uct_triple_same)
    qed
  qed
qed

lemma uct_dispatch_step: "lib_step s (uct_dispatch cfg ev s)"
  by (cases ev) (simp_all add: complete_one_step lib_step_same)

lemma uct_dispatch_all_step: "lib_step s (uct_dispatch_all cfg evs s)"
  unfolding uct_dispatch_all_def
  by (induction evs arbitrary: s) (auto intro: lib_step_trans[OF uct_dispatch_step])

lemma lib_step_before: "u_comp t = u_comp s \<Longrightarrow> u_trace t = u_trace s \<Longrightarrow> lib_step t s' \<Longrightarrow> lib_step s s'"
  using lib_step_trans[OF lib_step_same] by metis

lemma uct_progress_step: "lib_step s (uct_worker_progress api cfg wk s)"
  unfolding uct_worker_progress_def Let_def split_beta
  by (rule lib_step_before[OF _ _ uct_dispatch_all_step]) simp_all

lemma am_short_step: "lib_step s (snd (ep_am_short api cfg ep i a s))"
proof -
  obtain bs h where ld: "(if sh_len a = 0 then ([], u_heap s) else load cpu_kind (sh_payload a) (sh_len a) (u_heap s)) = (bs, h)"
    by fastforce
  obtain st evs w where sd: "ut_am_short api ep i (sh_header a) bs (u_world s) = (st, evs, w)" using prod_cases3 by blast
  let ?s = "u_log (U_am_short ep i (sh_header a) bs st) (s\<lparr>u_heap := h, u_world := w\<rparr>)"
  have "lib_step s ?s"
    by (rule lib_step_frame[of _ _ "[U_am_short ep i (sh_header a) bs st]"]) (auto intro: utr.triple_neutral)
  also have "lib_step ?s (uct_dispatch_all cfg evs ?s)" by (rule uct_dispatch_all_step)
  finally show ?thesis using ld sd by (simp add: ep_am_short_def)
qed

lemma am_bcopy_step: "lib_step s (snd (ep_am_bcopy api cfg ep i a s))"
proof -
  obtain r w where bf: "ut_bcopy_buffer api ep i (u_world s) = (r, w)" by fastforce
  show ?thesis
  proof (cases r)
    case (Inl st)
    with bf show ?thesis by (simp add: ep_am_bcopy_def lib_step_same)
  next
    case (Inr buf)
    obtain b h where ln: "lend buf (u_heap s) = (b, h)" by fastforce
    obtain len h' where pk: "am_bcopy_data_pack_cb cfg (Addr b 0) a h = (len, h')" by fastforce
    obtain st evs w' where sd: "ut_bcopy_send api ep i (peek (Addr b 0) len h') w = (st, evs, w')"
      using prod_cases3 by blast
    let ?s = "u_log (U_am_bcopy ep i (peek (Addr b 0) len h') st)
       (s\<lparr>u_heap := reclaim (Addr b 0) h', u_world := w'\<rparr>)"
    have "lib_step s ?s"
      by (rule lib_step_frame[of _ _ "[U_am_bcopy ep i (peek (Addr b 0) len h') st]"]) (auto intro: utr.triple_neutral)
    also have "lib_step ?s (uct_dispatch_all cfg evs ?s)" by (rule uct_dispatch_all_step)
    finally show ?thesis using bf Inr ln pk sd by (simp add: ep_am_bcopy_def)
  qed
qed

lemma am_zcopy_step: "lib_step s (snd (ep_am_zcopy api cfg ep i buf n m s))"
proof -
  obtain bs h where ld: "load any_kind buf n (u_heap s) = (bs, h)" by fastforce
  obtain st evs w where sd: "ut_am_zcopy api ep i bs m (u_world s) = (st, evs, w)" using prod_cases3 by blast
  let ?s = "u_log (U_am_zcopy ep i bs st) (s\<lparr>u_heap := h, u_world := w\<rparr>)"
  have "lib_step s ?s"
    by (rule lib_step_frame[of _ _ "[U_am_zcopy ep i bs st]"]) (auto intro: utr.triple_neutral)
  also have "lib_step ?s (uct_dispatch_all cfg evs ?s)" by (rule uct_dispatch_all_step)
  finally show ?thesis using ld sd by (simp add: ep_am_zcopy_def)
qed

text \<open>The loops that send and progress until the resource is there.\<close>

lemma send_loop_step:
  assumes "poll_until fuel (\<lambda>s. let (st, s) = send s in (st, uct_worker_progress api cfg wk s)) again s = Some (x, s')"
    and "\<And>s. lib_step s (snd (send s))"
  shows "lib_step s s'"
proof (rule poll_until_inv[OF assms(1)])
  show "lib_step s (snd (let (st, u) = send u in (st, uct_worker_progress api cfg wk u)))" if "lib_step s u" for u
    using lib_step_trans[OF that lib_step_trans[OF assms(2) uct_progress_step]] by (simp add: split_beta)
qed simp

lemma spin_step:
  assumes "spin fuel fin (uct_worker_progress api cfg wk) s = Some s'"
  shows "lib_step s s'"
  using assms by (rule spin_inv) (auto intro: lib_step_trans uct_progress_step)

lemma do_am_short_triple:
  assumes "do_am_short fuel api cfg info ep i buf s = Some (st, s')" "u_comp s = None"
  shows "uct_triple P s s' P \<and> u_comp s' = None"
proof -
  obtain a h where "am_short_params_pack buf (size_t (arg_test_strlen (uc_args cfg))) (u_heap s) = (a, h)" by fastforce
  with assms(1) have "poll_until fuel
      (\<lambda>s. let (status, s) = ep_am_short api cfg ep i a s in (status, uct_worker_progress api cfg (if_worker info) s))
      (\<lambda>status. status = UCS_ERR_NO_RESOURCE) (s\<lparr>u_heap := h\<rparr>) = Some (st, s')"
    by (simp only: do_am_short_def Let_def split)
  then have "lib_step (s\<lparr>u_heap := h\<rparr>) s'" by (rule send_loop_step) (rule am_short_step)
  then have "lib_step s s'" by (rule lib_step_before[rotated 2]) simp_all
  with assms(2) show ?thesis by (blast dest: lib_step_idle)
qed

lemma do_am_bcopy_triple:
  assumes "do_am_bcopy fuel api cfg info ep i buf s = Some (st, s')" "u_comp s = None"
  shows "uct_triple P s s' P \<and> u_comp s' = None"
proof -
  from assms(1) obtain len where "poll_until fuel
      (\<lambda>s. let (len, s) = ep_am_bcopy api cfg ep i \<lparr>bc_data = buf, bc_len = size_t (arg_test_strlen (uc_args cfg))\<rparr> s
             in (len, uct_worker_progress api cfg (if_worker info) s))
        (\<lambda>len. len = UCS_ERR_NO_RESOURCE) s = Some (len, s')"
    by (auto simp: do_am_bcopy_def Let_def bind_eq_Some_conv)
  then have "lib_step s s'" by (rule send_loop_step) (rule am_bcopy_step)
  with assms(2) show ?thesis by (blast dest: lib_step_idle)
qed

lemma zcopy_send_step:
  assumes "zcopy_send fuel api cfg info ep i buf n m s = Some (st, s')"
  shows "lib_step s s'"
proof -
  from assms obtain st1 s1 where p: "poll_until fuel
        (\<lambda>s. let (status, s) = ep_am_zcopy api cfg ep i buf n m s
             in (status, uct_worker_progress api cfg (if_worker info) s))
        (\<lambda>status. status = UCS_ERR_NO_RESOURCE) s = Some (st1, s1)"
    by (auto simp: zcopy_send_def bind_eq_Some_conv)
  then have 1: "lib_step s s1" by (rule send_loop_step) (rule am_zcopy_step)
  show ?thesis
  proof (cases "st1 = UCS_INPROGRESS")
    case True
    with assms p have "spin fuel (\<lambda>s. desc_holder s \<noteq> NULLp) (uct_worker_progress api cfg (if_worker info)) s1 = Some s'"
      by (auto simp: zcopy_send_def bind_eq_Some_conv)
    then have "lib_step s1 s'" by (rule spin_step)
    with 1 show ?thesis by (rule lib_step_trans)
  next
    case False
    with assms p 1 show ?thesis by (simp add: zcopy_send_def)
  qed
qed

text \<open>Zero copy may leave its registration behind, and nothing else.\<close>

lemma do_am_zcopy_triple:
  assumes z: "do_am_zcopy fuel api cfg info ep i buf s = Some (st, s')" and idle: "u_comp s = None"
  shows "u_comp s' = None \<and> (\<exists>L. (\<forall>r\<in>#L. \<exists>mh. r = UR_memh mh) \<and> size L \<le> 1 \<and>
     (\<not> md_need_memh (if_md_attr info) \<longrightarrow> L = {#}) \<and> uct_triple P s s' (P + L))"
proof -
  let ?n = "size_t (arg_test_strlen (uc_args cfg))"
  obtain st1 memh s1 where reg: "(if md_need_memh (if_md_attr info) then
               (let (status, mh, w) = ut_mem_reg api (if_md info) buf ?n (u_world s)
                in (status, Some mh, u_log_if (status = UCS_OK) (U_mem_reg mh) (s\<lparr>u_world := w\<rparr>)))
             else (UCS_OK, None, s)) = (st1, memh, s1)" using prod_cases3 by blast
  define s2 where "s2 = s1\<lparr>u_comp := Some \<lparr>comp_count = 1, comp_status = UCS_OK, comp_md = if_md info, comp_memh = memh\<rparr>\<rparr>"
  let ?R = "if st1 = UCS_OK then pending s2 else {#}"
  have tr: "u_trace s2 = u_trace s1" by (simp add: s2_def)
  have R: "(\<forall>r\<in>#pending s2. \<exists>mh. r = UR_memh mh) \<and> size (pending s2) \<le> 1 \<and>
     (\<not> md_need_memh (if_md_attr info) \<longrightarrow> pending s2 = {#})"
    using reg by (auto simp: pending_def s2_def split: option.splits if_splits prod.splits)
  have t1: "uct_triple P s s2 (P + ?R)"
    using reg by (auto simp: pending_def s2_def Let_def uct_step_simps split: if_splits prod.splits)
  show ?thesis
  proof (cases "st1 = UCS_OK")
    case False
    with z reg s2_def have "s' = s2\<lparr>u_comp := None\<rparr>"
      by (simp add: do_am_zcopy_def)
    with False t1 show ?thesis by (intro conjI exI[of _ "{#}"]) (auto simp: uct_triple_def)
  next
    case True
    have "do { (status, s) \<leftarrow> zcopy_send fuel api cfg info ep i buf ?n memh s2; Some (status, s\<lparr>u_comp := None\<rparr>) } = Some (st, s')"
      using z True reg by (simp add: do_am_zcopy_def s2_def)
    then obtain s3 where s3: "lib_step s2 s3" "s' = s3\<lparr>u_comp := None\<rparr>"
      by (auto simp: bind_eq_Some_conv dest: zcopy_send_step)
    from s3(1) obtain L where L: "L \<subseteq># pending s2" "uct_triple (P + pending s2) s2 s3 (P + L)"
      unfolding lib_step_def by blast
    have "uct_triple P s s3 (P + L)" using t1 True L(2) by (auto intro: uct_triple_trans)
    then have "uct_triple P s s' (P + L)" using s3(2) by (simp add: uct_triple_def)
    moreover have "size L \<le> 1" using R size_mset_mono[OF L(1)] by linarith
    moreover have "\<forall>r\<in>#L. \<exists>mh. r = UR_memh mh" using R mset_subset_eqD[OF L(1)] by blast
    moreover have "\<not> md_need_memh (if_md_attr info) \<longrightarrow> L = {#}" using R L(1) by auto
    ultimately show ?thesis using s3(2) by auto
  qed
qed

end
