(* ===== verification/Uct_Lookup.thy ===== *)
theory Uct_Lookup
  imports Uct_Resources
begin

text \<open>
  The search for a device and transport: what it leaves open, that the interface it settles on
  supports the requested message, and that its assertion holds.
\<close>

section \<open>What the search promises\<close>

text \<open>The interface can carry the message: active-message capability and memory type.\<close>

definition usable :: "uct_config \<Rightarrow> iface_info \<Rightarrow> bool" where
  "usable cfg p \<longleftrightarrow> (case arg_func_am_type (uc_args cfg) of
       FUNC_AM_SHORT \<Rightarrow> cap_am_short (if_attr p) \<and> uc_mem cfg \<noteq> UCS_MEMORY_TYPE_CUDA
     | FUNC_AM_BCOPY \<Rightarrow> cap_am_bcopy (if_attr p)
     | FUNC_AM_ZCOPY \<Rightarrow> cap_am_zcopy (if_attr p) \<and> md_reg_mem_types (if_md_attr p) (uc_mem cfg))"

definition named :: "uct_config \<Rightarrow> bool" where
  "named cfg \<longleftrightarrow> arg_dev_name (uc_args cfg) \<noteq> None \<and> arg_tl_name (uc_args cfg) \<noteq> None"

text \<open>The search leaves the heap, the completion object and the worker alone.\<close>

definition untouched :: "iface_info \<Rightarrow> 'w uct \<Rightarrow> iface_info \<Rightarrow> 'w uct \<Rightarrow> bool" where
  "untouched p s p' s' \<longleftrightarrow> u_heap s' = u_heap s \<and> u_comp s' = u_comp s \<and> desc_holder s' = desc_holder s \<and>
     if_worker p' = if_worker p"

lemma untouched_refl [simp]: "untouched p s p s"
  by (simp add: untouched_def)

lemma untouched_trans: "untouched p s p' s' \<Longrightarrow> untouched p' s' p'' s'' \<Longrightarrow> untouched p s p'' s''"
  by (simp add: untouched_def)

text \<open>The two outcomes of a piece of the search: an open interface, or everything as before.\<close>

definition found :: "uct_config \<Rightarrow> uct_res multiset \<Rightarrow> 'w uct \<Rightarrow> iface_info \<Rightarrow> 'w uct \<Rightarrow> uct_res multiset \<Rightarrow> bool" where
  "found cfg P s p' s' Q \<longleftrightarrow> (\<exists>i. if_iface p' = Some i \<and> usable cfg p' \<and> uct_triple P s s' (add_mset (UR_iface i) Q))"

definition missed :: "uct_res multiset \<Rightarrow> 'w uct \<Rightarrow> iface_info \<Rightarrow> 'w uct \<Rightarrow> uct_res multiset \<Rightarrow> bool" where
  "missed P s p' s' Q \<longleftrightarrow> if_iface p' = None \<and> uct_triple P s s' Q"

section \<open>Interfaces and transports\<close>

lemma init_iface_outcome:
  assumes "init_iface api cfg dev tln (arg_func_am_type (uc_args cfg)) p s = (st, p', s')" "if_iface p = None"
    and "arg_func_am_type (uc_args cfg) = FUNC_AM_ZCOPY \<Longrightarrow> md_reg_mem_types (if_md_attr p) (uc_mem cfg)"
  shows "untouched p s p' s' \<and> if_md p' = if_md p \<and>
     (if st = UCS_OK then found cfg P s p' s' P else missed P s p' s' P)"
  using assms
  by (auto simp: init_iface_def untouched_def found_def missed_def usable_def Let_def uct_step_simps
      split: prod.splits if_splits func_am.splits)

lemma tl_loop_outcome:
  assumes "tl_loop api cfg tls p s = (st, early, p', s')" "if_iface p = None" "named cfg"
  shows "untouched p s p' s' \<and> if_md p' = if_md p \<and>
     (if st = UCS_OK \<and> early then found cfg P s p' s' P else missed P s p' s' P)"
  using assms(1)
proof (induction tls)
  case Nil
  with assms(2) show ?case by (auto simp: missed_def)
next
  case (Cons r rs)
  obtain d t where n: "arg_dev_name (uc_args cfg) = Some d" "arg_tl_name (uc_args cfg) = Some t"
    using assms(3) by (auto simp: named_def)
  show ?case
  proof (cases "d = res_dev_name r \<and> t = res_tl_name r")
    case False
    with n have "names_match (uc_args cfg) r s = (False, s)" by (auto simp: names_match_def)
    with Cons show ?thesis by simp
  next
    case True
    with n have m: "names_match (uc_args cfg) r s = (True, s)" by (simp add: names_match_def)
    show ?thesis
    proof (cases "arg_func_am_type (uc_args cfg) = FUNC_AM_ZCOPY \<and> \<not> md_reg_mem_types (if_md_attr p) (uc_mem cfg)")
      case True
      with Cons.prems m assms(2) show ?thesis by (auto simp: missed_def)
    next
      case False
      obtain st1 p1 s1 where i: "init_iface api cfg (res_dev_name r) (res_tl_name r)
          (arg_func_am_type (uc_args cfg)) p s = (st1, p1, s1)" using prod_cases3 by blast
      from init_iface_outcome[OF i assms(2), of P] False Cons.prems m i show ?thesis
        by (auto simp: untouched_def found_def missed_def uct_triple_def split: if_splits)
    qed
  qed
qed

section \<open>Memory domains and components\<close>

lemma uct_log_triple:
  "uct_triple P s (u_log c s) Q \<Longrightarrow> u_trace t = u_trace s \<Longrightarrow> u_trace t' = u_trace t @ [c] \<Longrightarrow> uct_triple P t t' Q"
  by (simp add: uct_triple_def)

text \<open>Opening one memory domain and looking through its transports.\<close>

lemma md_loop_outcome:
  assumes "md_loop api cfg c names p s = (jump, p', s')" "if_iface p = None" "named cfg"
  shows "untouched p s p' s' \<and> (if jump = Some UCS_OK then found cfg P s p' s' (add_mset (UR_md (if_md p')) P)
     else missed P s p' s' P)"
  using assms(1,2)
proof (induction names arbitrary: p s)
  case Nil
  then show ?case by (auto simp: missed_def)
next
  case (Cons nm names)
  obtain st1 mc w1 where r1: "ut_md_config_read api c (u_world s) = (st1, mc, w1)" using prod_cases3 by blast
  obtain st2 md w2 where r2: "ut_md_open api c nm mc w1 = (st2, md, w2)" using prod_cases3 by blast
  obtain st3 att w3 where r3: "ut_md_query api md w2 = (st3, att, w3)" using prod_cases3 by blast
  obtain st4 tls w4 where r4: "ut_query_tl api md w3 = (st4, tls, w4)" using prod_cases3 by blast
  note step = Cons.prems(1) r1 r2 r3 r4
  let ?s = "u_log U_query_tl (u_log (U_config_release mc) (u_log (U_md_open md) (u_log (U_config_read mc)
      (s\<lparr>u_world := w1\<rparr>))\<lparr>u_world := w2\<rparr>)\<lparr>u_world := w4\<rparr>)"
  let ?p = "p\<lparr>if_md := md, if_md_attr := att\<rparr>"
  show ?case
  proof (cases "st1 = UCS_OK \<and> st2 = UCS_OK \<and> st3 = UCS_OK \<and> st4 = UCS_OK")
    case False
    then consider "st1 \<noteq> UCS_OK" | "st1 = UCS_OK" "st2 \<noteq> UCS_OK" | "st1 = UCS_OK" "st2 = UCS_OK" "st3 \<noteq> UCS_OK"
      | "st1 = UCS_OK" "st2 = UCS_OK" "st3 = UCS_OK" "st4 \<noteq> UCS_OK" by blast
    then show ?thesis
      using step Cons.prems(2) by cases (auto simp: Let_def untouched_def missed_def uct_step_simps)
  next
    case True
    obtain st5 early p5 s5 where t: "tl_loop api cfg tls ?p ?s = (st5, early, p5, s5)" using prod_cases4 by blast
    have go: "md_loop api cfg c (nm # names) p s = (if st5 = UCS_OK \<and> early then (Some st5, p5, u_log U_release_tl s5)
        else md_loop api cfg c names p5 (u_log (U_md_close md) (u_log U_release_tl s5)))"
      using r1 r2 r3 r4 t True by (auto simp: u_log_if_def u_log_def Let_def)
    have "untouched p s ?p ?s" by (simp add: untouched_def)
    have op: "uct_triple P s ?s (add_mset UR_tl (add_mset (UR_md md) P))" for P by (auto simp: uct_step_simps)
    let ?Q = "add_mset UR_tl (add_mset (UR_md md) P)"
    from tl_loop_outcome[OF t _ assms(3), of ?Q] Cons.prems(2)
    have o: "untouched ?p ?s p5 s5" "if_md p5 = md"
      "if st5 = UCS_OK \<and> early then found cfg ?Q ?s p5 s5 ?Q else missed ?Q ?s p5 s5 ?Q" by auto
    have q: "untouched p s p5 s5" using untouched_trans[OF \<open>untouched p s ?p ?s\<close> o(1)] .
    show ?thesis
    proof (cases "st5 = UCS_OK \<and> early")
      case True
      with o(3) obtain i where i: "if_iface p5 = Some i" "usable cfg p5" "uct_triple ?Q ?s s5 (add_mset (UR_iface i) ?Q)"
        by (auto simp: found_def)
      have "uct_triple (add_mset UR_tl R) s5 (u_log U_release_tl s5) R" for R
        by (rule uct_triple_release) simp_all
      with uct_triple_trans[OF op i(3)]
      have "uct_triple P s (u_log U_release_tl s5) (add_mset (UR_iface i) (add_mset (UR_md md) P))"
        by (metis add_mset_commute uct_triple_trans)
      moreover have "jump = Some UCS_OK" "p' = p5" "s' = u_log U_release_tl s5"
        using True go Cons.prems(1) by (auto simp del: md_loop.simps)
      ultimately show ?thesis using i o(2) q by (auto simp: found_def untouched_def)
    next
      case False
      with o(3) have m: "if_iface p5 = None" "uct_triple ?Q ?s s5 ?Q" by (auto simp: missed_def)
      let ?t = "u_log (U_md_close md) (u_log U_release_tl s5)"
      have cl: "uct_triple ?Q s5 ?t P" by (auto simp: uct_step_simps)
      have bk: "uct_triple P s ?t P" using uct_triple_trans[OF uct_triple_trans[OF op m(2)] cl] .
      from False go Cons.prems(1) have "md_loop api cfg c names p5 ?t = (jump, p', s')" by (simp only: if_False)
      from Cons.IH[OF this m(1)] bk q show ?thesis
        by (auto simp: found_def missed_def untouched_def intro: uct_triple_trans split: if_splits)
    qed
  qed
qed

lemma component_loop_outcome:
  assumes "component_loop api cfg cs p s = (jump, p', s')" "named cfg"
  shows "untouched p s p' s' \<and> (if jump = Some UCS_OK then found cfg P s p' s' (add_mset (UR_md (if_md p')) P)
     else uct_triple P s s' P)"
  using assms(1)
proof (induction cs arbitrary: p s)
  case Nil
  then show ?case by auto
next
  case (Cons c cs)
  obtain st1 n w1 where r1: "ut_md_resource_count api c (u_world s) = (st1, n, w1)" using prod_cases3 by blast
  obtain st2 f w2 where r2: "ut_md_resources api c w1 = (st2, f, w2)" using prod_cases3 by blast
  show ?case
  proof (cases "st1 = UCS_OK \<and> st2 = UCS_OK")
    case False
    with Cons.prems r1 r2 show ?thesis
      by (cases "st1 = UCS_OK") (auto simp: Let_def untouched_def uct_step_simps)
  next
    case True
    let ?s = "s\<lparr>u_world := w2\<rparr>" and ?p = "p\<lparr>if_iface := None\<rparr>"
    obtain j p1 s1 where m: "md_loop api cfg c (map f [0..<n]) ?p ?s = (j, p1, s1)" using prod_cases3 by blast
    from md_loop_outcome[OF m _ assms(2), of P] have o: "untouched ?p ?s p1 s1"
      "if j = Some UCS_OK then found cfg P ?s p1 s1 (add_mset (UR_md (if_md p1)) P) else missed P ?s p1 s1 P" by auto
    have q: "untouched p s p1 s1" using o(1) by (simp add: untouched_def)
    have ch: "uct_triple P ?s u Q = uct_triple P s u Q" for u Q by (simp add: uct_triple_def)
    from Cons.prems r1 r2 True m have go: "(case j of Some st \<Rightarrow> (Some st, p1, s1) | None \<Rightarrow> component_loop api cfg cs p1 s1) = (jump, p', s')"
      by simp
    show ?thesis
    proof (cases j)
      case (Some st)
      with go o(2) q show ?thesis by (auto simp: found_def missed_def ch split: if_splits)
    next
      case None
      with go have "component_loop api cfg cs p1 s1 = (jump, p', s')" by simp
      from Cons.IH[OF this] o(2) q None show ?thesis
        by (auto simp: found_def missed_def untouched_def ch intro: uct_triple_trans split: if_splits)
    qed
  qed
qed

lemma dev_tl_lookup_outcome:
  assumes "dev_tl_lookup api cfg p s = (st, p', s')" "named cfg"
  shows "untouched p s p' s' \<and> (if st = UCS_OK then found cfg P s p' s' (add_mset (UR_md (if_md p')) P)
     else uct_triple P s s' P)"
proof -
  obtain st1 cs w where q: "ut_query_components api (u_world s) = (st1, cs, w)" using prod_cases3 by blast
  show ?thesis
  proof (cases "st1 = UCS_OK")
    case False
    with assms q show ?thesis by (auto simp: dev_tl_lookup_def untouched_def intro: uct_triple_same)
  next
    case True
    let ?s = "u_log U_query_components (s\<lparr>u_world := w\<rparr>)" and ?Q = "add_mset UR_components P"
    obtain j p1 s1 where c: "component_loop api cfg cs p ?s = (j, p1, s1)" using prod_cases3 by blast
    have go: "st = (case j of Some st \<Rightarrow> st | None \<Rightarrow> UCS_ERR_UNSUPPORTED)" "p' = p1" "s' = u_log U_release_components s1"
      using assms(1) q True c by (auto simp: dev_tl_lookup_def)
    have a: "uct_triple P s ?s ?Q" by (rule uct_triple_acquire) simp_all
    have r: "uct_triple (add_mset UR_components R) s1 s' R" for R
      unfolding go(3) by (rule uct_triple_release) simp_all
    have o: "untouched p ?s p1 s1 \<and> (if j = Some UCS_OK then found cfg ?Q ?s p1 s1 (add_mset (UR_md (if_md p1)) ?Q)
         else uct_triple ?Q ?s s1 ?Q)"
      using component_loop_outcome[OF c assms(2), of ?Q] .
    have qt: "untouched p s p' s'" using o by (simp add: untouched_def go)
    have ok: "(st = UCS_OK) = (j = Some UCS_OK)" using go(1) by (cases j) auto
    show ?thesis
    proof (cases "j = Some UCS_OK")
      case True
      with o obtain i where i: "if_iface p1 = Some i" "usable cfg p1"
        "uct_triple ?Q ?s s1 (add_mset (UR_iface i) (add_mset (UR_md (if_md p1)) ?Q))" by (auto simp: found_def)
      have "uct_triple P s s' (add_mset (UR_iface i) (add_mset (UR_md (if_md p1)) P))"
        using uct_triple_trans[OF uct_triple_trans[OF a i(3)]] r by (metis add_mset_commute)
      with i ok True qt go(2) show ?thesis by (auto simp: found_def)
    next
      case False
      with o have "uct_triple ?Q ?s s1 ?Q" by simp
      with uct_triple_trans[OF uct_triple_trans[OF a] r] have "uct_triple P s s' P" by blast
      with False ok qt show ?thesis by simp
    qed
  qed
qed

end
