(* ===== verification/Uct_Ownership.thy ===== *)
theory Uct_Ownership
  imports Uct_Lookup
begin

text \<open>
  Ownership through \<open>main\<close>: what each label releases and what each stage of the body leaves behind.
\<close>

section \<open>Labels\<close>

definition worker_res :: "uct_locals \<Rightarrow> uct_res multiset" where
  "worker_res l = {#UR_async (l_async l), UR_worker (if_worker (l_info l))#}"

definition iface_res :: "uct_locals \<Rightarrow> uct_res multiset" where
  "iface_res l = worker_res l + {#UR_md (if_md (l_info l)), UR_iface (the_iface l)#}"

definition oob_res :: "uct_locals \<Rightarrow> uct_res multiset" where
  "oob_res l = iface_res l + image_mset UR_sock (fd_res (l_sock l))"

definition ep_res :: "uct_locals \<Rightarrow> uct_res multiset" where
  "ep_res l = add_mset (UR_ep (l_ep l)) (oob_res l)"

lemmas uct_res_defs = worker_res_def iface_res_def oob_res_def ep_res_def

lemma res_locals [simp]:
  "worker_res (l\<lparr>l_own_dev := p\<rparr>) = worker_res l" "iface_res (l\<lparr>l_own_dev := p\<rparr>) = iface_res l"
  "iface_res (l\<lparr>l_own_iface := p\<rparr>) = iface_res l" "iface_res (l\<lparr>l_sock := fd\<rparr>) = iface_res l"
  "oob_res (l\<lparr>l_peer_dev := p\<rparr>) = oob_res l" "oob_res (l\<lparr>l_peer_iface := p\<rparr>) = oob_res l"
  "oob_res (l\<lparr>l_own_ep := p\<rparr>) = oob_res l" "oob_res (l\<lparr>l_peer_ep := p\<rparr>) = oob_res l"
  "oob_res (l\<lparr>l_ep := e\<rparr>) = oob_res l" "ep_res (l\<lparr>l_peer_ep := p\<rparr>) = ep_res l"
  by (simp_all add: uct_res_defs the_iface_def)

lemma out_cleanup_async_triple: "uct_triple (add_mset (UR_async (l_async l)) L) s (snd (out_cleanup_async l st s)) L"
  by (auto simp: out_cleanup_async_def main_out_def uct_step_simps)

lemma out_destroy_worker_triple: "uct_triple (worker_res l + L) s (snd (out_destroy_worker l st s)) L"
proof -
  have "uct_triple (worker_res l + L) s (u_log (U_worker_destroy (if_worker (l_info l))) s) (add_mset (UR_async (l_async l)) L)"
    by (auto simp: worker_res_def uct_step_simps)
  from uct_triple_trans[OF this out_cleanup_async_triple] show ?thesis by (simp add: out_destroy_worker_def)
qed

lemma out_destroy_iface_triple: "uct_triple (iface_res l + L) s (snd (out_destroy_iface l st s)) L"
proof -
  let ?s = "u_log (U_md_close (if_md (l_info l))) (u_log (U_iface_close (the_iface l)) s)"
  have "uct_triple (iface_res l + L) s ?s (worker_res l + L)"
    by (auto simp: iface_res_def uct_step_simps)
  from uct_triple_trans[OF this out_destroy_worker_triple] show ?thesis by (simp add: out_destroy_iface_def)
qed

lemma out_free_dev_addrs_triple: "uct_triple (iface_res l + L) s (snd (out_free_dev_addrs l st s)) L"
proof -
  let ?s = "u_on_heap (c_free (l_peer_dev l)) (u_on_heap (c_free (l_own_dev l)) s)"
  have "uct_triple (iface_res l + L) s ?s (iface_res l + L)" by (rule uct_triple_same) simp
  from uct_triple_trans[OF this out_destroy_iface_triple] show ?thesis by (simp add: out_free_dev_addrs_def)
qed

lemma out_free_if_addrs_triple: "uct_triple (iface_res l + L) s (snd (out_free_if_addrs l st s)) L"
proof -
  let ?s = "u_on_heap (c_free (l_peer_iface l)) (u_on_heap (c_free (l_own_iface l)) s)"
  have "uct_triple (iface_res l + L) s ?s (iface_res l + L)" by (rule uct_triple_same) simp
  from uct_triple_trans[OF this out_free_dev_addrs_triple] show ?thesis by (simp add: out_free_if_addrs_def)
qed

lemma out_close_oob_sock_triple: "uct_triple (oob_res l + L) s (snd (out_close_oob_sock api l st s)) L"
proof -
  let ?s = "u_log_if (l_sock l \<ge> 0) (U_sock (S_close (l_sock l))) (s\<lparr>u_world := so_close (ut_sock api) (l_sock l) (u_world s)\<rparr>)"
  have "uct_triple (oob_res l + L) s ?s (iface_res l + L)"
    by (auto simp: oob_res_def fd_res_def uct_step_simps)
  from uct_triple_trans[OF this out_free_if_addrs_triple] show ?thesis by (simp add: out_close_oob_sock_def)
qed

lemma out_free_ep_addrs_triple: "uct_triple (oob_res l + L) s (snd (out_free_ep_addrs api l st s)) L"
proof -
  let ?s = "u_on_heap (c_free (l_peer_ep l)) (u_on_heap (c_free (l_own_ep l)) s)"
  have "uct_triple (oob_res l + L) s ?s (oob_res l + L)" by (rule uct_triple_same) simp
  from uct_triple_trans[OF this out_close_oob_sock_triple] show ?thesis by (simp add: out_free_ep_addrs_def)
qed

lemma out_free_ep_triple: "uct_triple (ep_res l + L) s (snd (out_free_ep api l st s)) L"
proof -
  let ?s = "u_log (U_ep_destroy (l_ep l)) s"
  have "uct_triple (ep_res l + L) s ?s (oob_res l + L)" by (auto simp: ep_res_def uct_step_simps)
  from uct_triple_trans[OF this out_free_ep_addrs_triple] show ?thesis by (simp add: out_free_ep_def)
qed

section \<open>Pieces that own nothing\<close>

lemma sendrecv_frame [simp, frame_simps]: "u_trace (snd (snd (sendrecv api fd p n s))) = u_trace s"
  "u_comp (snd (snd (sendrecv api fd p n s))) = u_comp s"
  "desc_holder (snd (snd (sendrecv api fd p n s))) = desc_holder s"
  by (simp_all add: sendrecv_def sock_send_def sock_recv_def Let_def split_beta)

lemma sendrecv_out:
  "sendrecv api fd p n s = (st, q, s') \<Longrightarrow> u_trace s' = u_trace s \<and> u_comp s' = u_comp s"
  using sendrecv_frame(1,2)[of api fd p n s] by (metis snd_conv)

lemma uct_barrier_step:
  assumes "uct_barrier fuel api cfg l s = Some (r, s')"
  shows "lib_step s s'"
proof -
  obtain n w where sd: "so_send (ut_sock api) (l_sock l) [0, 0, 0, 0] (u_world s) = (n, w)" by fastforce
  let ?s = "s\<lparr>u_world := w\<rparr>"
  let ?body = "\<lambda>s. let (res, w) = so_poll (ut_sock api) (l_sock l) (u_world s)
     in (res, progress_worker api cfg (if_worker (l_info l)) (s\<lparr>u_world := w\<rparr>))"
  show ?thesis
  proof (cases "n < 0")
    case True
    with assms sd show ?thesis by (auto simp: uct_barrier_def barrier_def intro: lib_step_same)
  next
    case False
    with assms sd obtain x s1 where p: "poll_until fuel ?body (\<lambda>res. res \<noteq> 1) ?s = Some (x, s1)"
      and e: "\<exists>w'. s' = s1\<lparr>u_world := w'\<rparr>"
      by (auto simp: uct_barrier_def barrier_def bind_eq_Some_conv split_beta)
    from p have "lib_step s s1"
    proof (rule poll_until_inv)
      show "lib_step s ?s" by (rule lib_step_same) simp_all
      show "lib_step s (snd (?body u))" if "lib_step s u" for u
        using lib_step_trans[OF that lib_step_before[OF _ _ uct_progress_step]]
        by (simp add: split_beta progress_worker_def)
    qed
    also have "lib_step s1 s'" using e by (auto intro: lib_step_same)
    finally show ?thesis .
  qed
qed

lemma uct_server_recv_step:
  assumes "uct_server_recv fuel api cfg l s = Some s'"
  shows "lib_step s s'"
proof -
  from assms obtain s1 where sp: "spin fuel (\<lambda>s. desc_holder s \<noteq> NULLp)
      (uct_worker_progress api cfg (if_worker (l_info l))) s = Some s1"
    and f: "u_trace s' = u_trace s1" "u_comp s' = u_comp s1"
    by (auto simp: uct_server_recv_def bind_eq_Some_conv Let_def split_beta)
  from sp have "lib_step s s1" by (rule spin_step)
  also have "lib_step s1 s'" using f by (intro lib_step_same)
  finally show ?thesis .
qed

section \<open>Stages\<close>

text \<open>
  What may be live at the end: a registration of a zero-copy client that needs one, and the socket
  when the library fails to give the device address.
\<close>

definition explained :: "'w uct_api \<Rightarrow> uct_config \<Rightarrow> uct_res multiset \<Rightarrow> bool" where
  "explained api cfg L \<longleftrightarrow> (\<forall>r\<in>#L.
     (\<exists>mh. r = UR_memh mh) \<and> arg_func_am_type (uc_args cfg) = FUNC_AM_ZCOPY \<and> arg_server_name (uc_args cfg) \<noteq> None \<or>
     (\<exists>fd. r = UR_sock (SR_fd fd)) \<and> (\<exists>i w. fst (ut_get_device_address api i w) \<noteq> UCS_OK))"

lemma explained_empty [simp]: "explained api cfg {#}"
  by (simp add: explained_def)

lemma uct_client_send_triple:
  assumes "uct_client_send fuel api cfg l s = Some ((st, go), s')" "u_comp s = None" "arg_server_name (uc_args cfg) \<noteq> None"
  shows "u_comp s' = None \<and> (\<exists>L. explained api cfg L \<and> uct_triple P s s' (P + L))"
proof -
  let ?n = "size_t (arg_test_strlen (uc_args cfg))"
  obtain str h where a: "mem_type_malloc (uc_cuda cfg) (uc_mem cfg) ?n (u_heap s) = (str, h)" by fastforce
  obtain res h' where g: "uct_generate_test_string (uc_cuda cfg) (uc_mem cfg) str (c_int (arg_test_strlen (uc_args cfg))) h = (res, h')"
    by fastforce
  show ?thesis
  proof (cases "str = NULLp \<or> res < 0")
    case True
    with assms(1,2) a g have "u_trace s' = u_trace s \<and> u_comp s' = None"
      by (cases "str = NULLp") (auto simp: uct_client_send_def Let_def)
    then show ?thesis by (auto intro!: exI[of _ "{#}"] uct_triple_same)
  next
    case False
    let ?s = "s\<lparr>u_heap := h'\<rparr>"
    let ?send = "case arg_func_am_type (uc_args cfg) of
              FUNC_AM_SHORT \<Rightarrow> do_am_short fuel api cfg (l_info l) (l_ep l) 0 str ?s
            | FUNC_AM_BCOPY \<Rightarrow> do_am_bcopy fuel api cfg (l_info l) (l_ep l) 0 str ?s
            | FUNC_AM_ZCOPY \<Rightarrow> do_am_zcopy fuel api cfg (l_info l) (l_ep l) 0 str ?s"
    have "do { (status, s) \<leftarrow> ?send; Some ((status, status = UCS_OK), u_on_heap (mem_type_free (uc_cuda cfg) (uc_mem cfg) str) s) }
        = Some ((st, go), s')"
      using assms(1) a g False by (simp add: uct_client_send_def Let_def)
    then obtain s1 where s1: "?send = Some (st, s1)" "u_trace s' = u_trace s1" "u_comp s' = u_comp s1"
      by (auto simp: bind_eq_Some_conv)
    have "u_comp s1 = None \<and> (\<exists>L. explained api cfg L \<and> uct_triple P ?s s1 (P + L))"
    proof (cases "arg_func_am_type (uc_args cfg)")
      case FUNC_AM_SHORT
      with s1(1) assms(2) do_am_short_triple[of fuel api cfg "l_info l" "l_ep l" 0 str ?s st s1 P] show ?thesis
        by (auto intro!: exI[of _ "{#}"])
    next
      case FUNC_AM_BCOPY
      with s1(1) assms(2) do_am_bcopy_triple[of fuel api cfg "l_info l" "l_ep l" 0 str ?s st s1 P] show ?thesis
        by (auto intro!: exI[of _ "{#}"])
    next
      case FUNC_AM_ZCOPY
      with s1(1) assms do_am_zcopy_triple[of fuel api cfg "l_info l" "l_ep l" 0 str ?s st s1 P] show ?thesis
        by (auto simp: explained_def)
    qed
    with s1 show ?thesis by (simp add: uct_triple_def)
  qed
qed

lemma uct_transfer_triple:
  assumes t: "uct_transfer fuel api cfg l st s = Some (r, s')" and idle: "u_comp s = None"
  shows "\<exists>L. explained api cfg L \<and> uct_triple (ep_res l) s s' L"
proof (cases "size_t (arg_test_strlen (uc_args cfg)) > func_am_max_size (arg_func_am_type (uc_args cfg)) (if_attr (l_info l))")
  case True
  with t have "s' = snd (out_free_ep api l UCS_ERR_UNSUPPORTED s)" by (auto simp: uct_transfer_def)
  then show ?thesis using out_free_ep_triple[of l "{#}" s] by (intro exI[of _ "{#}"]) simp
next
  case False
  let ?mid = "case arg_server_name (uc_args cfg) of
            Some _ \<Rightarrow> uct_client_send fuel api cfg l s
          | None \<Rightarrow> map_option (Pair (st, True)) (uct_server_recv fuel api cfg l s)"
  from t False obtain st1 go s1 where m: "?mid = Some ((st1, go), s1)"
    and k: "(if \<not> go then Some (out_free_ep api l st1 s1)
        else do { (r, s) \<leftarrow> uct_barrier fuel api cfg l s1;
          Some (out_free_ep api l (if r \<noteq> 0 then UCS_ERR_IO_ERROR else st1) s) }) = Some (r, s')"
    by (auto simp: uct_transfer_def Let_def bind_eq_Some_conv)
  have c: "u_comp s1 = None \<and> (\<exists>L. explained api cfg L \<and> uct_triple (ep_res l) s s1 (ep_res l + L))"
  proof (cases "arg_server_name (uc_args cfg)")
    case None
    with m have "uct_server_recv fuel api cfg l s = Some s1" by auto
    from lib_step_idle[OF uct_server_recv_step[OF this] idle] show ?thesis by (auto intro!: exI[of _ "{#}"])
  next
    case (Some a)
    with m uct_client_send_triple[OF _ idle, of fuel api cfg l st1 go s1] show ?thesis by auto
  qed
  then obtain L where L: "explained api cfg L" "uct_triple (ep_res l) s s1 (ep_res l + L)" by blast
  have "\<exists>s2 q. uct_triple (ep_res l + L) s1 s2 (ep_res l + L) \<and> s' = snd (out_free_ep api l q s2)"
  proof (cases go)
    case False
    with k have "s' = snd (out_free_ep api l st1 s1)" by simp
    then show ?thesis by blast
  next
    case True
    with k obtain q s2 where b: "uct_barrier fuel api cfg l s1 = Some (q, s2)"
      "(r, s') = out_free_ep api l (if q \<noteq> 0 then UCS_ERR_IO_ERROR else st1) s2"
      by (auto simp: bind_eq_Some_conv)
    from lib_step_idle[OF uct_barrier_step[OF b(1)]] c have "uct_triple (ep_res l + L) s1 s2 (ep_res l + L)" by blast
    with b(2) show ?thesis by (metis snd_conv)
  qed
  then obtain s2 q where "uct_triple (ep_res l + L) s1 s2 (ep_res l + L)" "s' = snd (out_free_ep api l q s2)" by blast
  then have "uct_triple (ep_res l) s s' L"
    using L(2) out_free_ep_triple[of l L s2 api q] by (blast intro: uct_triple_trans)
  with L(1) show ?thesis by blast
qed

section \<open>The stages compose\<close>

text \<open>A stage run from \<open>s\<close> with \<open>P\<close> live ends with only explained resources live, if it ends.\<close>

definition settles :: "'w uct_api \<Rightarrow> uct_config \<Rightarrow> uct_res multiset \<Rightarrow> 'w uct \<Rightarrow> (int \<times> 'w uct) option \<Rightarrow> bool" where
  "settles api cfg P s m \<longleftrightarrow> (\<forall>r s'. m = Some (r, s') \<longrightarrow> (\<exists>L. explained api cfg L \<and> uct_triple P s s' L))"

lemma settles_seq: "uct_triple P s s1 Q \<Longrightarrow> settles api cfg Q s1 m \<Longrightarrow> settles api cfg P s m"
  unfolding settles_def by (blast intro: uct_triple_trans)

lemma settles_if:
  "(b \<Longrightarrow> settles api cfg P s m) \<Longrightarrow> (\<not> b \<Longrightarrow> settles api cfg P s n) \<Longrightarrow> settles api cfg P s (if b then m else n)"
  by simp

lemma settles_from: "u_trace s1 = u_trace s \<Longrightarrow> settles api cfg P s1 m \<Longrightarrow> settles api cfg P s m"
  by (rule settles_seq[OF uct_triple_same])

lemma settles_jump:
  "settles api cfg P s m \<Longrightarrow> settles api cfg P s n \<Longrightarrow> settles api cfg P s (if b then m else n)"
  by simp

lemma settles_out:
  assumes "\<And>L. uct_triple (P + L) s (snd x) L"
  shows "settles api cfg P s (Some x)"
  using assms[of "{#}"] explained_empty[of api cfg] unfolding settles_def by (cases x) fastforce

lemmas settles_labels =
  settles_out[OF out_free_ep_triple] settles_out[OF out_free_ep_addrs_triple]
  settles_out[OF out_close_oob_sock_triple] settles_out[OF out_free_dev_addrs_triple]
  settles_out[OF out_destroy_iface_triple] settles_out[OF out_destroy_worker_triple]

lemma settles_transfer: "u_comp s = None \<Longrightarrow> settles api cfg (ep_res l) s (uct_transfer fuel api cfg l st s)"
  unfolding settles_def by (blast intro: uct_transfer_triple)

lemma settles_bind:
  assumes "\<And>x s1. m = Some (x, s1) \<Longrightarrow> settles api cfg P s (f x s1)"
  shows "settles api cfg P s (do { (x, s1) \<leftarrow> m; f x s1 })"
  using assms by (cases m) (auto simp: settles_def)

lemma settles_after_barrier:
  assumes "u_comp s = None"
  shows "settles api cfg (ep_res l) s (do {
     (r, s) \<leftarrow> uct_barrier fuel api cfg l s;
     if r \<noteq> 0 then Some (out_free_ep api l UCS_ERR_IO_ERROR s) else uct_transfer fuel api cfg l st s })"
proof (rule settles_bind)
  fix r s1 assume "uct_barrier fuel api cfg l s = Some (r, s1)"
  from lib_step_idle[OF uct_barrier_step[OF this] assms]
  have b: "uct_triple (ep_res l) s s1 (ep_res l)" "u_comp s1 = None" by blast+
  show "settles api cfg (ep_res l) s (if r \<noteq> 0 then Some (out_free_ep api l UCS_ERR_IO_ERROR s1)
      else uct_transfer fuel api cfg l st s1)"
    by (intro settles_seq[OF b(1)] settles_if settles_labels(1) settles_transfer b(2))
qed

lemma ep_created: "uct_triple (oob_res l) s (u_log (U_ep_create ep) s) (ep_res (l\<lparr>l_ep := ep\<rparr>))"
  by (rule uct_triple_acquire[where c = "U_ep_create ep", THEN subst[where P = "\<lambda>Q. uct_triple _ _ _ Q", rotated]])
     (simp_all add: ep_res_def oob_res_def iface_res_def worker_res_def the_iface_def)

lemma settles_connect:
  assumes "u_comp s = None"
  shows "settles api cfg (oob_res l) s (uct_connect fuel api cfg l s)"
proof -
  let ?attr = "if_attr (l_info l)"
  consider (ep) "cap_connect_to_ep ?attr" | (iface) "\<not> cap_connect_to_ep ?attr" "cap_connect_to_iface ?attr"
    | (none) "\<not> cap_connect_to_ep ?attr" "\<not> cap_connect_to_iface ?attr" by blast
  then show ?thesis
  proof cases
    case none
    then show ?thesis by (simp add: uct_connect_def settles_labels)
  next
    case iface
    obtain st ep w where c: "ut_ep_create api (the_iface l) (Some (addr_of (l_peer_dev l) s, addr_of (l_peer_iface l) s)) (u_world s)
        = (st, ep, w)" using prod_cases3 by blast
    let ?s = "s\<lparr>u_world := w\<rparr>"
    have "settles api cfg (oob_res l) ?s (if st \<noteq> UCS_OK then Some (out_free_ep_addrs api l st ?s)
       else uct_transfer fuel api cfg (l\<lparr>l_ep := ep\<rparr>) st (u_log (U_ep_create ep) ?s))"
      using assms by (intro settles_if settles_labels(2) settles_seq[OF ep_created settles_transfer]) simp
    then have "settles api cfg (oob_res l) s (if st \<noteq> UCS_OK then Some (out_free_ep_addrs api l st ?s)
       else uct_transfer fuel api cfg (l\<lparr>l_ep := ep\<rparr>) st (u_log (U_ep_create ep) ?s))"
      by (rule settles_from[rotated]) simp
    with iface c show ?thesis by (cases "st = UCS_OK") (simp_all add: uct_connect_def u_log_if_def)
  next
    case ep
    obtain own h where a: "c_calloc (ep_addr_len ?attr) (u_heap s) = (own, h)" by fastforce
    obtain st1 ep w1 where c: "ut_ep_create api (the_iface l) None (u_world s) = (st1, ep, w1)" using prod_cases3 by blast
    obtain st2 bs w2 where g: "ut_ep_get_address api ep w1 = (st2, bs, w2)" using prod_cases3 by blast
    define l1 where "l1 = l\<lparr>l_own_ep := own\<rparr>"
    define s1 where "s1 = s\<lparr>u_heap := h, u_world := w1\<rparr>"
    define s2 where "s2 = u_on_heap (if st2 = UCS_OK then store cpu_kind own bs else id) ((u_log (U_ep_create ep) s1)\<lparr>u_world := w2\<rparr>)"
    obtain st3 peer s3 where x: "sendrecv api (l_sock l) own (ep_addr_len ?attr) s2 = (st3, peer, s3)" using prod_cases3 by blast
    obtain st4 w4 where k: "ut_connect_to_ep api ep (addr_of (l_peer_dev l) s3) (addr_of peer s3) (u_world s3) = (st4, w4)" by fastforce
    have same: "l_sock l1 = l_sock l" "the_iface l1 = the_iface l" "l_info l1 = l_info l" "l_peer_dev l1 = l_peer_dev l"
      "oob_res l1 = oob_res l"
      by (simp_all add: l1_def the_iface_def)
    have s3: "u_trace s3 = u_trace s2" "u_comp s3 = None"
      using sendrecv_out[OF x] assms by (simp_all add: s2_def s1_def)
    let ?l2 = "l1\<lparr>l_ep := ep\<rparr>" and ?l3 = "l1\<lparr>l_ep := ep, l_peer_ep := peer\<rparr>"
    let ?rest = "if st3 \<noteq> 0 then Some (out_free_ep api ?l3 st3 s3)
       else do { (r, s) \<leftarrow> uct_barrier fuel api cfg ?l3 (s3\<lparr>u_world := w4\<rparr>);
                 if r \<noteq> 0 then Some (out_free_ep api ?l3 UCS_ERR_IO_ERROR s) else uct_transfer fuel api cfg ?l3 st4 s }"
    have "settles api cfg (ep_res ?l3) s3 ?rest"
      using s3(2) by (intro settles_if settles_labels(1) settles_from[OF _ settles_after_barrier]) simp_all
    then have "settles api cfg (ep_res ?l2) s2 ?rest" using settles_from[OF s3(1)] by simp
    then have "settles api cfg (ep_res ?l2) s2 (if st2 \<noteq> UCS_OK then Some (out_free_ep api ?l2 st2 s2) else ?rest)"
      by (rule settles_jump[OF settles_labels(1)])
    then have "settles api cfg (ep_res ?l2) (u_log (U_ep_create ep) s1) (if st2 \<noteq> UCS_OK then Some (out_free_ep api ?l2 st2 s2) else ?rest)"
      by (rule settles_from[rotated]) (simp add: s2_def)
    from settles_seq[OF ep_created this]
    have "settles api cfg (oob_res l1) s1 (if st1 \<noteq> UCS_OK then Some (out_free_ep_addrs api l1 st1 s1)
       else if st2 \<noteq> UCS_OK then Some (out_free_ep api ?l2 st2 s2) else ?rest)"
      by (rule settles_jump[OF settles_labels(2)])
    then have "settles api cfg (oob_res l) s (if st1 \<noteq> UCS_OK then Some (out_free_ep_addrs api l1 st1 s1)
       else if st2 \<noteq> UCS_OK then Some (out_free_ep api ?l2 st2 s2) else ?rest)"
      unfolding same by (rule settles_from[rotated]) (simp add: s1_def)
    moreover have "settles api cfg (oob_res l) s (Some (out_close_oob_sock api l1 UCS_ERR_NO_MEMORY (s\<lparr>u_heap := h\<rparr>)))"
      using settles_from[OF _ settles_labels(3)[of api cfg l1], of "s\<lparr>u_heap := h\<rparr>" s] unfolding same by simp
    ultimately show ?thesis
      using ep a c g x k unfolding uct_connect_def Let_def l1_def s2_def s1_def
      by (cases "own = NULLp"; cases "st1 = UCS_OK"; cases "st2 = UCS_OK"; cases "st3 = 0")
         (simp_all add: u_log_if_def the_iface_def)
  qed
qed

lemma settles_reach:
  assumes "u_comp s = None"
  shows "settles api cfg (oob_res l) s (uct_reach fuel api cfg l s)"
proof -
  obtain r w where r: "ut_is_reachable api (the_iface l) (addr_of (l_peer_dev l) s) (addr_of (l_peer_iface l) s) (u_world s) = (r, w)"
    by fastforce
  let ?s = "s\<lparr>u_world := w\<rparr>"
  have "settles api cfg (oob_res l) ?s (if r = 0 then Some (out_close_oob_sock api l r ?s) else uct_connect fuel api cfg l ?s)"
    using assms by (intro settles_if settles_labels(3) settles_connect) simp
  then have "settles api cfg (oob_res l) s (if r = 0 then Some (out_close_oob_sock api l r ?s) else uct_connect fuel api cfg l ?s)"
    by (rule settles_from[rotated]) simp
  with r show ?thesis by (simp add: uct_reach_def Let_def)
qed

lemma settles_iface_address:
  assumes "u_comp s = None"
  shows "settles api cfg (oob_res l) s (uct_iface_address fuel api cfg l s)"
proof (cases "iface_addr_len (if_attr (l_info l)) > 0")
  case False
  with settles_reach[OF assms] show ?thesis by (simp add: uct_iface_address_def)
next
  case True
  let ?n = "iface_addr_len (if_attr (l_info l))"
  obtain st bs w where g: "ut_get_address api (the_iface l) (u_world s) = (st, bs, w)" using prod_cases3 by blast
  define s1 where "s1 = u_on_heap (if st = UCS_OK then store cpu_kind (l_own_iface l) bs else id) (s\<lparr>u_world := w\<rparr>)"
  obtain st2 peer s2 where x: "sendrecv api (l_sock l) (l_own_iface l) ?n s1 = (st2, peer, s2)" using prod_cases3 by blast
  have s2: "u_trace s2 = u_trace s1" "u_comp s2 = None" using sendrecv_out[OF x] assms by (simp_all add: s1_def)
  let ?l = "l\<lparr>l_peer_iface := peer\<rparr>"
  have "settles api cfg (oob_res ?l) s2 (if st2 \<noteq> 0 then Some (out_close_oob_sock api ?l st2 s2) else uct_reach fuel api cfg ?l s2)"
    by (intro settles_if settles_labels(3) settles_reach s2)
  then have "settles api cfg (oob_res l) s1 (if st2 \<noteq> 0 then Some (out_close_oob_sock api ?l st2 s2) else uct_reach fuel api cfg ?l s2)"
    using settles_from[OF s2(1)] by simp
  then have "settles api cfg (oob_res l) s1 (if st \<noteq> UCS_OK then Some (out_close_oob_sock api l st s1)
      else if st2 \<noteq> 0 then Some (out_close_oob_sock api ?l st2 s2) else uct_reach fuel api cfg ?l s2)"
    by (rule settles_jump[OF settles_labels(3)])
  then have "settles api cfg (oob_res l) s (if st \<noteq> UCS_OK then Some (out_close_oob_sock api l st s1)
      else if st2 \<noteq> 0 then Some (out_close_oob_sock api ?l st2 s2) else uct_reach fuel api cfg ?l s2)"
    by (rule settles_from[rotated]) (simp add: s1_def)
  with True g x show ?thesis unfolding uct_iface_address_def s1_def Let_def
    by (cases "st = UCS_OK"; cases "st2 = 0") simp_all
qed

text \<open>The one jump that forgets the socket.\<close>

lemma settles_forget:
  assumes "\<exists>i w. fst (ut_get_device_address api i w) \<noteq> UCS_OK"
  shows "settles api cfg (oob_res l) s (Some (out_free_if_addrs l st s))"
proof -
  let ?F = "image_mset UR_sock (fd_res (l_sock l))"
  have "explained api cfg ?F" using assms by (auto simp: explained_def fd_res_def)
  moreover have "uct_triple (oob_res l) s (snd (out_free_if_addrs l st s)) ?F"
    unfolding oob_res_def by (rule out_free_if_addrs_triple)
  ultimately show ?thesis by (auto simp: settles_def)
qed

lemma settles_device_address:
  assumes "u_comp s = None"
  shows "settles api cfg (oob_res l) s (uct_device_address fuel api cfg l s)"
proof (cases "device_addr_len (if_attr (l_info l)) > 0")
  case False
  with settles_iface_address[OF assms] show ?thesis by (simp add: uct_device_address_def)
next
  case True
  let ?n = "device_addr_len (if_attr (l_info l))"
  obtain st bs w where g: "ut_get_device_address api (the_iface l) (u_world s) = (st, bs, w)" using prod_cases3 by blast
  define s1 where "s1 = u_on_heap (if st = UCS_OK then store cpu_kind (l_own_dev l) bs else id) (s\<lparr>u_world := w\<rparr>)"
  obtain st2 peer s2 where x: "sendrecv api (l_sock l) (l_own_dev l) ?n s1 = (st2, peer, s2)" using prod_cases3 by blast
  have s2: "u_trace s2 = u_trace s1" "u_comp s2 = None" using sendrecv_out[OF x] assms by (simp_all add: s1_def)
  let ?l = "l\<lparr>l_peer_dev := peer\<rparr>"
  let ?rest = "if st2 \<noteq> 0 then Some (out_close_oob_sock api ?l UCS_ERR_NO_MESSAGE s2) else uct_iface_address fuel api cfg ?l s2"
  have "settles api cfg (oob_res ?l) s2 ?rest"
    by (intro settles_if settles_labels(3) settles_iface_address s2)
  then have r: "settles api cfg (oob_res l) s1 ?rest" using settles_from[OF s2(1)] by simp
  have "settles api cfg (oob_res l) s1 (if st \<noteq> UCS_OK then Some (out_free_if_addrs l st s1) else ?rest)"
  proof (rule settles_if)
    assume "st \<noteq> UCS_OK"
    with g have "fst (ut_get_device_address api (the_iface l) (u_world s)) \<noteq> UCS_OK" by simp
    then show "settles api cfg (oob_res l) s1 (Some (out_free_if_addrs l st s1))" by (blast intro: settles_forget)
  qed (rule r)
  then have "settles api cfg (oob_res l) s (if st \<noteq> UCS_OK then Some (out_free_if_addrs l st s1) else ?rest)"
    by (rule settles_from[rotated]) (simp add: s1_def)
  with True g x show ?thesis unfolding uct_device_address_def s1_def Let_def
    by (cases "st = UCS_OK"; cases "st2 = 0") simp_all
qed

lemma settles_setup:
  assumes "u_comp s = None"
  shows "settles api cfg (iface_res l) s (uct_setup fuel api cfg l s)"
proof -
  let ?a = "uc_args cfg"
  obtain st w where hd: "ut_set_am_handler api (the_iface l) 0 (u_world s) = (st, w)" by fastforce
  define s1 where "s1 = u_log (U_set_am_handler (the_iface l) 0) (s\<lparr>u_world := w\<rparr>)"
  obtain dv h1 where d: "c_calloc (device_addr_len (if_attr (l_info l))) (u_heap s1) = (dv, h1)" by fastforce
  obtain fc h2 where f: "c_calloc (iface_addr_len (if_attr (l_info l))) h1 = (fc, h2)" by fastforce
  define l2 where "l2 = l\<lparr>l_own_dev := dv, l_own_iface := fc\<rparr>"
  obtain fd cs w2 where c: "connect_common (ut_sock api) (arg_server_name ?a) (arg_server_port ?a) (arg_ai_family ?a) (u_world s1)
      = (fd, cs, w2)" using prod_cases3 by blast
  define s3 where "s3 = s1\<lparr>u_heap := h2, u_world := w2, u_trace := u_trace s1 @ map U_sock cs\<rparr>"
  let ?l3 = "l2\<lparr>l_sock := fd\<rparr>"
  have "res_triple uct_acquires uct_releases (iface_res l) (map U_sock cs) (iface_res l + image_mset UR_sock (fd_res fd))"
    by (rule res_triple_embed[OF _ _ connect_common_owns[OF c, of "{#}", simplified]]) simp_all
  moreover have "oob_res ?l3 = iface_res l + image_mset UR_sock (fd_res fd)"
    by (simp add: oob_res_def iface_res_def worker_res_def the_iface_def l2_def)
  ultimately have t3: "uct_triple (iface_res l) s1 s3 (oob_res ?l3)" by (auto simp: uct_triple_def s3_def)
  have i3: "u_comp s3 = None" using assms by (simp add: s3_def s1_def)
  have "settles api cfg (oob_res ?l3) s3 (if fd < 0 then Some (out_close_oob_sock api ?l3 UCS_ERR_IO_ERROR s3)
      else uct_device_address fuel api cfg ?l3 s3)" (is "settles _ _ _ _ ?m3")
    by (intro settles_if settles_labels(3) settles_device_address i3)
  from settles_seq[OF t3 this] have m3: "settles api cfg (iface_res l) s1 ?m3" .
  have res: "iface_res (l\<lparr>l_own_dev := dv\<rparr>) = iface_res l" "iface_res l2 = iface_res l" by (simp_all add: l2_def)
  have o2: "settles api cfg (iface_res l) s1 (Some (out_free_dev_addrs l2 st (s1\<lparr>u_heap := h2\<rparr>)))"
    using settles_from[OF _ settles_labels(4)[of api cfg l2], of "s1\<lparr>u_heap := h2\<rparr>" s1] unfolding res by simp
  have o1: "settles api cfg (iface_res l) s1 (Some (out_destroy_iface (l\<lparr>l_own_dev := dv\<rparr>) st (s1\<lparr>u_heap := h1\<rparr>)))"
    using settles_from[OF _ settles_labels(5)[of api cfg "l\<lparr>l_own_dev := dv\<rparr>"], of "s1\<lparr>u_heap := h1\<rparr>" s1] unfolding res by simp
  have "settles api cfg (iface_res l) s1 (if st \<noteq> UCS_OK then Some (out_destroy_iface l st s1)
      else if dv = NULLp then Some (out_destroy_iface (l\<lparr>l_own_dev := dv\<rparr>) st (s1\<lparr>u_heap := h1\<rparr>))
      else if fc = NULLp then Some (out_free_dev_addrs l2 st (s1\<lparr>u_heap := h2\<rparr>)) else ?m3)" (is "settles _ _ _ _ ?m")
    by (intro settles_if settles_labels(5) o1 o2 m3)
  moreover have "uct_triple (iface_res l) s s1 (iface_res l)"
    by (auto simp: s1_def uct_step_simps)
  ultimately have "settles api cfg (iface_res l) s ?m" by (rule settles_seq[rotated])
  with hd d f c show ?thesis
    unfolding uct_setup_def Let_def l2_def s3_def s1_def
    by (cases "st = UCS_OK"; cases "dv = NULLp"; cases "fc = NULLp"; cases "fd < 0") simp_all
qed

lemma uct_parse_named: "uct_parse_cmd hc argv = Inr cfg \<Longrightarrow> named cfg"
  by (auto simp: uct_parse_cmd_def named_def split: sum.splits if_splits)

lemma uct_main_settles:
  assumes cfg: "uct_parse_cmd hc argv = Inr cfg" and idle: "u_comp s = None"
  shows "settles api cfg {#} s (uct_main fuel api hc argv l s)"
proof -
  let ?l0 = "l\<lparr>l_peer_dev := NULLp, l_peer_iface := NULLp, l_own_ep := NULLp, l_peer_ep := NULLp, l_sock := -1\<rparr>"
  obtain st1 a w1 where r1: "ut_async_create api (u_world s) = (st1, a, w1)" using prod_cases3 by blast
  let ?s1 = "s\<lparr>u_world := w1\<rparr>"
  obtain st2 wk w2 where r2: "ut_worker_create api a w1 = (st2, wk, w2)" using prod_cases3 by blast
  let ?l1 = "?l0\<lparr>l_async := a\<rparr>"
  let ?s2 = "(u_log (U_async_create a) ?s1)\<lparr>u_world := w2\<rparr>"
  let ?s3 = "u_log (U_worker_create wk) ?s2"
  obtain st3 p s4 where lk: "dev_tl_lookup api cfg ((l_info l)\<lparr>if_worker := wk\<rparr>) ?s3 = (st3, p, s4)" using prod_cases3 by blast
  let ?l2 = "?l1\<lparr>l_info := p\<rparr>"
  let ?W = "{#UR_async a, UR_worker wk#}"
  from dev_tl_lookup_outcome[OF lk uct_parse_named[OF cfg], of ?W]
  have q: "u_comp s4 = None" "if_worker p = wk"
    and o: "if st3 = UCS_OK then found cfg ?W ?s3 p s4 (add_mset (UR_md (if_md p)) ?W) else uct_triple ?W ?s3 s4 ?W"
    using idle by (auto simp: untouched_def)
  let ?m4 = "if st3 \<noteq> UCS_OK then Some (out_destroy_worker ?l2 st3 s4) else uct_setup fuel api cfg ?l2 s4"
  have m4: "settles api cfg ?W ?s3 ?m4"
  proof (rule settles_if)
    assume "st3 \<noteq> UCS_OK"
    with o have "uct_triple ?W ?s3 s4 (worker_res ?l2)" by (simp add: worker_res_def q)
    then show "settles api cfg ?W ?s3 (Some (out_destroy_worker ?l2 st3 s4))" by (rule settles_seq) (rule settles_labels)
  next
    assume "\<not> st3 \<noteq> UCS_OK"
    with o have "uct_triple ?W ?s3 s4 (iface_res ?l2)"
      by (auto simp: found_def iface_res_def worker_res_def the_iface_def q add_mset_commute)
    then show "settles api cfg ?W ?s3 (uct_setup fuel api cfg ?l2 s4)" by (rule settles_seq) (rule settles_setup[OF q(1)])
  qed
  let ?m2 = "if st2 \<noteq> UCS_OK then Some (out_cleanup_async ?l1 st2 ?s2) else ?m4"
  have m2: "settles api cfg {#UR_async a#} ?s2 ?m2"
  proof (rule settles_if)
    show "settles api cfg {#UR_async a#} ?s2 (Some (out_cleanup_async ?l1 st2 ?s2))"
      using out_cleanup_async_triple[of ?l1 _ ?s2 st2]
      by (intro settles_out) simp
    have "uct_triple {#UR_async a#} ?s2 ?s3 ?W" by (auto simp: uct_step_simps add_mset_commute)
    from settles_seq[OF this m4] show "settles api cfg {#UR_async a#} ?s2 ?m4" .
  qed
  let ?m1 = "if st1 \<noteq> UCS_OK then Some (main_out st1 ?s1) else ?m2"
  have m1: "settles api cfg {#} s ?m1"
  proof (rule settles_if)
    show "settles api cfg {#} s (Some (main_out st1 ?s1))"
      by (rule settles_out) (simp add: main_out_def uct_triple_same)
    have "uct_triple {#} s ?s2 {#UR_async a#}" by (rule uct_triple_acquire[of "U_async_create a"]) simp_all
    from settles_seq[OF this m2] show "settles api cfg {#} s ?m2" .
  qed
  have "uct_main fuel api hc argv l s = ?m1"
    using cfg r1 r2 lk by (simp add: uct_main_def Let_def u_log_if_def)
  with m1 show ?thesis by simp
qed

end
