(* ===== verification/Uct_Messages.thy ===== *)
theory Uct_Messages
  imports Uct_Ownership
begin

text \<open>
  The payload of the UCT program: deliveries leave the sender's buffer alone, every attempt to send
  carries the whole test string, a received message is released by the allocator it came from, and
  addresses cross the out-of-band socket.
\<close>

section \<open>Deliveries leave older blocks alone\<close>

definition extends :: "heap \<Rightarrow> heap \<Rightarrow> bool" where
  "extends h h' \<longleftrightarrow> heap_wf h' \<and> next_blk h \<le> next_blk h' \<and> (\<forall>b<next_blk h. blocks h' b = blocks h b)"

lemma block_lt: "heap_wf h \<Longrightarrow> blocks h b = Some k \<Longrightarrow> b < next_blk h"
  by (auto simp: heap_wf_def)

lemma extends_refl: "heap_wf h \<Longrightarrow> extends h h"
  by (simp add: extends_def)

lemma extends_trans [trans]: "extends h h' \<Longrightarrow> extends h' h'' \<Longrightarrow> extends h h''"
  by (auto simp: extends_def)

lemma extends_raise: "heap_wf h \<Longrightarrow> extends h (raise_fault f h)"
  by (simp add: extends_def)

lemma extends_grown: "heap_wf h \<Longrightarrow> extends h (grown knd bs h)"
  by (auto simp: extends_def)

lemma extends_tried: "heap_wf h \<Longrightarrow> extends h (tried h)"
  by (simp add: extends_def)

lemma extends_lend: "heap_wf h \<Longrightarrow> extends h (snd (lend bs h))"
  by (auto simp: extends_def lend_def heap_wf_def intro: less_SucI)

lemma heap_wf_reclaim: "heap_wf h \<Longrightarrow> heap_wf (reclaim p h)"
  by (auto simp: reclaim_def release_block_def heap_wf_def split: ptr.splits option.splits)

lemma reclaim_next [simp]: "next_blk (reclaim p h) = next_blk h"
  by (auto simp: reclaim_def release_block_def split: ptr.splits option.splits)

text \<open>Writing to a block that is newer than \<open>h\<close>.\<close>

lemma store_other: "c \<noteq> b \<Longrightarrow> blocks (store ok (Addr b off) bs h) c = blocks h c"
  by (auto simp: store_def poke_def split: option.splits)

lemma extends_store: "extends h h' \<Longrightarrow> next_blk h \<le> b \<Longrightarrow> extends h (store ok (Addr b off) bs h')"
  unfolding extends_def heap_wf_store store_fields by (auto simp: store_other)

lemma extends_copy: "extends h h' \<Longrightarrow> next_blk h \<le> b \<Longrightarrow> extends h (copy_bytes ok (Addr b off) src n h')"
  using extends_store[of h h' b] by (auto simp: copy_bytes_def extends_def[of h "raise_fault _ _"] split: option.splits)
    (simp_all add: extends_def)

lemma extends_reclaim: "extends h h' \<Longrightarrow> next_blk h \<le> b \<Longrightarrow> extends h (reclaim (Addr b off) h')"
  by (auto simp: extends_def heap_wf_reclaim) (auto simp: reclaim_def release_block_def split: option.splits)

lemma c_string_heap: "snd (c_string p h) = h \<or> (\<exists>f. snd (c_string p h) = raise_fault f h)"
  by (auto simp: c_string_def Let_def split: ptr.splits option.splits)

lemma print_strings_extends: "extends h (u_heap s) \<Longrightarrow> extends h (u_heap (print_strings a b p n s))"
  using c_string_heap[of p "u_heap s"]
  by (auto simp: print_strings_def split_beta extends_def)

lemma hello_world_extends:
  assumes "extends h (u_heap s)" "next_blk h \<le> b"
  shows "extends h (u_heap (snd (hello_world f (Addr b off) n d s)))"
proof -
  let ?s = "print_strings ''callback'' (func_am_t_str f) (Addr b off) n s"
  have e: "extends h (u_heap ?s)" by (rule print_strings_extends[OF assms(1)])
  then have wf: "heap_wf (u_heap ?s)" and le: "next_blk h \<le> next_blk (u_heap ?s)" by (simp_all add: extends_def)
  show ?thesis
  proof (cases d)
    case True
    have "extends h (store cpu_kind (ptr_sub (Addr b off) 4) bs (u_heap ?s))" for bs
      using extends_store[OF e assms(2)] e by (auto simp: ptr_sub_def store_def access_def extends_def)
    with True show ?thesis by (simp add: hello_world_def Let_def u_on_heap_def)
  next
    case False
    show ?thesis
    proof (cases "oom (u_heap ?s) (attempts (u_heap ?s))")
      case True
      with False extends_trans[OF e extends_tried[OF wf]] show ?thesis
        by (simp add: hello_world_def Let_def c_malloc_cases)
    next
      case nf: False
      have g: "extends h (grown MHost bs (u_heap ?s))" for bs by (rule extends_trans[OF e extends_grown[OF wf]])
      from False nf extends_copy[OF extends_store[OF g le] le] show ?thesis
        by (simp add: hello_world_def Let_def c_malloc_cases u_on_heap_def ptr_add_def)
    qed
  qed
qed

lemma deliver_am_extends:
  assumes "heap_wf (u_heap s)"
  shows "extends (u_heap s) (u_heap (deliver_am f bs d s))"
proof -
  let ?room = "if d then map (junk (u_heap s) (next_blk (u_heap s))) [0..<4] else []"
  let ?s1 = "s\<lparr>u_heap := snd (lend (?room @ bs) (u_heap s))\<rparr>"
  let ?b = "next_blk (u_heap s)"
  let ?r = "hello_world f (Addr ?b (length ?room)) (length bs) d ?s1"
  have "extends (u_heap s) (u_heap ?s1)" using extends_lend[OF assms] by simp
  then have e: "extends (u_heap s) (u_heap (snd ?r))" by (rule hello_world_extends) simp
  have "u_heap (deliver_am f bs d s) = u_heap (snd ?r) \<or> u_heap (deliver_am f bs d s) = reclaim (Addr ?b 0) (u_heap (snd ?r))"
    by (auto simp: deliver_am_def lend_def Let_def split_beta u_on_heap_def)
  with e extends_reclaim[OF e, of ?b 0] show ?thesis by auto
qed

lemma u_heap_complete_one: "u_heap (complete_one st s) = u_heap s \<or> (\<exists>f. u_heap (complete_one st s) = raise_fault f (u_heap s))"
  by (auto simp: complete_one_def zcopy_completion_cb_def Let_def u_fault_def u_on_heap_def split: option.splits)

lemma uct_dispatch_extends: "heap_wf (u_heap s) \<Longrightarrow> extends (u_heap s) (u_heap (uct_dispatch cfg ev s))"
  using u_heap_complete_one[of _ s]
  by (cases ev) (auto simp: deliver_am_extends extends_refl, metis extends_raise extends_refl)

lemma uct_dispatch_all_extends:
  assumes "heap_wf (u_heap s)"
  shows "extends (u_heap s) (u_heap (uct_dispatch_all cfg evs s))"
  unfolding uct_dispatch_all_def using assms
proof (induction evs arbitrary: s)
  case Nil
  then show ?case by (simp add: extends_refl)
next
  case (Cons ev evs)
  have e: "extends (u_heap s) (u_heap (uct_dispatch cfg ev s))" by (rule uct_dispatch_extends[OF Cons.prems])
  then have "heap_wf (u_heap (uct_dispatch cfg ev s))" by (simp add: extends_def)
  from extends_trans[OF e Cons.IH[OF this]] show ?case by simp
qed

lemma uct_progress_extends:
  "heap_wf (u_heap s) \<Longrightarrow> extends (u_heap s) (u_heap (uct_worker_progress api cfg wk s))"
  using uct_dispatch_all_extends[of "s\<lparr>u_world := _\<rparr>"] by (simp add: uct_worker_progress_def split_beta)

section \<open>What the messages carry\<close>

text \<open>The bytes of a message as the peer reassembles them: the header of a short message comes first.\<close>

fun carried :: "uct_call \<Rightarrow> byte list option" where
  "carried (U_am_short ep i hdr bs st) = Some (le_bytes 8 (unat hdr) @ bs)"
| "carried (U_am_bcopy ep i bs st) = Some bs"
| "carried (U_am_zcopy ep i bs st) = Some bs"
| "carried _ = None"

definition carry_only :: "byte list \<Rightarrow> uct_call list \<Rightarrow> bool" where
  "carry_only m t \<longleftrightarrow> (\<forall>c\<in>set t. carried c = None \<or> carried c = Some m)"

text \<open>A run that keeps the block \<open>b\<close> and sends nothing but \<open>m\<close>.\<close>

definition sends :: "byte list \<Rightarrow> nat \<Rightarrow> 'w uct \<Rightarrow> 'w uct \<Rightarrow> bool" where
  "sends m b s s' \<longleftrightarrow> heap_wf (u_heap s') \<and> b < next_blk (u_heap s') \<and> blocks (u_heap s') b = blocks (u_heap s) b \<and>
     (\<exists>t. u_trace s' = u_trace s @ t \<and> carry_only m t)"

lemma sends_trans [trans]: "sends m b s s' \<Longrightarrow> sends m b s' s'' \<Longrightarrow> sends m b s s''"
  unfolding sends_def carry_only_def by fastforce

lemma sends_refl: "heap_wf (u_heap s) \<Longrightarrow> b < next_blk (u_heap s) \<Longrightarrow> sends m b s s"
  by (auto simp: sends_def carry_only_def)

lemma complete_one_trace: "\<exists>t. u_trace (complete_one st s) = u_trace s @ t \<and> carry_only m t"
  by (auto simp: complete_one_def zcopy_completion_cb_def Let_def carry_only_def split: option.splits)

lemma uct_dispatch_trace: "\<exists>t. u_trace (uct_dispatch cfg ev s) = u_trace s @ t \<and> carry_only m t"
  by (cases ev) (auto simp: complete_one_trace, simp add: carry_only_def)

lemma uct_dispatch_sends:
  "heap_wf (u_heap s) \<Longrightarrow> b < next_blk (u_heap s) \<Longrightarrow> sends m b s (uct_dispatch cfg ev s)"
  using uct_dispatch_extends[of s cfg ev] uct_dispatch_trace[of cfg ev s m] by (auto simp: sends_def extends_def)

lemma uct_dispatch_all_sends:
  "heap_wf (u_heap s) \<Longrightarrow> b < next_blk (u_heap s) \<Longrightarrow> sends m b s (uct_dispatch_all cfg evs s)"
  unfolding uct_dispatch_all_def
proof (induction evs arbitrary: s)
  case Nil
  then show ?case by (simp add: sends_refl)
next
  case (Cons ev evs)
  have d: "sends m b s (uct_dispatch cfg ev s)" by (rule uct_dispatch_sends[OF Cons.prems])
  then have "heap_wf (u_heap (uct_dispatch cfg ev s))" "b < next_blk (u_heap (uct_dispatch cfg ev s))"
    by (simp_all add: sends_def)
  from sends_trans[OF d Cons.IH[OF this]] show ?case by simp
qed

lemma uct_progress_sends:
  assumes "heap_wf (u_heap s)" "b < next_blk (u_heap s)"
  shows "sends m b s (uct_worker_progress api cfg wk s)"
proof -
  obtain evs w where p: "ut_progress api wk (u_world s) = (evs, w)" by fastforce
  have "sends m b (s\<lparr>u_world := w\<rparr>) (uct_dispatch_all cfg evs (s\<lparr>u_world := w\<rparr>))"
    using assms by (intro uct_dispatch_all_sends) simp_all
  then show ?thesis using p by (simp add: uct_worker_progress_def sends_def)
qed

text \<open>The sending loops, given that one attempt keeps to the message.\<close>

lemma send_loop_sends:
  assumes "poll_until fuel (\<lambda>s. let (st, s) = send s in (st, uct_worker_progress api cfg wk s)) again s = Some (x, s')"
    and "heap_wf (u_heap s)" "b < next_blk (u_heap s)"
    and "\<And>u. heap_wf (u_heap u) \<Longrightarrow> blocks (u_heap u) b = blocks (u_heap s) b \<Longrightarrow> sends m b u (snd (send u))"
  shows "sends m b s s'"
proof (rule poll_until_inv[OF assms(1)])
  show "sends m b s (snd (let (st, u) = send u in (st, uct_worker_progress api cfg wk u)))" if "sends m b s u" for u
  proof -
    from that have "sends m b u (snd (send u))" by (intro assms(4)) (simp_all add: sends_def)
    with that have "sends m b s (snd (send u))" by (rule sends_trans)
    then have "sends m b s (uct_worker_progress api cfg wk (snd (send u)))"
      by (rule sends_trans) (rule uct_progress_sends, use \<open>sends m b s (snd (send u))\<close> in \<open>simp_all add: sends_def\<close>)
    then show ?thesis by (simp add: split_beta)
  qed
qed (rule sends_refl[OF assms(2,3)])

lemma logged_sends:
  assumes "heap_wf h" "b < next_blk h" "blocks h b = blocks (u_heap s) b" "carried c = Some m"
  shows "sends m b s (uct_dispatch_all cfg evs (u_log c (s\<lparr>u_heap := h, u_world := w\<rparr>)))"
proof -
  let ?s = "u_log c (s\<lparr>u_heap := h, u_world := w\<rparr>)"
  have "sends m b s ?s" using assms by (simp add: sends_def carry_only_def)
  also have "sends m b ?s (uct_dispatch_all cfg evs ?s)" using assms by (intro uct_dispatch_all_sends) simp_all
  finally show ?thesis .
qed

subsection \<open>The three kinds of message\<close>

lemma load_ok: "access ok p n h = None \<Longrightarrow> load ok p n h = (peek p n h, h)"
  by (simp add: load_def)

definition packed :: "nat \<Rightarrow> byte list \<Rightarrow> am_short_args" where
  "packed b m = \<lparr>sh_header = word_of_int (of_le_int (take 8 m)),
     sh_payload = (if length m > 8 then Addr b 8 else NULLp), sh_len = length m - 8\<rparr>"

lemma am_short_params_pack_ok:
  assumes "blocks h b = Some k" "cpu_kind (b_kind k)" "8 \<le> length (b_bytes k)"
  shows "am_short_params_pack (Addr b 0) (length (b_bytes k)) h = (packed b (b_bytes k), h)"
  using assms by (simp add: am_short_params_pack_def load_ok mem_simps packed_def ptr_add_def)

lemma reassembled: "8 \<le> length m \<Longrightarrow> le_bytes 8 (unat (sh_header (packed b m))) @ drop 8 m = m"
proof -
  assume "8 \<le> length m"
  then have l: "length (take 8 m) = 8" by simp
  then have "of_le (take 8 m) < 2 ^ 64" using of_le_bound[of "take 8 m"] by simp
  then have "unat (sh_header (packed b m)) = of_le (take 8 m)" by (simp add: packed_def of_le_int_eq unat_of_nat)
  with le_bytes_of_le[of "take 8 m"] l show ?thesis by simp
qed

lemma ep_am_short_sends:
  assumes k: "blocks (u_heap s) b = Some k" "cpu_kind (b_kind k)" "8 \<le> length (b_bytes k)"
    and wf: "heap_wf (u_heap s)"
  shows "sends (b_bytes k) b s (snd (ep_am_short api cfg ep i (packed b (b_bytes k)) s))"
proof -
  let ?a = "packed b (b_bytes k)"
  have lt: "b < next_blk (u_heap s)" using block_lt[OF wf k(1)] .
  have ld: "(if sh_len ?a = 0 then ([], u_heap s) else load cpu_kind (sh_payload ?a) (sh_len ?a) (u_heap s))
      = (drop 8 (b_bytes k), u_heap s)"
    using k by (auto simp: packed_def load_ok mem_simps)
  obtain st evs w where sd: "ut_am_short api ep i (sh_header ?a) (drop 8 (b_bytes k)) (u_world s) = (st, evs, w)"
    using prod_cases3 by blast
  have "carried (U_am_short ep i (sh_header ?a) (drop 8 (b_bytes k)) st) = Some (b_bytes k)"
    using reassembled[OF k(3)] by simp
  from logged_sends[OF wf lt _ this, of s cfg evs w] show ?thesis
    using ld sd by (simp add: ep_am_short_def)
qed

lemma do_am_short_sends:
  assumes "do_am_short fuel api cfg info ep i (Addr b 0) s = Some (st, s')"
    and k: "blocks (u_heap s) b = Some k" "cpu_kind (b_kind k)" "8 \<le> length (b_bytes k)"
    and n: "length (b_bytes k) = size_t (arg_test_strlen (uc_args cfg))" and wf: "heap_wf (u_heap s)"
  shows "sends (b_bytes k) b s s'"
proof -
  have "poll_until fuel
      (\<lambda>s. let (status, s) = ep_am_short api cfg ep i (packed b (b_bytes k)) s
           in (status, uct_worker_progress api cfg (if_worker info) s))
      (\<lambda>status. status = UCS_ERR_NO_RESOURCE) s = Some (st, s')"
    using assms(1) am_short_params_pack_ok[OF k] unfolding do_am_short_def Let_def n[symmetric] by simp
  then show ?thesis
    by (rule send_loop_sends[OF _ wf block_lt[OF wf k(1)]]) (rule ep_am_short_sends; use k in simp)
qed

lemma ep_am_bcopy_sends:
  assumes k: "blocks (u_heap s) b = Some k" "reach_of (uc_mem cfg) (b_kind k)" "type_ok (uc_mem cfg) (uc_cuda cfg)"
    and wf: "heap_wf (u_heap s)"
    and room: "\<And>w buf w'. ut_bcopy_buffer api ep i w = (Inr buf, w') \<Longrightarrow> length (b_bytes k) \<le> length buf"
  shows "sends (b_bytes k) b s (snd (ep_am_bcopy api cfg ep i \<lparr>bc_data = Addr b 0, bc_len = length (b_bytes k)\<rparr> s))"
proof -
  let ?m = "b_bytes k" and ?d = "next_blk (u_heap s)"
  have lt: "b < ?d" using block_lt[OF wf k(1)] .
  obtain r w where bf: "ut_bcopy_buffer api ep i (u_world s) = (r, w)" by fastforce
  show ?thesis
  proof (cases r)
    case (Inl st)
    with bf show ?thesis using wf lt by (auto simp: ep_am_bcopy_def sends_def carry_only_def)
  next
    case (Inr buf)
    with bf room have n: "length ?m \<le> length buf" by blast
    let ?h = "snd (lend buf (u_heap s))"
    let ?h' = "copy_bytes (reach_of (uc_mem cfg)) (Addr ?d 0) (Addr b 0) (length ?m) ?h"
    have bk: "blocks ?h b = Some k" "blocks ?h ?d = Some \<lparr>b_kind = MLib, b_bytes = buf\<rparr>" using k lt by (auto simp: lend_def)
    have lib: "reach_of (uc_mem cfg) MLib" by (cases "uc_mem cfg") simp_all
    have cp: "?h' = ?h\<lparr>blocks := (blocks ?h)(?d \<mapsto> \<lparr>b_kind = MLib, b_bytes = splice 0 ?m buf\<rparr>)\<rparr>"
      using bk k(2) lib n by (simp add: copy_bytes_ok access_def peek_def poke_def)
    have pk: "peek (Addr ?d 0) (length ?m) ?h' = ?m" using n by (simp add: cp peek_def splice_def)
    have e: "extends (u_heap s) (reclaim (Addr ?d 0) ?h')"
      by (intro extends_reclaim extends_copy extends_lend wf) simp_all
    then have hp: "heap_wf (reclaim (Addr ?d 0) ?h')" "b < next_blk (reclaim (Addr ?d 0) ?h')"
      "blocks (reclaim (Addr ?d 0) ?h') b = blocks (u_heap s) b" using lt by (auto simp: extends_def)
    obtain st evs w' where sd: "ut_bcopy_send api ep i ?m w = (st, evs, w')" using prod_cases3 by blast
    have "carried (U_am_bcopy ep i ?m st) = Some ?m" by simp
    from logged_sends[OF hp this, of cfg evs w'] show ?thesis
      using bf Inr sd pk k(3) by (simp add: ep_am_bcopy_def lend_def am_bcopy_data_pack_cb_def mem_type_memcpy_reach Let_def)
  qed
qed

lemma do_am_bcopy_sends:
  assumes "do_am_bcopy fuel api cfg info ep i (Addr b 0) s = Some (st, s')"
    and k: "blocks (u_heap s) b = Some k" "reach_of (uc_mem cfg) (b_kind k)" "type_ok (uc_mem cfg) (uc_cuda cfg)"
    and n: "length (b_bytes k) = size_t (arg_test_strlen (uc_args cfg))" and wf: "heap_wf (u_heap s)"
    and room: "\<And>w buf w'. ut_bcopy_buffer api ep i w = (Inr buf, w') \<Longrightarrow> length (b_bytes k) \<le> length buf"
  shows "sends (b_bytes k) b s s'"
proof -
  from assms(1) obtain len where "poll_until fuel
      (\<lambda>s. let (len, s) = ep_am_bcopy api cfg ep i \<lparr>bc_data = Addr b 0, bc_len = length (b_bytes k)\<rparr> s
             in (len, uct_worker_progress api cfg (if_worker info) s))
        (\<lambda>len. len = UCS_ERR_NO_RESOURCE) s = Some (len, s')"
    unfolding do_am_bcopy_def n[symmetric] by (auto simp: Let_def bind_eq_Some_conv)
  then show ?thesis
    by (rule send_loop_sends[OF _ wf block_lt[OF wf k(1)]]) (rule ep_am_bcopy_sends[OF _ k(2,3) _ room]; use k(1) in simp)
qed

lemma ep_am_zcopy_sends:
  assumes k: "blocks (u_heap s) b = Some k" and wf: "heap_wf (u_heap s)"
  shows "sends (b_bytes k) b s (snd (ep_am_zcopy api cfg ep i (Addr b 0) (length (b_bytes k)) mh s))"
proof -
  have lt: "b < next_blk (u_heap s)" using block_lt[OF wf k(1)] .
  have ld: "load any_kind (Addr b 0) (length (b_bytes k)) (u_heap s) = (b_bytes k, u_heap s)"
    using k by (simp add: load_ok mem_simps)
  obtain st evs w where sd: "ut_am_zcopy api ep i (b_bytes k) mh (u_world s) = (st, evs, w)" using prod_cases3 by blast
  have "carried (U_am_zcopy ep i (b_bytes k) st) = Some (b_bytes k)" by simp
  from logged_sends[OF wf lt _ this, of s cfg evs w] show ?thesis
    using ld sd by (simp add: ep_am_zcopy_def)
qed

lemma spin_sends:
  assumes "spin fuel fin (uct_worker_progress api cfg wk) s = Some s'" "heap_wf (u_heap s)" "b < next_blk (u_heap s)"
  shows "sends m b s s'"
  using assms(1)
proof (rule spin_inv)
  show "sends m b s (uct_worker_progress api cfg wk u)" if "sends m b s u" for u
    using that by (rule sends_trans) (rule uct_progress_sends; use that in \<open>simp add: sends_def\<close>)
qed (rule sends_refl[OF assms(2,3)])

lemma zcopy_send_sends:
  assumes z: "zcopy_send fuel api cfg info ep i (Addr b 0) (length (b_bytes k)) mh s = Some (st, s')"
    and k: "blocks (u_heap s) b = Some k" and wf: "heap_wf (u_heap s)"
  shows "sends (b_bytes k) b s s'"
proof -
  have lt: "b < next_blk (u_heap s)" using block_lt[OF wf k] .
  from z obtain st1 s1 where p: "poll_until fuel
        (\<lambda>s. let (status, s) = ep_am_zcopy api cfg ep i (Addr b 0) (length (b_bytes k)) mh s
             in (status, uct_worker_progress api cfg (if_worker info) s))
        (\<lambda>status. status = UCS_ERR_NO_RESOURCE) s = Some (st1, s1)"
    by (auto simp: zcopy_send_def bind_eq_Some_conv)
  from p wf lt have 1: "sends (b_bytes k) b s s1"
    by (rule send_loop_sends) (rule ep_am_zcopy_sends; use k in simp)
  show ?thesis
  proof (cases "st1 = UCS_INPROGRESS")
    case True
    with z p have "spin fuel (\<lambda>s. desc_holder s \<noteq> NULLp) (uct_worker_progress api cfg (if_worker info)) s1 = Some s'"
      by (auto simp: zcopy_send_def bind_eq_Some_conv)
    then have "sends (b_bytes k) b s1 s'" using 1 by (intro spin_sends) (simp_all add: sends_def)
    with 1 show ?thesis by (rule sends_trans)
  next
    case False
    with z p 1 show ?thesis by (simp add: zcopy_send_def)
  qed
qed

lemma do_am_zcopy_sends:
  assumes z: "do_am_zcopy fuel api cfg info ep i (Addr b 0) s = Some (st, s')"
    and k: "blocks (u_heap s) b = Some k" and wf: "heap_wf (u_heap s)"
    and n: "length (b_bytes k) = size_t (arg_test_strlen (uc_args cfg))"
  shows "sends (b_bytes k) b s s'"
proof -
  have lt: "b < next_blk (u_heap s)" using block_lt[OF wf k] .
  obtain st1 memh s1 where reg: "(if md_need_memh (if_md_attr info) then
               (let (status, mh, w) = ut_mem_reg api (if_md info) (Addr b 0) (length (b_bytes k)) (u_world s)
                in (status, Some mh, u_log_if (status = UCS_OK) (U_mem_reg mh) (s\<lparr>u_world := w\<rparr>)))
             else (UCS_OK, None, s)) = (st1, memh, s1)" using prod_cases3 by blast
  define s2 where "s2 = s1\<lparr>u_comp := Some \<lparr>comp_count = 1, comp_status = UCS_OK, comp_md = if_md info, comp_memh = memh\<rparr>\<rparr>"
  have hp: "u_heap s2 = u_heap s"
    using reg by (auto simp: s2_def split: if_splits prod.splits)
  have 2: "sends (b_bytes k) b s s2"
    using reg wf lt hp unfolding sends_def s2_def
    by (cases "md_need_memh (if_md_attr info)") (auto simp: carry_only_def split: prod.splits)
  show ?thesis
  proof (cases "st1 = UCS_OK")
    case False
    with z reg s2_def have "s' = s2\<lparr>u_comp := None\<rparr>" unfolding do_am_zcopy_def n[symmetric] by simp
    with 2 show ?thesis by (simp add: sends_def)
  next
    case True
    with z reg have "do { (status, s) \<leftarrow> zcopy_send fuel api cfg info ep i (Addr b 0) (length (b_bytes k)) memh s2;
        Some (status, s\<lparr>u_comp := None\<rparr>) } = Some (st, s')"
      unfolding do_am_zcopy_def n[symmetric] by (simp add: s2_def)
    then obtain s3 where "zcopy_send fuel api cfg info ep i (Addr b 0) (length (b_bytes k)) memh s2 = Some (st, s3)"
      "s' = s3\<lparr>u_comp := None\<rparr>" by (auto simp: bind_eq_Some_conv)
    moreover from zcopy_send_sends[OF this(1)] k wf hp have "sends (b_bytes k) b s2 s3" by simp
    ultimately have "sends (b_bytes k) b s s3" using sends_trans[OF 2] by blast
    with \<open>s' = s3\<lparr>u_comp := None\<rparr>\<close> show ?thesis by (simp add: sends_def)
  qed
qed

subsection \<open>The client\<close>

text \<open>The string the client makes before it sends.\<close>

lemma client_string:
  assumes "heap_wf h" "\<forall>i. \<not> oom h i" "type_ok tmt hc" "0 < n" "n < 2 ^ 31"
  shows "\<exists>h'. uct_generate_test_string hc tmt (Addr (next_blk h) 0) (int n) (grown (kind_of tmt) (junk_bytes n h) h) = (0, h') \<and>
     heap_wf h' \<and> blocks h' (next_blk h) = Some \<lparr>b_kind = kind_of tmt, b_bytes = test_pattern n 0\<rparr>"
proof -
  let ?g = "grown (kind_of tmt) (junk_bytes n h) h" and ?k = "\<lparr>b_kind = kind_of tmt, b_bytes = junk_bytes n h\<rparr>"
  let ?h = "with_string (next_blk h) 0 (test_pattern n 0) ?k ?g"
  have "uct_generate_test_string hc tmt (Addr (next_blk h) 0) (int n) ?g = (0, ?h)"
    using assms by (intro uct_generate_test_string_ok) simp_all
  moreover have "heap_wf ?h" using assms(1) by (auto simp: with_string_def heap_wf_def)
  moreover have "blocks ?h (next_blk h) = Some \<lparr>b_kind = kind_of tmt, b_bytes = test_pattern n 0\<rparr>"
    using assms(4) by (simp add: with_string_def splice_all)
  ultimately show ?thesis by blast
qed

lemma uct_client_send_carries:
  assumes c: "uct_client_send fuel api cfg l s = Some (r, s')"
    and h: "heap_wf (u_heap s)" "\<forall>i. \<not> oom (u_heap s) i"
    and mt: "type_ok (uc_mem cfg) (uc_cuda cfg)"
    and n: "arg_test_strlen (uc_args cfg) = int n" "0 < n" "n < 2 ^ 31"
    and short: "arg_func_am_type (uc_args cfg) = FUNC_AM_SHORT \<Longrightarrow> 8 \<le> n \<and> uc_mem cfg \<noteq> UCS_MEMORY_TYPE_CUDA"
    and room: "\<And>ep i w buf w'. ut_bcopy_buffer api ep i w = (Inr buf, w') \<Longrightarrow> n \<le> length buf"
  shows "\<exists>t. u_trace s' = u_trace s @ t \<and> carry_only (test_pattern n 0) t"
proof -
  let ?b = "next_blk (u_heap s)" and ?m = "test_pattern n 0"
  from client_string[OF h mt n(2,3)] obtain h' where g:
    "uct_generate_test_string (uc_cuda cfg) (uc_mem cfg) (Addr ?b 0) (int n) (grown (kind_of (uc_mem cfg)) (junk_bytes n (u_heap s)) (u_heap s)) = (0, h')"
    and wf: "heap_wf h'" and k: "blocks h' ?b = Some \<lparr>b_kind = kind_of (uc_mem cfg), b_bytes = ?m\<rparr>" by blast
  let ?k = "\<lparr>b_kind = kind_of (uc_mem cfg), b_bytes = ?m\<rparr>"
  let ?s = "s\<lparr>u_heap := h'\<rparr>"
  have sz: "size_t (arg_test_strlen (uc_args cfg)) = n" "c_int (arg_test_strlen (uc_args cfg)) = int n"
    using n by simp_all
  have len: "length (b_bytes ?k) = size_t (arg_test_strlen (uc_args cfg))" using n(2) unfolding sz by simp
  let ?send = "case arg_func_am_type (uc_args cfg) of
              FUNC_AM_SHORT \<Rightarrow> do_am_short fuel api cfg (l_info l) (l_ep l) 0 (Addr ?b 0) ?s
            | FUNC_AM_BCOPY \<Rightarrow> do_am_bcopy fuel api cfg (l_info l) (l_ep l) 0 (Addr ?b 0) ?s
            | FUNC_AM_ZCOPY \<Rightarrow> do_am_zcopy fuel api cfg (l_info l) (l_ep l) 0 (Addr ?b 0) ?s"
  have al: "mem_type_malloc (uc_cuda cfg) (uc_mem cfg) n (u_heap s)
      = (Addr ?b 0, grown (kind_of (uc_mem cfg)) (junk_bytes n (u_heap s)) (u_heap s))"
    using h mt by (simp add: mem_type_malloc_ok)
  have "do { (status, s) \<leftarrow> ?send; Some ((status, status = UCS_OK), u_on_heap (mem_type_free (uc_cuda cfg) (uc_mem cfg) (Addr ?b 0)) s) }
      = Some (r, s')"
    using c al g unfolding uct_client_send_def Let_def sz by (cases "arg_func_am_type (uc_args cfg)") simp_all
  then obtain st s1 where s1: "?send = Some (st, s1)" "u_trace s' = u_trace s1"
    by (auto simp: bind_eq_Some_conv)
  have cpu: "uc_mem cfg \<noteq> UCS_MEMORY_TYPE_CUDA \<Longrightarrow> cpu_kind (kind_of (uc_mem cfg))" by (cases "uc_mem cfg") simp_all
  have "sends (b_bytes ?k) ?b ?s s1"
  proof (cases "arg_func_am_type (uc_args cfg)")
    case FUNC_AM_SHORT
    with s1(1) short cpu k wf len n(2) show ?thesis by (intro do_am_short_sends[where s = ?s and b = ?b]) simp_all
  next
    case FUNC_AM_BCOPY
    with s1(1) k wf len mt n(2) room show ?thesis by (intro do_am_bcopy_sends[where s = ?s and b = ?b]) simp_all
  next
    case FUNC_AM_ZCOPY
    with s1(1) k wf len show ?thesis by (intro do_am_zcopy_sends[where s = ?s and b = ?b]) simp_all
  qed
  with s1(2) show ?thesis by (simp add: sends_def)
qed

section \<open>Retrying\<close>

text \<open>The statuses of the short messages in a trace.\<close>

fun short_status :: "uct_call \<Rightarrow> ucs_status list" where
  "short_status (U_am_short ep i hdr bs st) = [st]"
| "short_status _ = []"

definition short_statuses :: "uct_call list \<Rightarrow> ucs_status list" where
  "short_statuses t = concat (map short_status t)"

lemma short_statuses_append [simp]: "short_statuses (t @ u) = short_statuses t @ short_statuses u"
  by (simp add: short_statuses_def)

lemma uct_dispatch_statuses: "short_statuses (u_trace (uct_dispatch cfg ev s)) = short_statuses (u_trace s)"
  by (cases ev) (auto simp: complete_one_def zcopy_completion_cb_def Let_def short_statuses_def split: option.splits)

lemma uct_dispatch_all_statuses: "short_statuses (u_trace (uct_dispatch_all cfg evs s)) = short_statuses (u_trace s)"
  unfolding uct_dispatch_all_def by (induction evs arbitrary: s) (simp_all add: uct_dispatch_statuses)

lemma ep_am_short_statuses:
  "short_statuses (u_trace (snd (ep_am_short api cfg ep i a s))) = short_statuses (u_trace s) @ [fst (ep_am_short api cfg ep i a s)]"
  by (simp add: ep_am_short_def Let_def split_beta uct_dispatch_all_statuses) (simp add: short_statuses_def)

text \<open>One attempt and one progress.\<close>

abbreviation short_turn :: "'w uct_api \<Rightarrow> uct_config \<Rightarrow> nat \<Rightarrow> nat \<Rightarrow> nat \<Rightarrow> am_short_args \<Rightarrow> 'w uct \<Rightarrow> ucs_status \<times> 'w uct" where
  "short_turn api cfg wk ep i a s \<equiv>
     (let (status, s) = ep_am_short api cfg ep i a s in (status, uct_worker_progress api cfg wk s))"

lemma short_turn_statuses:
  "short_statuses (u_trace (snd (short_turn api cfg wk ep i a s))) = short_statuses (u_trace s) @ [fst (short_turn api cfg wk ep i a s)]"
  by (simp add: split_beta uct_worker_progress_def uct_dispatch_all_statuses ep_am_short_statuses)

lemma short_loop_statuses:
  assumes "poll_until fuel (short_turn api cfg wk ep i a) (\<lambda>st. st = UCS_ERR_NO_RESOURCE) s = Some (st, s')"
  shows "\<exists>k. short_statuses (u_trace s') = short_statuses (u_trace s) @ replicate k UCS_ERR_NO_RESOURCE @ [st]"
  using assms
proof (induction fuel arbitrary: s)
  case (Suc fuel)
  obtain x s1 where t: "short_turn api cfg wk ep i a s = (x, s1)" by fastforce
  from short_turn_statuses[where api = api and cfg = cfg and wk = wk and ep = ep and i = i and a = a and s = s] t
  have one: "short_statuses (u_trace s1) = short_statuses (u_trace s) @ [x]" by simp
  show ?case
  proof (cases "x = UCS_ERR_NO_RESOURCE")
    case True
    with Suc.prems t have "poll_until fuel (short_turn api cfg wk ep i a) (\<lambda>st. st = UCS_ERR_NO_RESOURCE) s1 = Some (st, s')"
      by simp
    from Suc.IH[OF this] obtain k where "short_statuses (u_trace s') = short_statuses (u_trace s1) @ replicate k UCS_ERR_NO_RESOURCE @ [st]"
      by blast
    with one True show ?thesis by (intro exI[of _ "Suc k"]) simp
  next
    case False
    with Suc.prems t one show ?thesis by (intro exI[of _ 0]) simp
  qed
qed simp

end
