(* ===== verification/Uct_Receive.thy ===== *)
theory Uct_Receive
  imports Uct_Messages
begin

text \<open>
  The receiving side of the UCT program, from the delivery of a message to the release of its
  descriptor, and the exchange of addresses over the out-of-band socket.
\<close>

section \<open>Delivery\<close>

lemma c_string_ok:
  assumes "blocks h b = Some k" "cpu_kind (b_kind k)" "drop off (b_bytes k) = m @ 0 # r" "0 \<notin> set m"
  shows "c_string (Addr b off) h = (m, h)"
proof -
  have "takeWhile (\<lambda>c. c \<noteq> 0) (m @ 0 # r) = m"
    using assms(4) by (induction m) auto
  with assms show ?thesis by (simp add: c_string_def)
qed

text \<open>
  What the program holds after a delivery: a descriptor whose flag says who allocated it, followed
  by the message.
\<close>

definition held_desc :: "bool \<Rightarrow> byte list \<Rightarrow> block" where
  "held_desc d bs = \<lparr>b_kind = (if d then MLib else MHost), b_bytes = le_bytes 4 (if d then 1 else 0) @ bs\<rparr>"

definition delivered :: "bool \<Rightarrow> byte list \<Rightarrow> 'w uct \<Rightarrow> 'w uct \<Rightarrow> bool" where
  "delivered d bs s s' \<longleftrightarrow> (\<exists>b. desc_holder s' = Addr b 0 \<and> blocks (u_heap s') b = Some (held_desc d bs) \<and>
     (shape (u_heap s'))(b := None) = shape (u_heap s)) \<and> fault (u_heap s') = fault (u_heap s)"

lemma deliver_desc:
  assumes wf: "heap_wf (u_heap s)" and bs: "bs = m @ [0]" "0 \<notin> set m"
  shows "delivered True bs s (deliver_am f bs True s) \<and>
     u_out (deliver_am f bs True s) = u_out s @ [Out_strings ''callback'' (func_am_t_str f) (Some m) (length bs)]"
proof -
  let ?h = "u_heap s" and ?b = "next_blk (u_heap s)"
  let ?room = "map (junk ?h ?b) [0..<4]"
  let ?g = "\<lambda>xs. ?h\<lparr>blocks := (blocks ?h)(?b \<mapsto> \<lparr>b_kind = MLib, b_bytes = xs\<rparr>), next_blk := Suc ?b\<rparr>"
  have str: "c_string (Addr ?b 4) (?g (?room @ bs)) = (m, ?g (?room @ bs))"
    by (rule c_string_ok[where r = "[]" and k = "\<lparr>b_kind = MLib, b_bytes = ?room @ bs\<rparr>"]) (use bs in simp_all)
  have st: "store cpu_kind (Addr ?b 0) (le_bytes 4 1) (?g (?room @ bs)) = ?g (le_bytes 4 1 @ bs)"
    by (simp add: store_def access_def poke_def splice_def)
  have d: "deliver_am f bs True s = s\<lparr>u_heap := ?g (le_bytes 4 1 @ bs), desc_holder := Addr ?b 0,
      u_out := u_out s @ [Out_strings ''callback'' (func_am_t_str f) (Some m) (length bs)]\<rparr>"
    using str st bs(1) by (simp add: deliver_am_def lend_def hello_world_def print_strings_def ptr_sub_def u_on_heap_def)
  have "shape ?h ?b = None" using wf by (simp add: shape_def)
  then show ?thesis unfolding d by (auto simp: delivered_def held_desc_def shape_def fun_eq_iff)
qed

lemma hello_world_copy:
  assumes str: "c_string (Addr b 0) (u_heap s) = (m, u_heap s)" and n: "0 < n"
    and al: "c_malloc (size_t (4 + int n)) (u_heap s) = (Addr c 0, h1)"
    and st: "store cpu_kind (Addr c 0) (le_bytes 4 0) h1 = h2"
    and cp: "c_memcpy (Addr c 4) (Addr b 0) n h2 = h3"
  shows "hello_world f (Addr b 0) n False s = (UCS_OK, s\<lparr>u_heap := h3, desc_holder := Addr c 0,
     u_out := u_out s @ [Out_strings ''callback'' (func_am_t_str f) (Some m) n]\<rparr>)"
  using assms by (simp add: hello_world_def print_strings_def u_on_heap_def ptr_add_def)

lemma deliver_copy:
  assumes wf: "heap_wf (u_heap s)" and bs: "bs = m @ [0]" "0 \<notin> set m" and len: "4 + length bs < 2 ^ 64"
    and mem: "\<not> oom (u_heap s) (attempts (u_heap s))"
  shows "delivered False bs s (deliver_am f bs False s) \<and>
     u_out (deliver_am f bs False s) = u_out s @ [Out_strings ''callback'' (func_am_t_str f) (Some m) (length bs)]"
proof -
  let ?h = "u_heap s" and ?b = "next_blk (u_heap s)" and ?n = "4 + length bs"
  let ?g = "?h\<lparr>blocks := (blocks ?h)(?b \<mapsto> \<lparr>b_kind = MLib, b_bytes = bs\<rparr>), next_blk := Suc ?b\<rparr>"
  let ?j = "junk_bytes ?n ?g"
  let ?k = "\<lambda>xs. grown MHost xs ?g"
  let ?h2 = "?h\<lparr>attempts := Suc (attempts ?h), blocks := (blocks ?h)(Suc ?b \<mapsto> held_desc False bs), next_blk := Suc (Suc ?b)\<rparr>"
  have str: "c_string (Addr ?b 0) ?g = (m, ?g)"
    by (rule c_string_ok[where r = "[]" and k = "\<lparr>b_kind = MLib, b_bytes = bs\<rparr>"]) (use bs in simp_all)
  have "size_t (4 + int (length bs)) = ?n" using len by (simp add: size_t_def nat_add_distrib)
  then have al: "c_malloc (size_t (4 + int (length bs))) ?g = (Addr (Suc ?b) 0, ?k ?j)"
    using mem by (simp add: c_malloc_cases)
  have st: "store cpu_kind (Addr (Suc ?b) 0) (le_bytes 4 0) (?k ?j) = ?k (le_bytes 4 0 @ drop 4 ?j)"
    by (simp add: store_def access_def poke_def splice_def grown_def)
  have cp: "c_memcpy (Addr (Suc ?b) 4) (Addr ?b 0) (length bs) (?k (le_bytes 4 0 @ drop 4 ?j)) = ?k (le_bytes 4 0 @ bs)"
    by (simp add: copy_bytes_ok access_def peek_def poke_def splice_def grown_def)
  have rc: "reclaim (Addr ?b 0) (?k (le_bytes 4 0 @ bs)) = ?h2"
    using wf by (simp add: reclaim_def release_block_def grown_def held_desc_def fun_upd_twist fun_upd_idem)
  have "hello_world f (Addr ?b 0) (length bs) False (s\<lparr>u_heap := ?g\<rparr>) =
     (UCS_OK, s\<lparr>u_heap := ?k (le_bytes 4 0 @ bs), desc_holder := Addr (Suc ?b) 0,
        u_out := u_out s @ [Out_strings ''callback'' (func_am_t_str f) (Some m) (length bs)]\<rparr>)"
    using hello_world_copy[where s = "s\<lparr>u_heap := ?g\<rparr>", OF _ _ _ st cp, of m f] str al bs(1) by simp
  then have d: "deliver_am f bs False s = s\<lparr>u_heap := ?h2, desc_holder := Addr (Suc ?b) 0,
      u_out := u_out s @ [Out_strings ''callback'' (func_am_t_str f) (Some m) (length bs)]\<rparr>"
    using rc by (simp add: deliver_am_def lend_def u_on_heap_def)
  have "shape ?h (Suc ?b) = None" using wf by (auto simp: shape_def heap_wf_def)
  then show ?thesis unfolding d by (auto simp: delivered_def held_desc_def shape_def fun_eq_iff)
qed

lemma deliver_am_delivered:
  assumes "heap_wf (u_heap s)" "bs = m @ [0]" "0 \<notin> set m" "4 + length bs < 2 ^ 64"
    and "\<not> oom (u_heap s) (attempts (u_heap s))"
  shows "delivered d bs s (deliver_am f bs d s) \<and>
     u_out (deliver_am f bs d s) = u_out s @ [Out_strings ''callback'' (func_am_t_str f) (Some m) (length bs)]"
  using deliver_desc[of s bs m f] deliver_copy[of s bs m f] assms by (cases d) simp_all

section \<open>Release\<close>

text \<open>The end of the server's work on a message: print it and release the descriptor.\<close>

lemma release_held:
  assumes k: "blocks h b = Some (held_desc d bs)"
  shows "load cpu_kind (Addr b 0) 4 h = (le_bytes 4 (if d then 1 else 0), h) \<and>
     (if of_le (le_bytes 4 (if d then 1 else 0)) \<noteq> 0 then reclaim (Addr b 0) h else c_free (Addr b 0) h)
       = h\<lparr>blocks := (blocks h)(b := None)\<rparr>"
proof -
  have cpu: "cpu_kind (b_kind (held_desc d bs))" by (simp add: held_desc_def)
  have "load cpu_kind (Addr b 0) 4 h = (le_bytes 4 (if d then 1 else 0), h)"
  proof -
    have "access cpu_kind (Addr b 0) 4 h = None" using k cpu by (simp add: access_def) (simp add: held_desc_def)
    then show ?thesis using k by (simp add: load_ok peek_Addr held_desc_def)
  qed
  moreover have "of_le (le_bytes 4 (if d then 1 else 0)) = (if d then 1 else 0)" by (simp add: of_le_le_bytes)
  ultimately show ?thesis
    using k by (cases d) (simp_all add: reclaim_def c_free_def release_block_def held_desc_def)
qed

lemma shape_drop: "shape (h\<lparr>blocks := (blocks h)(b := None)\<rparr>) = (shape h)(b := None)"
  by (auto simp: shape_def fun_eq_iff)

lemma uct_server_recv_once:
  assumes ev: "ut_progress api (if_worker (l_info l)) (u_world s) = ([Ev_am bs d], w)"
    and idle: "desc_holder s = NULLp" and wf: "heap_wf (u_heap s)" and mem: "\<not> oom (u_heap s) (attempts (u_heap s))"
    and bs: "bs = m @ [0]" "0 \<notin> set m" "4 + length bs < 2 ^ 64"
    and n: "arg_test_strlen (uc_args cfg) = int (length bs)"
  shows "\<exists>s'. uct_server_recv (Suc fuel) api cfg l s = Some s' \<and> shape (u_heap s') = shape (u_heap s) \<and>
     fault (u_heap s') = fault (u_heap s) \<and>
     u_out s' = u_out s @ [Out_strings ''callback'' (func_am_t_str (arg_func_am_type (uc_args cfg))) (Some m) (length bs),
                           Out_strings ''main'' (func_am_t_str (arg_func_am_type (uc_args cfg))) (Some m) (length bs)]"
proof -
  let ?f = "arg_func_am_type (uc_args cfg)"
  let ?s0 = "s\<lparr>u_world := w\<rparr>"
  let ?s1 = "deliver_am ?f bs d ?s0"
  from deliver_am_delivered[of ?s0 bs m d ?f] wf mem bs
  have dl: "delivered d bs ?s0 ?s1"
    and out: "u_out ?s1 = u_out s @ [Out_strings ''callback'' (func_am_t_str ?f) (Some m) (length bs)]" by simp_all
  from dl obtain b where b: "desc_holder ?s1 = Addr b 0" "blocks (u_heap ?s1) b = Some (held_desc d bs)"
    "(shape (u_heap ?s1))(b := None) = shape (u_heap s)" and flt: "fault (u_heap ?s1) = fault (u_heap s)"
    by (auto simp: delivered_def)
  have sp: "spin (Suc fuel) (\<lambda>s. desc_holder s \<noteq> NULLp) (uct_worker_progress api cfg (if_worker (l_info l))) s = Some ?s1"
    using ev idle b(1) by (simp add: uct_worker_progress_def uct_dispatch_all_def)
  have str: "c_string (Addr b 4) (u_heap ?s1) = (m, u_heap ?s1)"
    by (rule c_string_ok[where r = "[]", OF b(2)]) (use bs in \<open>simp_all add: held_desc_def\<close>)
  have sz: "size_t (arg_test_strlen (uc_args cfg)) = length bs" using bs(3) unfolding n by simp
  let ?p = "print_strings ''main'' (func_am_t_str ?f) (Addr b 4) (length bs) ?s1"
  have p: "u_heap ?p = u_heap ?s1" "u_out ?p = u_out ?s1 @ [Out_strings ''main'' (func_am_t_str ?f) (Some m) (length bs)]"
    using str bs(1) by (simp_all add: print_strings_def)
  let ?h = "(u_heap ?s1)\<lparr>blocks := (blocks (u_heap ?s1))(b := None)\<rparr>"
  from release_held[OF b(2)] have rl: "load cpu_kind (Addr b 0) 4 (u_heap ?s1) = (le_bytes 4 (if d then 1 else 0), u_heap ?s1)"
    "(if of_le (le_bytes 4 (if d then 1 else 0)) \<noteq> 0 then reclaim (Addr b 0) (u_heap ?s1) else c_free (Addr b 0) (u_heap ?s1)) = ?h"
    by blast+
  have "uct_server_recv (Suc fuel) api cfg l s = Some (?p\<lparr>u_heap := ?h\<rparr>)"
    unfolding uct_server_recv_def sp using b(1) sz p(1) rl by (simp add: ptr_add_def u_on_heap_def split: if_splits)
  then show ?thesis using b(3) flt p(2) out by (auto simp: shape_drop)
qed

section \<open>Zero-copy sends\<close>

lemma spin_arrives_uct:
  assumes "arrives (ut_progress api wk) k evs (u_world s) w'" "k < fuel"
    and "desc_holder s = NULLp" "desc_holder (uct_dispatch_all cfg evs (s\<lparr>u_world := w'\<rparr>)) \<noteq> NULLp"
  shows "spin fuel (\<lambda>s. desc_holder s \<noteq> NULLp) (uct_worker_progress api cfg wk) s = Some (uct_dispatch_all cfg evs (s\<lparr>u_world := w'\<rparr>))"
  using assms
proof (induction k arbitrary: fuel s)
  case 0
  then show ?case by (cases fuel) (auto simp: uct_worker_progress_def)
next
  case (Suc k)
  then obtain w1 where w1: "ut_progress api wk (u_world s) = ([], w1)" "arrives (ut_progress api wk) k evs w1 w'" by auto
  with Suc.IH[of "s\<lparr>u_world := w1\<rparr>" "fuel - 1"] Suc.prems show ?case
    by (cases fuel) (auto simp: uct_worker_progress_def uct_dispatch_all_def)
qed

text \<open>
  A send in progress whose completion comes with the \<open>j\<close>-th progress call after it (counted from 0, the
  first of which the send loop makes itself): the wait lasts until then, and the callback deregisters
  the buffer.
\<close>

lemma zcopy_completes:
  assumes sd: "ep_am_zcopy api cfg ep i buf len (Some mh) s = (UCS_INPROGRESS, s1)"
    and ar: "arrives (ut_progress api (if_worker info)) j [Ev_complete UCS_OK] (u_world s1) w'" and j: "0 < fuel" "j \<le> fuel"
    and s1: "desc_holder s1 = NULLp" "u_comp s1 = Some \<lparr>comp_count = 1, comp_status = UCS_OK, comp_md = md, comp_memh = Some mh\<rparr>"
  shows "\<exists>s'. zcopy_send fuel api cfg info ep i buf len (Some mh) s = Some (UCS_OK, s') \<and> u_world s' = w' \<and>
     u_trace s' = u_trace s1 @ [U_mem_dereg mh]"
proof -
  let ?ev = "[Ev_complete UCS_OK]"
  define d where "d = uct_dispatch_all cfg ?ev (s1\<lparr>u_world := w'\<rparr>)"
  have d: "desc_holder d \<noteq> NULLp" "u_world d = w'" "u_trace d = u_trace s1 @ [U_mem_dereg mh]"
    unfolding d_def using s1
    by (simp_all add: uct_dispatch_all_def complete_one_def zcopy_completion_cb_def u_log_def Let_def)
  show ?thesis
  proof (cases j)
    case 0
    then have "uct_worker_progress api cfg (if_worker info) s1 = d"
      using ar by (simp add: uct_worker_progress_def d_def)
    with sd j(1) d show ?thesis by (cases fuel) (auto simp: zcopy_send_def Let_def)
  next
    case (Suc k)
    then obtain w1 where w1: "ut_progress api (if_worker info) (u_world s1) = ([], w1)"
      "arrives (ut_progress api (if_worker info)) k ?ev w1 w'" using ar by auto
    have "spin fuel (\<lambda>s. desc_holder s \<noteq> NULLp) (uct_worker_progress api cfg (if_worker info)) (s1\<lparr>u_world := w1\<rparr>) =
        Some (uct_dispatch_all cfg ?ev ((s1\<lparr>u_world := w1\<rparr>)\<lparr>u_world := w'\<rparr>))"
      using w1(2) Suc j(2) s1(1) d(1) by (intro spin_arrives_uct) (simp_all add: d_def Suc_le_eq)
    then have "spin fuel (\<lambda>s. desc_holder s \<noteq> NULLp) (uct_worker_progress api cfg (if_worker info)) (s1\<lparr>u_world := w1\<rparr>) = Some d"
      by (simp add: d_def)
    moreover have "uct_worker_progress api cfg (if_worker info) s1 = s1\<lparr>u_world := w1\<rparr>"
      using w1(1) by (simp add: uct_worker_progress_def uct_dispatch_all_def)
    ultimately show ?thesis using sd j(1) d by (cases fuel) (auto simp: zcopy_send_def Let_def)
  qed
qed

section \<open>Address exchange\<close>

text \<open>
  The socket as a pair of byte streams: what is still to come and what has been sent. Blocking
  sends take everything, and a receive with \<open>MSG_WAITALL\<close> takes as much as it asks for.
\<close>

definition pipes :: "'w sock_api \<Rightarrow> int \<Rightarrow> ('w \<Rightarrow> byte list) \<Rightarrow> ('w \<Rightarrow> byte list) \<Rightarrow> bool" where
  "pipes so fd inq outq \<longleftrightarrow>
     (\<forall>bs w. \<exists>w'. so_send so fd bs w = (int (length bs), w') \<and> outq w' = outq w @ bs \<and> inq w' = inq w) \<and>
     (\<forall>n w. n \<le> length (inq w) \<longrightarrow> (\<exists>w'. so_recv so fd n w = (int n, take n (inq w), w') \<and>
        inq w' = drop n (inq w))) \<and>
     (\<forall>n w. outq (snd (snd (so_recv so fd n w))) = outq w)"

lemma pipes_send:
  assumes "pipes (ut_sock api) fd inq outq"
  shows "\<exists>w'. sock_send api fd bs s = (c_int (int (length bs)), s\<lparr>u_world := w'\<rparr>) \<and>
     outq w' = outq (u_world s) @ bs \<and> inq w' = inq (u_world s)"
proof -
  from assms obtain w' where "so_send (ut_sock api) fd bs (u_world s) = (int (length bs), w')"
    "outq w' = outq (u_world s) @ bs" "inq w' = inq (u_world s)" unfolding pipes_def by blast
  then show ?thesis by (intro exI[of _ w']) (simp add: sock_send_def)
qed

lemma pipes_recv:
  assumes "pipes (ut_sock api) fd inq outq" "inq (u_world s) = bs @ r"
  shows "\<exists>w'. sock_recv api fd (length bs) s = (c_int (int (length bs)), bs, s\<lparr>u_world := w'\<rparr>) \<and>
     inq w' = r \<and> outq w' = outq (u_world s)"
proof -
  have "length bs \<le> length (inq (u_world s))" using assms(2) by simp
  with assms(1) obtain w' where "so_recv (ut_sock api) fd (length bs) (u_world s) = (int (length bs), take (length bs) (inq (u_world s)), w')"
    "inq w' = drop (length bs) (inq (u_world s))" unfolding pipes_def by blast
  moreover from this assms(1) have "outq w' = outq (u_world s)" unfolding pipes_def by (metis snd_conv)
  ultimately show ?thesis using assms(2) by (intro exI[of _ w']) (simp add: sock_recv_def)
qed

lemma pipes_recv_out:
  assumes "pipes (ut_sock api) fd inq outq" "sock_recv api fd n s = (r, bs, s')"
  shows "outq (u_world s') = outq (u_world s)"
  using assms by (auto simp: sock_recv_def pipes_def split_beta Let_def)

text \<open>What \<open>sendrecv\<close> sends does not depend on what it receives.\<close>

lemma sendrecv_sends:
  assumes pp: "pipes (ut_sock api) fd inq outq"
    and own: "blocks (u_heap s) b = Some k" "cpu_kind (b_kind k)" "b_bytes k = mine"
    and sr: "sendrecv api fd (Addr b 0) (length mine) s = (ret, p, s')"
  shows "outq (u_world s') = outq (u_world s) @ enc_blob 8 mine"
proof -
  let ?n = "length mine"
  from pipes_send[OF pp, of "le_bytes 8 ?n" s] obtain w1 where
    1: "sock_send api fd (le_bytes 8 ?n) s = (8, s\<lparr>u_world := w1\<rparr>)" "outq w1 = outq (u_world s) @ le_bytes 8 ?n"
    by (auto simp del: le_bytes.simps)
  have ld: "load cpu_kind (Addr b 0) ?n (u_heap s) = (mine, u_heap s)" using own by (simp add: load_ok mem_simps)
  from pipes_send[OF pp, of mine "s\<lparr>u_world := w1\<rparr>"] obtain w2 where
    2: "sock_send api fd mine (s\<lparr>u_world := w1\<rparr>) = (c_int (int ?n), s\<lparr>u_world := w2\<rparr>)" "outq w2 = outq w1 @ mine" by auto
  obtain r3 bs3 s3 where 3: "sock_recv api fd 8 (s\<lparr>u_world := w2\<rparr>) = (r3, bs3, s3)" using prod_cases3 by blast
  let ?m = "of_le (splice 0 bs3 (replicate 8 0))"
  obtain q h where 4: "c_calloc ?m (u_heap s3) = (q, h)" by fastforce
  obtain r5 bs5 s5 where 5: "sock_recv api fd ?m (s3\<lparr>u_heap := h\<rparr>) = (r5, bs5, s5)" using prod_cases3 by blast
  have "outq (u_world s3) = outq w2" "outq (u_world s5) = outq w2" using pipes_recv_out[OF pp] 3 5 by fastforce+
  then have "outq (u_world s') = outq w2"
    using sr 1(1) 2(1) ld 3 4 5 unfolding sendrecv_def by (auto simp: u_on_heap_def Let_def split: if_splits)
  with 1(2) 2(2) show ?thesis by (simp add: enc_blob_def)
qed

lemma sendrecv_exchanges:
  assumes pp: "pipes (ut_sock api) fd inq outq"
    and own: "blocks (u_heap s) b = Some k" "cpu_kind (b_kind k)" "b_bytes k = mine" "length mine < 2 ^ 31"
    and peer: "inq (u_world s) = enc_blob 8 theirs @ r" "length theirs < 2 ^ 31"
    and mem: "\<not> oom (u_heap s) (attempts (u_heap s))"
  shows "\<exists>s'. sendrecv api fd (Addr b 0) (length mine) s = (0, Addr (next_blk (u_heap s)) 0, s') \<and>
     u_heap s' = grown MHost theirs (u_heap s) \<and>
     inq (u_world s') = r \<and> outq (u_world s') = outq (u_world s) @ enc_blob 8 mine"
proof -
  let ?n = "length mine" and ?m = "length theirs" and ?h = "u_heap s"
  from pipes_send[OF pp, of "le_bytes 8 ?n" s] obtain w1 where
    1: "sock_send api fd (le_bytes 8 ?n) s = (8, s\<lparr>u_world := w1\<rparr>)" "outq w1 = outq (u_world s) @ le_bytes 8 ?n"
      "inq w1 = inq (u_world s)" by (auto simp del: le_bytes.simps)
  have ld: "load cpu_kind (Addr b 0) ?n ?h = (mine, ?h)" using own by (simp add: load_ok mem_simps)
  from pipes_send[OF pp, of mine "s\<lparr>u_world := w1\<rparr>"] obtain w2 where
    2: "sock_send api fd mine (s\<lparr>u_world := w1\<rparr>) = (c_int (int ?n), s\<lparr>u_world := w2\<rparr>)"
      "outq w2 = outq w1 @ mine" "inq w2 = inq w1" by auto
  have "inq w2 = le_bytes 8 ?m @ (theirs @ r)" using 1(3) 2(3) peer(1) by (simp add: enc_blob_def)
  with pipes_recv[OF pp, of "s\<lparr>u_world := w2\<rparr>" "le_bytes 8 ?m" "theirs @ r"] obtain w3 where
    3: "sock_recv api fd 8 (s\<lparr>u_world := w2\<rparr>) = (8, le_bytes 8 ?m, s\<lparr>u_world := w3\<rparr>)"
      "inq w3 = theirs @ r" "outq w3 = outq w2" by auto
  have rl: "of_le (splice 0 (le_bytes 8 ?m) (replicate 8 0)) = ?m"
    using peer(2) by (simp add: splice_def of_le_le_bytes)
  let ?s3 = "s\<lparr>u_world := w3, u_heap := grown MHost (replicate ?m 0) ?h\<rparr>"
  from pipes_recv[OF pp, of ?s3 theirs r] 3(2) obtain w4 where
    4: "sock_recv api fd ?m ?s3 = (c_int (int ?m), theirs, ?s3\<lparr>u_world := w4\<rparr>)" "inq w4 = r" "outq w4 = outq w3" by auto
  have st: "store cpu_kind (Addr (next_blk ?h) 0) theirs (grown MHost (replicate ?m 0) ?h) = grown MHost theirs ?h"
    by (simp add: store_def access_def poke_def splice_all grown_def)
  have ov: "\<not> (2 ^ 64 - 1) div 2 < int ?m" using peer(2) by simp
  have "sendrecv api fd (Addr b 0) ?n s = (0, Addr (next_blk ?h) 0, ?s3\<lparr>u_world := w4, u_heap := grown MHost theirs ?h\<rparr>)"
    unfolding sendrecv_def 1(1) using ld 2(1) 3(1) rl ov mem 4(1) st
    by (simp add: c_calloc_cases u_on_heap_def)
  then show ?thesis using 1 2 3 4 by (auto simp: enc_blob_def)
qed

end
