(* ===== verification/Uct_Demo.thy ===== *)
theory Uct_Demo
  imports Uct_Receive
begin

text \<open>
  A concrete UCT library and socket, to which the theorems about the UCT program are applied: one
  component with one memory domain and one transport, a socket made of two byte queues, and a script
  of the callbacks each call of progress runs.
\<close>

record uct_world =
  wd_script :: "uct_event list list"
  wd_in :: "byte list"
  wd_out :: "byte list"
  wd_short :: "ucs_status list"

definition demo_sock :: "uct_world sock_api" where
  "demo_sock = \<lparr>
     so_getaddrinfo = (\<lambda>srv svc passive af w. (0, [\<lparr>ai_fam = AF_INET, ai_addr = [127, 0, 0, 1]\<rparr>], w)),
     so_socket = (\<lambda>a w. (3, w)), so_connect = (\<lambda>fd a w. (0, w)), so_setsockopt = (\<lambda>fd w. (0, w)),
     so_bind = (\<lambda>fd a w. (0, w)), so_listen = (\<lambda>fd n w. (0, w)), so_accept = (\<lambda>fd w. (4, w)),
     so_close = (\<lambda>fd w. w),
     so_send = (\<lambda>fd bs w. (int (length bs), w\<lparr>wd_out := wd_out w @ bs\<rparr>)),
     so_recv = (\<lambda>fd n w. (int n, take n (wd_in w), w\<lparr>wd_in := drop n (wd_in w)\<rparr>)),
     so_poll = (\<lambda>fd w. (1, w))\<rparr>"

definition demo_attr :: iface_attr where
  "demo_attr = \<lparr>cap_am_short = True, cap_am_bcopy = True, cap_am_zcopy = True, cap_connect_to_ep = False,
     cap_connect_to_iface = True, max_short = 64, max_bcopy = 64, max_zcopy = 64, device_addr_len = 2,
     iface_addr_len = 0, ep_addr_len = 2\<rparr>"

definition uct_demo :: "uct_world uct_api" where
  "uct_demo = \<lparr>
     ut_async_create = (\<lambda>w. (UCS_OK, 1, w)), ut_worker_create = (\<lambda>a w. (UCS_OK, 2, w)),
     ut_query_components = (\<lambda>w. (UCS_OK, [3], w)), ut_md_resource_count = (\<lambda>c w. (UCS_OK, 1, w)),
     ut_md_resources = (\<lambda>c w. (UCS_OK, \<lambda>_. ''md'', w)), ut_md_config_read = (\<lambda>c w. (UCS_OK, 4, w)),
     ut_md_open = (\<lambda>c nm cf w. (UCS_OK, 5, w)),
     ut_md_query = (\<lambda>md w. (UCS_OK, \<lparr>md_need_memh = True, md_reg_mem_types = (\<lambda>_. True)\<rparr>, w)),
     ut_query_tl = (\<lambda>md w. (UCS_OK, [\<lparr>res_tl_name = ''t'', res_dev_name = ''d''\<rparr>], w)),
     ut_iface_config_read = (\<lambda>md nm w. (UCS_OK, 6, w)),
     ut_iface_open = (\<lambda>md wk tln dv cf w. (UCS_OK, 7, w)), ut_progress_enable = (\<lambda>i w. w),
     ut_iface_query = (\<lambda>i w. (UCS_OK, demo_attr, w)), ut_set_am_handler = (\<lambda>i a w. (UCS_OK, w)),
     ut_get_device_address = (\<lambda>i w. (UCS_OK, [10, 11], w)), ut_get_address = (\<lambda>i w. (UCS_OK, [], w)),
     ut_is_reachable = (\<lambda>i a b w. (1, w)), ut_ep_create = (\<lambda>i a w. (UCS_OK, 8, w)),
     ut_ep_get_address = (\<lambda>e w. (UCS_OK, [12, 13], w)), ut_connect_to_ep = (\<lambda>e a b w. (UCS_OK, w)),
     ut_am_short = (\<lambda>e i hdr bs w. (case wd_short w of [] \<Rightarrow> (UCS_OK, [], w)
        | st # r \<Rightarrow> (st, [], w\<lparr>wd_short := r\<rparr>))),
     ut_bcopy_buffer = (\<lambda>e i w. (Inr (replicate 64 0), w)),
     ut_bcopy_send = (\<lambda>e i bs w. (int (length bs), [], w)),
     ut_am_zcopy = (\<lambda>e i bs mh w. (UCS_INPROGRESS, [], w)), ut_mem_reg = (\<lambda>md p n w. (UCS_OK, 9, w)),
     ut_progress = (\<lambda>wk w. (case wd_script w of [] \<Rightarrow> ([], w) | evs # r \<Rightarrow> (evs, w\<lparr>wd_script := r\<rparr>))),
     ut_sock = demo_sock\<rparr>"

lemmas demo_defs = uct_demo_def demo_sock_def demo_attr_def

definition demo_world :: "uct_event list list \<Rightarrow> byte list \<Rightarrow> ucs_status list \<Rightarrow> uct_world" where
  "demo_world script incoming sts = \<lparr>wd_script = script, wd_in = incoming, wd_out = [], wd_short = sts\<rparr>"

definition demo_uct :: "uct_event list list \<Rightarrow> byte list \<Rightarrow> ucs_status list \<Rightarrow> uct_world uct" where
  "demo_uct script incoming sts = uct_start (empty_heap (\<lambda>_. False) (\<lambda>_ _. 0)) (demo_world script incoming sts)"

definition demo_info :: iface_info where
  "demo_info = \<lparr>if_attr = demo_attr, if_iface = Some 7, if_md_attr = \<lparr>md_need_memh = True, md_reg_mem_types = (\<lambda>_. True)\<rparr>,
     if_md = 5, if_worker = 2\<rparr>"

definition demo_locals :: uct_locals where
  "demo_locals = \<lparr>l_async = 0, l_info = demo_info, l_own_dev = Wild, l_peer_dev = Wild, l_own_iface = Wild,
     l_peer_iface = Wild, l_own_ep = Wild, l_peer_ep = Wild, l_sock = 3, l_ep = 8\<rparr>"

definition demo_cfg :: "func_am \<Rightarrow> int \<Rightarrow> uct_config" where
  "demo_cfg f n = (uct_defaults False)\<lparr>uc_args := (uc_args (uct_defaults False))\<lparr>arg_func_am_type := f,
     arg_test_strlen := n, arg_server_name := Some ''h'', arg_dev_name := Some ''d'', arg_tl_name := Some ''t''\<rparr>\<rparr>"

lemma demo_pipes: "pipes demo_sock fd wd_in wd_out"
  by (simp add: pipes_def demo_sock_def)

section \<open>A run that never waits\<close>

definition returns :: "'a option \<Rightarrow> bool" where
  "returns m \<longleftrightarrow> m \<noteq> None"

lemma returns_Some: "returns (Some x)"
  by (simp add: returns_def)

lemma returns_bind: "returns m \<Longrightarrow> (\<And>x. returns (f x)) \<Longrightarrow> returns (m \<bind> f)"
  by (cases m) (simp_all add: returns_def)

lemma returns_if: "returns m \<Longrightarrow> returns n \<Longrightarrow> returns (if b then m else n)"
  by simp

lemma returns_prod: "(\<And>a b. returns (f a b)) \<Longrightarrow> returns (case p of (a, b) \<Rightarrow> f a b)"
  by (cases p) simp

lemma returns_prod_app: "(\<And>a b. returns (f a b c)) \<Longrightarrow> returns ((case p of (a, b) \<Rightarrow> f a b) c)"
  by (cases p) simp

lemmas returns_intros = returns_Some returns_bind returns_if returns_prod returns_prod_app

text \<open>The buffered client of the concrete library.\<close>

abbreviation bcopy_cfg :: "int \<Rightarrow> uct_config" where
  "bcopy_cfg n \<equiv> demo_cfg FUNC_AM_BCOPY n"

lemma bcopy_cfg_args: "arg_func_am_type (uc_args (bcopy_cfg n)) = FUNC_AM_BCOPY"
  "arg_server_name (uc_args (bcopy_cfg n)) = Some ''h''"
  by (simp_all add: demo_cfg_def)

lemma demo_barrier: "returns (uct_barrier (Suc k) uct_demo cfg l s)"
  by (simp add: returns_def uct_barrier_def barrier_def demo_defs Let_def)

lemma demo_bcopy: "returns (do_am_bcopy (Suc k) uct_demo cfg info ep i buf s)"
  by (simp add: returns_def do_am_bcopy_def ep_am_bcopy_def uct_demo_def am_bcopy_data_pack_cb_def lend_def Let_def)

lemma demo_client: "returns (uct_client_send (Suc k) uct_demo (bcopy_cfg n) l s)"
  unfolding uct_client_send_def Let_def bcopy_cfg_args func_am.case
  by (intro returns_intros demo_bcopy)

lemma demo_transfer: "returns (uct_transfer (Suc k) uct_demo (bcopy_cfg n) l st s)"
  unfolding uct_transfer_def Let_def bcopy_cfg_args option.case
  by (intro returns_intros demo_client demo_barrier)

lemma demo_connect: "returns (uct_connect (Suc k) uct_demo (bcopy_cfg n) l s)"
  unfolding uct_connect_def Let_def by (intro returns_intros demo_transfer demo_barrier)

lemma demo_reach: "returns (uct_reach (Suc k) uct_demo (bcopy_cfg n) l s)"
  unfolding uct_reach_def Let_def by (intro returns_intros demo_connect)

lemma demo_addresses: "returns (uct_device_address (Suc k) uct_demo (bcopy_cfg n) l s)"
  unfolding uct_device_address_def uct_iface_address_def Let_def by (intro returns_intros demo_reach)

abbreviation bcopy_argv :: "string list" where
  "bcopy_argv \<equiv> [''uct_hello_world'', ''-d'', ''d'', ''-t'', ''t'', ''-b'', ''-n'', ''h'']"

lemma bcopy_argv_cfg: "uct_parse_cmd False bcopy_argv = Inr (bcopy_cfg 16)"
  by code_simp

lemma demo_main: "\<exists>r s'. uct_main (Suc k) uct_demo False bcopy_argv l s = Some (r, s')"
proof -
  have "returns (uct_main (Suc k) uct_demo False bcopy_argv l s)"
    unfolding uct_main_def bcopy_argv_cfg sum.case uct_setup_def Let_def by (intro returns_intros demo_addresses)
  then show ?thesis by (auto simp: returns_def)
qed

end
