(* ===== verification/Uct_Properties.thy ===== *)
theory Uct_Properties
  imports Uct_Demo
begin

text \<open>The properties of \<open>uct_hello_world.c\<close> and of the socket helpers it uses.\<close>

section \<open>Ownership\<close>

text \<open>
  (C24) The handles a run of \<open>main\<close> acquires from UCT and the sockets: the async context, the worker, the
  component and resource lists, configurations, memory domains, interfaces, endpoints, memory
  registrations, the address list and sockets. Whatever UCT and the sockets do, a run that returns never
  releases such a handle that is not live and releases each exactly once, but for two cases: the
  registration of a zero-copy client, and the out-of-band socket when the library cannot give the
  device address. Heap memory and received messages are not counted here.
\<close>

theorem uct_main_releases:
  assumes "uct_parse_cmd hc argv = Inr cfg" "uct_main fuel api hc argv l s = Some (r, s')"
    and "u_trace s = []" "u_comp s = None"
  shows "\<exists>L. run_trace uct_acquires uct_releases {#} (u_trace s') = Some L \<and> explained api cfg L \<and>
     (arg_func_am_type (uc_args cfg) \<noteq> FUNC_AM_ZCOPY \<and> (\<forall>i w. fst (ut_get_device_address api i w) = UCS_OK) \<longrightarrow> L = {#})"
proof -
  from uct_main_settles[OF assms(1,4), of api fuel l] assms(2)
  obtain L where L: "explained api cfg L" "uct_triple {#} s s' L" unfolding settles_def by blast
  from L(2) assms(3) have "run_trace uct_acquires uct_releases {#} (u_trace s') = Some L"
    unfolding uct_triple_def by (auto dest: utr.triple_run)
  moreover have "L = {#}" if "arg_func_am_type (uc_args cfg) \<noteq> FUNC_AM_ZCOPY"
    "\<forall>i w. fst (ut_get_device_address api i w) = UCS_OK"
    using L(1) that by (cases L) (auto simp: explained_def)
  ultimately show ?thesis using L(1) by blast
qed

theorem uct_main_releases_witness:
  "\<exists>r s'. uct_main 1 uct_demo False bcopy_argv demo_locals (demo_uct [] [] []) = Some (r, s') \<and>
     run_trace uct_acquires uct_releases {#} (u_trace s') = Some {#}"
proof -
  obtain r s' where m: "uct_main 1 uct_demo False bcopy_argv demo_locals (demo_uct [] [] []) = Some (r, s')"
    using demo_main[of 0 demo_locals "demo_uct [] [] []"] by auto
  have "u_trace (demo_uct [] [] []) = []" "u_comp (demo_uct [] [] []) = None"
    by (simp_all add: demo_uct_def uct_start_def)
  from uct_main_releases[OF bcopy_argv_cfg m this] show ?thesis
    using m by (auto simp: bcopy_cfg_args uct_demo_def)
qed

text \<open>
  (C25) The search for a device and transport that succeeds leaves exactly one memory domain and one
  interface open, and that interface supports the requested kind of message and memory; one that
  fails leaves nothing open. The heap is never touched.
\<close>

theorem lookup_owns_what_it_finds:
  assumes "dev_tl_lookup api cfg p s = (st, p', s')"
    and "arg_dev_name (uc_args cfg) \<noteq> None" "arg_tl_name (uc_args cfg) \<noteq> None"
  shows "u_heap s' = u_heap s \<and> (\<exists>t. u_trace s' = u_trace s @ t \<and>
     (if st = UCS_OK
      then \<exists>i. if_iface p' = Some i \<and> usable cfg p' \<and>
             run_trace uct_acquires uct_releases {#} t = Some {#UR_iface i, UR_md (if_md p')#}
      else run_trace uct_acquires uct_releases {#} t = Some {#}))"
proof -
  have "named cfg" using assms(2,3) by (simp add: named_def)
  from dev_tl_lookup_outcome[OF assms(1) this, of "{#}"] show ?thesis
    by (cases "st = UCS_OK") (auto simp: untouched_def found_def uct_triple_def dest: utr.triple_run)
qed

theorem lookup_owns_what_it_finds_witness:
  "\<exists>s'. dev_tl_lookup uct_demo (bcopy_cfg 16) demo_info (demo_uct [] [] []) = (UCS_OK, demo_info, s') \<and>
     (\<exists>t. u_trace s' = t \<and> run_trace uct_acquires uct_releases {#} t = Some {#UR_iface 7, UR_md 5#})"
proof -
  obtain s' where l: "dev_tl_lookup uct_demo (bcopy_cfg 16) demo_info (demo_uct [] [] []) = (UCS_OK, demo_info, s')"
    by (simp add: dev_tl_lookup_def demo_defs demo_cfg_def uct_defaults_def names_match_def init_iface_def demo_info_def Let_def)
  from lookup_owns_what_it_finds[OF l] have "\<exists>t. u_trace s' = u_trace (demo_uct [] [] []) @ t \<and>
     run_trace uct_acquires uct_releases {#} t = Some {#UR_iface 7, UR_md 5#}"
    by (auto simp: demo_cfg_def demo_info_def)
  with l show ?thesis by (simp add: demo_uct_def uct_start_def)
qed

text \<open>
  (C30) The registration of a zero-copy send. When the operation stays in progress, \<open>do_am_zcopy\<close> returns
  only once its completion has come, however many progress calls \<open>j\<close> that takes, and the buffer is then
  deregistered; when the transport finishes it at once, the call returns success with the registration
  still live.
\<close>

theorem zcopy_registration:
  assumes "md_need_memh (if_md_attr info)" "arg_test_strlen (uc_args cfg) = int (length (b_bytes k))"
    and "length (b_bytes k) < 2 ^ 63" "blocks (u_heap s) b = Some k" "desc_holder s = NULLp"
    and "ut_mem_reg api (if_md info) (Addr b 0) (length (b_bytes k)) (u_world s) = (UCS_OK, mh, w1)"
    and "ut_am_zcopy api ep i (b_bytes k) (Some mh) w1 = (st, [], w2)"
    and "if st = UCS_INPROGRESS then arrives (ut_progress api (if_worker info)) j [Ev_complete UCS_OK] w2 w3
         else st = UCS_OK \<and> ut_progress api (if_worker info) w2 = ([], w3)"
    and "0 < fuel" "j \<le> fuel"
  shows "\<exists>s'. do_am_zcopy fuel api cfg info ep i (Addr b 0) s = Some (UCS_OK, s') \<and> u_world s' = w3 \<and>
     u_trace s' = u_trace s @ [U_mem_reg mh, U_am_zcopy ep i (b_bytes k) st] @ (if st = UCS_OK then [] else [U_mem_dereg mh])"
proof -
  have n: "size_t (arg_test_strlen (uc_args cfg)) = length (b_bytes k)" using assms(2,3) by simp
  have ld: "load any_kind (Addr b 0) (length (b_bytes k)) (u_heap s) = (b_bytes k, u_heap s)"
    using assms(4) by (simp add: load_ok mem_simps)
  let ?s0 = "(u_log (U_mem_reg mh) (s\<lparr>u_world := w1\<rparr>))\<lparr>u_comp := Some \<lparr>comp_count = 1, comp_status = UCS_OK,
      comp_md = if_md info, comp_memh = Some mh\<rparr>\<rparr>"
  let ?s1 = "u_log (U_am_zcopy ep i (b_bytes k) st) (?s0\<lparr>u_world := w2\<rparr>)"
  have sd: "ep_am_zcopy api cfg ep i (Addr b 0) (length (b_bytes k)) (Some mh) ?s0 = (st, ?s1)"
    using ld assms(7) by (simp add: ep_am_zcopy_def u_log_def uct_dispatch_all_def)
  have z: "\<exists>s'. zcopy_send fuel api cfg info ep i (Addr b 0) (length (b_bytes k)) (Some mh) ?s0 = Some (UCS_OK, s') \<and> u_world s' = w3 \<and>
     u_trace s' = u_trace ?s1 @ (if st = UCS_OK then [] else [U_mem_dereg mh])"
  proof (cases "st = UCS_INPROGRESS")
    case True
    from zcopy_completes[OF sd[unfolded True] _ assms(9,10), of info w3 "if_md info"] assms(5,8) True show ?thesis
      by (simp add: u_log_def)
  next
    case False
    with assms(8) have "uct_worker_progress api cfg (if_worker info) ?s1 = ?s1\<lparr>u_world := w3\<rparr>" "st = UCS_OK"
      by (simp_all add: uct_worker_progress_def uct_dispatch_all_def u_log_def)
    with sd assms(9) show ?thesis by (cases fuel) (auto simp: zcopy_send_def Let_def)
  qed
  have eq: "do_am_zcopy fuel api cfg info ep i (Addr b 0) s = do {
      (status, s) \<leftarrow> zcopy_send fuel api cfg info ep i (Addr b 0) (length (b_bytes k)) (Some mh) ?s0;
      Some (status, s\<lparr>u_comp := None\<rparr>) }"
    using assms(1,6) by (simp add: do_am_zcopy_def n u_log_if_def Let_def)
  from z show ?thesis unfolding eq by (auto simp: u_log_def)
qed

text \<open>A completion that comes with the third progress call.\<close>

theorem zcopy_registration_witness:
  "\<exists>s'. do_am_zcopy 2 uct_demo (demo_cfg FUNC_AM_ZCOPY 3) demo_info 8 0 (Addr 1 0)
       ((demo_uct [[], [], [Ev_complete UCS_OK]] [] [])\<lparr>u_heap := grown MHost [65, 66, 0] (empty_heap (\<lambda>_. False) (\<lambda>_ _. 0))\<rparr>)
     = Some (UCS_OK, s') \<and> u_trace s' = [U_mem_reg 9, U_am_zcopy 8 0 [65, 66, 0] UCS_INPROGRESS, U_mem_dereg 9] \<and>
     wd_script (u_world s') = []"
proof -
  let ?k = "\<lparr>b_kind = MHost, b_bytes = [65, 66, 0]\<rparr>"
  let ?w = "demo_world [[], [], [Ev_complete UCS_OK]] [] []"
  let ?s = "(demo_uct [[], [], [Ev_complete UCS_OK]] [] [])\<lparr>u_heap := grown MHost [65, 66, 0] (empty_heap (\<lambda>_. False) (\<lambda>_ _. 0))\<rparr>"
  have s: "blocks (u_heap ?s) 1 = Some ?k" "desc_holder ?s = NULLp" "u_trace ?s = []" "u_world ?s = ?w"
    by (simp_all add: demo_uct_def uct_start_def empty_heap_def)
  have ar: "arrives (ut_progress uct_demo (if_worker demo_info)) 2 [Ev_complete UCS_OK] ?w (demo_world [] [] [])"
    by (simp add: numeral_2_eq_2 uct_demo_def demo_world_def)
  have "\<exists>s'. do_am_zcopy 2 uct_demo (demo_cfg FUNC_AM_ZCOPY 3) demo_info 8 0 (Addr 1 0) ?s = Some (UCS_OK, s') \<and>
     u_world s' = demo_world [] [] [] \<and>
     u_trace s' = u_trace ?s @ [U_mem_reg 9, U_am_zcopy 8 0 (b_bytes ?k) UCS_INPROGRESS] @
       (if UCS_INPROGRESS = UCS_OK then [] else [U_mem_dereg 9])"
    by (rule zcopy_registration[where ?w1.0 = ?w and ?w2.0 = ?w and j = 2])
       (use s ar in \<open>simp_all add: demo_info_def demo_cfg_def uct_demo_def\<close>)
  then show ?thesis using s(3) by (auto simp: demo_world_def)
qed

section \<open>Messages\<close>

text \<open>
  (C26) Every attempt of the client to send, short, buffered or zero-copy, carries exactly the test
  string, whatever the library delivers in between, when no allocation fails. A short message is
  reassembled from its 8-byte header and its payload, and has to be at least 8 bytes long; the buffers
  the library offers for buffered sends have to be large enough.
\<close>

theorem client_sends_test_string:
  assumes "uct_client_send fuel api cfg l s = Some (r, s')"
    and "heap_wf (u_heap s)" "\<forall>i. \<not> oom (u_heap s) i" "type_ok (uc_mem cfg) (uc_cuda cfg)"
    and "arg_test_strlen (uc_args cfg) = int n" "0 < n" "n < 2 ^ 31"
    and "arg_func_am_type (uc_args cfg) = FUNC_AM_SHORT \<longrightarrow> 8 \<le> n \<and> uc_mem cfg \<noteq> UCS_MEMORY_TYPE_CUDA"
    and "\<forall>ep i w buf w'. ut_bcopy_buffer api ep i w = (Inr buf, w') \<longrightarrow> n \<le> length buf"
  shows "\<exists>t. u_trace s' = u_trace s @ t \<and>
     (\<forall>c\<in>set t. carried c = None \<or> carried c = Some (map test_char [0..<n - 1] @ [0]))"
  using uct_client_send_carries[of fuel api cfg l s r s' n] assms
  by (auto simp: carry_only_def test_pattern_def)

theorem client_sends_test_string_witness:
  "\<exists>r s' t. uct_client_send 1 uct_demo (bcopy_cfg 16) demo_locals (demo_uct [] [] []) = Some (r, s') \<and>
     u_trace s' = [] @ t \<and> (\<forall>c\<in>set t. carried c = None \<or> carried c = Some (map test_char [0..<15] @ [0]))"
proof -
  obtain r s' where c: "uct_client_send 1 uct_demo (bcopy_cfg 16) demo_locals (demo_uct [] [] []) = Some (r, s')"
    using demo_client[of 0 16 demo_locals "demo_uct [] [] []"] by (auto simp: returns_def)
  have "\<exists>t. u_trace s' = u_trace (demo_uct [] [] []) @ t \<and>
     (\<forall>c\<in>set t. carried c = None \<or> carried c = Some (map test_char [0..<16 - 1] @ [0]))"
    by (rule client_sends_test_string[OF c])
       (simp_all add: demo_uct_def uct_start_def demo_cfg_def uct_defaults_def empty_heap_def heap_wf_def uct_demo_def)
  with c show ?thesis by (simp add: demo_uct_def uct_start_def)
qed

text \<open>
  (C34) Packing a short message reads 8 bytes of the string whatever its length: it is within bounds
  exactly when the string has at least 8 bytes.
\<close>

theorem short_header_bounds:
  assumes "blocks h b = Some k" "cpu_kind (b_kind k)" "fault h = None"
  shows "(fault (snd (am_short_params_pack (Addr b 0) (length (b_bytes k)) h)) = None) = (8 \<le> length (b_bytes k))"
  using assms by (auto simp: am_short_params_pack_def load_def access_def raise_fault_def Let_def)

theorem short_header_bounds_witness:
  "fault (snd (am_short_params_pack (Addr 1 0) 3 (grown MHost [65, 66, 0] (empty_heap (\<lambda>_. False) (\<lambda>_ _. 0))))) \<noteq> None"
  using short_header_bounds[of "grown MHost [65, 66, 0] (empty_heap (\<lambda>_. False) (\<lambda>_ _. 0))" 1
      "\<lparr>b_kind = MHost, b_bytes = [65, 66, 0]\<rparr>"]
  by (simp add: empty_heap_def numeral_3_eq_3)

text \<open>
  (C31) A short send is retried exactly while the transport reports that it has no resource: it
  returns as soon as an attempt reports anything else, with that status, after attempts that all
  reported the lack of a resource.
\<close>

theorem short_send_terminates:
  fixes api :: "'w uct_api"
  assumes "am_short_params_pack buf (size_t (arg_test_strlen (uc_args cfg))) (u_heap s) = (a, h)"
    and "fst (short_turn api cfg (if_worker info) ep i a
           (((\<lambda>u. snd (short_turn api cfg (if_worker info) ep i a u)) ^^ k) (s\<lparr>u_heap := h\<rparr>))) \<noteq> UCS_ERR_NO_RESOURCE"
    and "k < fuel"
  shows "\<exists>st s' j. do_am_short fuel api cfg info ep i buf s = Some (st, s') \<and> st \<noteq> UCS_ERR_NO_RESOURCE \<and>
     short_statuses (u_trace s') = short_statuses (u_trace s) @ replicate j UCS_ERR_NO_RESOURCE @ [st]"
proof -
  have d: "do_am_short fuel api cfg info ep i buf s =
      poll_until fuel (short_turn api cfg (if_worker info) ep i a) (\<lambda>st. st = UCS_ERR_NO_RESOURCE) (s\<lparr>u_heap := h\<rparr>)"
    using assms(1) by (simp add: do_am_short_def)
  from poll_until_enough[of "\<lambda>st. st = UCS_ERR_NO_RESOURCE" "short_turn api cfg (if_worker info) ep i a", OF assms(2,3)]
  obtain st s' where p: "poll_until fuel (short_turn api cfg (if_worker info) ep i a)
      (\<lambda>st. st = UCS_ERR_NO_RESOURCE) (s\<lparr>u_heap := h\<rparr>) = Some (st, s')" by blast
  from short_loop_statuses[OF p] poll_until_Some_stop[OF p] show ?thesis unfolding d p by auto
qed

theorem short_send_terminates_witness:
  "\<exists>st s' j. do_am_short 2 uct_demo (demo_cfg FUNC_AM_SHORT 10) demo_info 8 0 (Addr 1 0)
       ((demo_uct [] [] [UCS_ERR_NO_RESOURCE])\<lparr>u_heap := grown MHost (replicate 10 65) (empty_heap (\<lambda>_. False) (\<lambda>_ _. 0))\<rparr>) = Some (st, s') \<and>
     st \<noteq> UCS_ERR_NO_RESOURCE \<and> short_statuses (u_trace s') = [] @ replicate j UCS_ERR_NO_RESOURCE @ [st]"
proof -
  let ?s = "(demo_uct [] [] [UCS_ERR_NO_RESOURCE])\<lparr>u_heap := grown MHost (replicate 10 65) (empty_heap (\<lambda>_. False) (\<lambda>_ _. 0))\<rparr>"
  obtain a h where p: "am_short_params_pack (Addr 1 0) (size_t (arg_test_strlen (uc_args (demo_cfg FUNC_AM_SHORT 10)))) (u_heap ?s) = (a, h)"
    by fastforce
  have "fst (short_turn uct_demo (demo_cfg FUNC_AM_SHORT 10) (if_worker demo_info) 8 0 a
           (((\<lambda>u. snd (short_turn uct_demo (demo_cfg FUNC_AM_SHORT 10) (if_worker demo_info) 8 0 a u)) ^^ 1) (?s\<lparr>u_heap := h\<rparr>))) \<noteq> UCS_ERR_NO_RESOURCE"
    by (simp add: ep_am_short_def uct_worker_progress_def uct_dispatch_all_def demo_uct_def uct_start_def demo_world_def
        uct_demo_def u_log_def Let_def split_beta)
  from short_send_terminates[OF p this, of 2] show ?thesis
    by (simp add: demo_uct_def uct_start_def short_statuses_def)
qed

text \<open>
  (C27) A delivered message is printed by the callback and by the server, and its descriptor goes
  back to where it came from: to the library when the library lent it, to \<open>free\<close> when the callback
  copied it. No block is left over and no invalid access or release happens.
\<close>

theorem received_message_is_released:
  assumes "ut_progress api (if_worker (l_info l)) (u_world s) = ([Ev_am (m @ [0]) d], w)" "desc_holder s = NULLp"
    and "heap_wf (u_heap s)" "\<not> oom (u_heap s) (attempts (u_heap s))" "0 \<notin> set m" "length m < 2 ^ 63"
    and "arg_test_strlen (uc_args cfg) = int (length m + 1)"
  shows "\<exists>s'. uct_server_recv (Suc fuel) api cfg l s = Some s' \<and> shape (u_heap s') = shape (u_heap s) \<and>
     fault (u_heap s') = fault (u_heap s) \<and>
     u_out s' = u_out s @ [Out_strings ''callback'' (func_am_t_str (arg_func_am_type (uc_args cfg))) (Some m) (length m + 1),
                           Out_strings ''main'' (func_am_t_str (arg_func_am_type (uc_args cfg))) (Some m) (length m + 1)]"
  using uct_server_recv_once[OF assms(1-4) refl assms(5), of cfg fuel] assms(6,7) by simp

theorem received_message_is_released_witness:
  "\<exists>s'. uct_server_recv 1 uct_demo (demo_cfg FUNC_AM_SHORT 3) demo_locals (demo_uct [[Ev_am ([65, 66] @ [0]) True]] [] []) = Some s' \<and>
     shape (u_heap s') = (\<lambda>_. None) \<and> fault (u_heap s') = None \<and>
     u_out s' = [Out_strings ''callback'' ''uct_ep_am_short'' (Some [65, 66]) 3,
                 Out_strings ''main'' ''uct_ep_am_short'' (Some [65, 66]) 3]"
proof -
  let ?s = "demo_uct [[Ev_am ([65, 66] @ [0]) True]] [] []"
  have pr: "ut_progress uct_demo (if_worker (l_info demo_locals)) (u_world ?s) = ([Ev_am ([65, 66] @ [0]) True], demo_world [] [] [])"
    by (simp add: uct_demo_def demo_uct_def uct_start_def demo_world_def)
  have s: "desc_holder ?s = NULLp" "heap_wf (u_heap ?s)" "\<not> oom (u_heap ?s) (attempts (u_heap ?s))"
    "shape (u_heap ?s) = (\<lambda>_. None)" "fault (u_heap ?s) = None" "u_out ?s = []"
    by (simp_all add: demo_uct_def uct_start_def empty_heap_def heap_wf_def shape_def fun_eq_iff)
  have c: "arg_test_strlen (uc_args (demo_cfg FUNC_AM_SHORT 3)) = int (length [65 :: byte, 66] + 1)"
    "func_am_t_str (arg_func_am_type (uc_args (demo_cfg FUNC_AM_SHORT 3))) = ''uct_ep_am_short''"
    by (simp_all add: demo_cfg_def func_am_t_str_def)
  from received_message_is_released[OF pr s(1-3) _ _ c(1), of 0] s(4-6) c(2) show ?thesis by (simp add: numeral_3_eq_3)
qed

text \<open>
  (C28) The test string from end to end, for a client (which names a server) and a server (which does
  not) that agree on the kind of message and the string length, at least 8 for a short message: if the
  library delivers to the server what one of the client's sends carried, the server prints the client's
  string, in the callback and in \<open>main\<close>, and gives the message back to where it came from; nothing is
  leaked and nothing undefined happens.
\<close>

theorem test_string_arrives:
  assumes "uct_client_send fuel api cfg l c = Some (r, c')" "u_trace c' = u_trace c @ t" "x \<in> set t" "carried x = Some bs"
    and "heap_wf (u_heap c)" "\<forall>i. \<not> oom (u_heap c) i" "type_ok (uc_mem cfg) (uc_cuda cfg)"
    and "arg_test_strlen (uc_args cfg) = int n" "0 < n" "n < 2 ^ 31"
    and "arg_func_am_type (uc_args cfg) = FUNC_AM_SHORT \<longrightarrow> 8 \<le> n \<and> uc_mem cfg \<noteq> UCS_MEMORY_TYPE_CUDA"
    and "\<forall>ep i w buf w'. ut_bcopy_buffer api ep i w = (Inr buf, w') \<longrightarrow> n \<le> length buf"
    and "ut_progress srv (if_worker (l_info ls)) (u_world s) = ([Ev_am bs d], w)" "desc_holder s = NULLp"
    and "heap_wf (u_heap s)" "\<not> oom (u_heap s) (attempts (u_heap s))"
    and "arg_server_name (uc_args cfg) \<noteq> None" "arg_server_name (uc_args scfg) = None"
    and "arg_func_am_type (uc_args scfg) = arg_func_am_type (uc_args cfg)" "arg_test_strlen (uc_args scfg) = arg_test_strlen (uc_args cfg)"
  shows "\<exists>s'. uct_server_recv (Suc k) srv scfg ls s = Some s' \<and> shape (u_heap s') = shape (u_heap s) \<and>
     fault (u_heap s') = fault (u_heap s) \<and>
     u_out s' = u_out s @ map (\<lambda>who. Out_strings who (func_am_t_str (arg_func_am_type (uc_args cfg)))
       (Some (map test_char [0..<n - 1])) n) [''callback'', ''main'']"
proof -
  from uct_client_send_carries[OF assms(1,5-10)] assms(11,12) obtain t' where
    "u_trace c' = u_trace c @ t'" "carry_only (test_pattern n 0) t'" by blast
  with assms(2-4) have bs: "bs = map test_char [0..<n - 1] @ [0]" by (auto simp: carry_only_def test_pattern_def)
  then have n: "length bs = n" using assms(9) by simp
  have "0 \<notin> set (map test_char [0..<n - 1])" using test_char_nonzero by (auto dest: sym)
  from uct_server_recv_once[OF assms(13-16) bs this, of scfg k] n assms(8,10,19,20) show ?thesis by simp
qed

lemma demo_carried:
  "map_option (\<lambda>(r, s). map carried (u_trace s)) (uct_client_send 1 uct_demo (bcopy_cfg 3) demo_locals (demo_uct [] [] []))
     = Some [Some [65, 66, 0]]"
  by code_simp

text \<open>The configuration of a server that matches the client's: the same options, but no server name.\<close>

definition bcopy_server_cfg :: "int \<Rightarrow> uct_config" where
  "bcopy_server_cfg n = (bcopy_cfg n)\<lparr>uc_args := (uc_args (bcopy_cfg n))\<lparr>arg_server_name := None\<rparr>\<rparr>"

theorem test_string_arrives_witness:
  "\<exists>s'. uct_server_recv 1 uct_demo (bcopy_server_cfg 3) demo_locals (demo_uct [[Ev_am [65, 66, 0] False]] [] []) = Some s' \<and>
     shape (u_heap s') = (\<lambda>_. None) \<and> fault (u_heap s') = None \<and>
     u_out s' = [Out_strings ''callback'' ''uct_ep_am_bcopy'' (Some [65, 66]) 3,
                 Out_strings ''main'' ''uct_ep_am_bcopy'' (Some [65, 66]) 3]"
proof -
  let ?c = "demo_uct [] [] []" and ?s = "demo_uct [[Ev_am [65, 66, 0] False]] [] []"
  from demo_carried obtain r c' where c: "uct_client_send 1 uct_demo (bcopy_cfg 3) demo_locals ?c = Some (r, c')"
    and t: "map carried (u_trace c') = [Some [65, 66, 0]]" by auto
  from t obtain x where x: "u_trace c' = u_trace ?c @ [x]" "x \<in> set [x]" "carried x = Some [65, 66, 0]"
    by (auto simp: demo_uct_def uct_start_def)
  have s: "ut_progress uct_demo (if_worker (l_info demo_locals)) (u_world ?s) = ([Ev_am [65, 66, 0] False], demo_world [] [] [])"
    "shape (u_heap ?s) = (\<lambda>_. None)" "fault (u_heap ?s) = None" "u_out ?s = []"
    by (simp_all add: uct_demo_def demo_uct_def uct_start_def demo_world_def empty_heap_def shape_def fun_eq_iff)
  have "\<exists>s'. uct_server_recv (Suc 0) uct_demo (bcopy_server_cfg 3) demo_locals ?s = Some s' \<and> shape (u_heap s') = shape (u_heap ?s) \<and>
     fault (u_heap s') = fault (u_heap ?s) \<and>
     u_out s' = u_out ?s @ map (\<lambda>who. Out_strings who (func_am_t_str (arg_func_am_type (uc_args (bcopy_cfg 3))))
       (Some (map test_char [0..<3 - 1])) 3) [''callback'', ''main'']"
    by (rule test_string_arrives[OF c x _ _ _ _ _ _ _ _ s(1)])
       (simp_all add: demo_uct_def uct_start_def demo_cfg_def uct_defaults_def empty_heap_def heap_wf_def uct_demo_def bcopy_server_cfg_def)
  moreover have "map test_char [0..<3 - 1] = [65, 66]" by code_simp
  moreover have "func_am_t_str (arg_func_am_type (uc_args (bcopy_cfg 3))) = ''uct_ep_am_bcopy''"
    by (simp add: bcopy_cfg_args func_am_t_str_def)
  ultimately show ?thesis using s(2-4) by auto
qed

section \<open>Sockets\<close>

text \<open>
  (C29) The two ends of a connection, each calling \<open>sendrecv\<close> on its own address: when what each end has
  to read starts with what the call at the other end sends, both calls return 0, each with a fresh
  buffer that holds exactly the other's address, and each leaves the rest of its stream untouched.
\<close>

theorem addresses_are_exchanged:
  assumes "pipes (ut_sock api) fd inq outq" "pipes (ut_sock api') fd' inq' outq'"
    and "blocks (u_heap a) ba = Some ka" "cpu_kind (b_kind ka)" "length (b_bytes ka) < 2 ^ 31" "\<not> oom (u_heap a) (attempts (u_heap a))"
    and "blocks (u_heap b) bb = Some kb" "cpu_kind (b_kind kb)" "length (b_bytes kb) < 2 ^ 31" "\<not> oom (u_heap b) (attempts (u_heap b))"
    and "sendrecv api fd (Addr ba 0) (length (b_bytes ka)) a = (ra, pa, a')" "outq (u_world a') = outq (u_world a) @ sent"
    and "sendrecv api' fd' (Addr bb 0) (length (b_bytes kb)) b = (rb, pb, b')" "outq' (u_world b') = outq' (u_world b) @ sent'"
    and "inq (u_world a) = sent' @ uu" "inq' (u_world b) = sent @ uu'"
  shows "ra = 0 \<and> pa = Addr (next_blk (u_heap a)) 0 \<and> u_heap a' = grown MHost (b_bytes kb) (u_heap a) \<and> inq (u_world a') = uu \<and>
     rb = 0 \<and> pb = Addr (next_blk (u_heap b)) 0 \<and> u_heap b' = grown MHost (b_bytes ka) (u_heap b) \<and> inq' (u_world b') = uu'"
proof -
  have "sent = enc_blob 8 (b_bytes ka)" "sent' = enc_blob 8 (b_bytes kb)"
    using sendrecv_sends[OF assms(1,3,4) refl assms(11)] sendrecv_sends[OF assms(2,7,8) refl assms(13)] assms(12,14) by simp_all
  with sendrecv_exchanges[OF assms(1,3,4) refl assms(5) _ assms(9,6)] sendrecv_exchanges[OF assms(2,7,8) refl assms(9) _ assms(5,10)]
    assms(11,13,15,16) show ?thesis by auto
qed

theorem addresses_are_exchanged_witness:
  "\<exists>a' b'. sendrecv uct_demo 3 (Addr 1 0) (length [10 :: byte, 11]) ((demo_uct [] (enc_blob 8 [20, 21, 22] @ [9]) [])
        \<lparr>u_heap := grown MHost [10, 11] (empty_heap (\<lambda>_. False) (\<lambda>_ _. 0))\<rparr>) = (0, Addr 2 0, a') \<and> wd_in (u_world a') = [9] \<and>
     sendrecv uct_demo 4 (Addr 1 0) (length [20 :: byte, 21, 22]) ((demo_uct [] (enc_blob 8 [10, 11] @ []) [])
        \<lparr>u_heap := grown MHost [20, 21, 22] (empty_heap (\<lambda>_. False) (\<lambda>_ _. 0))\<rparr>) = (0, Addr 2 0, b') \<and> wd_in (u_world b') = []"
proof -
  let ?h = "\<lambda>bs. grown MHost bs (empty_heap (\<lambda>_. False) (\<lambda>_ _. 0))"
  let ?k = "\<lambda>bs. \<lparr>b_kind = MHost, b_bytes = bs\<rparr>"
  let ?a = "(demo_uct [] (enc_blob 8 [20, 21, 22] @ [9]) [])\<lparr>u_heap := ?h [10, 11]\<rparr>"
  let ?b = "(demo_uct [] (enc_blob 8 [10, 11] @ []) [])\<lparr>u_heap := ?h [20, 21, 22]\<rparr>"
  have so: "pipes (ut_sock uct_demo) fd wd_in wd_out" for fd using demo_pipes[of fd] by (simp add: uct_demo_def)
  have h: "blocks (u_heap ?a) 1 = Some (?k [10, 11])" "\<not> oom (u_heap ?a) (attempts (u_heap ?a))"
    "blocks (u_heap ?b) 1 = Some (?k [20, 21, 22])" "\<not> oom (u_heap ?b) (attempts (u_heap ?b))"
    "next_blk (u_heap ?a) = 2" "next_blk (u_heap ?b) = 2" "wd_out (u_world ?a) = []" "wd_out (u_world ?b) = []"
    "wd_in (u_world ?a) = enc_blob 8 [20, 21, 22] @ [9]" "wd_in (u_world ?b) = enc_blob 8 [10, 11] @ []"
    by (simp_all add: demo_uct_def uct_start_def demo_world_def empty_heap_def)
  obtain ra pa a' where a: "sendrecv uct_demo 3 (Addr 1 0) (length [10 :: byte, 11]) ?a = (ra, pa, a')" using prod_cases3 by blast
  obtain rb pb b' where b: "sendrecv uct_demo 4 (Addr 1 0) (length [20 :: byte, 21, 22]) ?b = (rb, pb, b')" using prod_cases3 by blast
  have "wd_out (u_world a') = wd_out (u_world ?a) @ enc_blob 8 [10, 11]"
    by (rule sendrecv_sends[OF so h(1) _ _ a]) simp_all
  moreover have "wd_out (u_world b') = wd_out (u_world ?b) @ enc_blob 8 [20, 21, 22]"
    by (rule sendrecv_sends[OF so h(3) _ _ b]) simp_all
  ultimately have "ra = 0 \<and> pa = Addr (next_blk (u_heap ?a)) 0 \<and> u_heap a' = grown MHost (b_bytes (?k [20, 21, 22])) (u_heap ?a) \<and>
     wd_in (u_world a') = [9] \<and>
     rb = 0 \<and> pb = Addr (next_blk (u_heap ?b)) 0 \<and> u_heap b' = grown MHost (b_bytes (?k [10, 11])) (u_heap ?b) \<and> wd_in (u_world b') = []"
    using a b h by (intro addresses_are_exchanged[where ka = "?k [10, 11]" and kb = "?k [20, 21, 22]", OF so so h(1) _ _ h(2) h(3) _ _ h(4)]) simp_all
  then show ?thesis using a b unfolding h(5,6) by auto
qed

text \<open>
  (C33) \<open>connect_common\<close> leaves exactly the socket it returns open: every other socket it opened is
  closed and the address list is released, on success and on every failure.
\<close>

theorem connect_common_owns_its_result:
  "case connect_common api server port af w of (fd, calls, w') \<Rightarrow>
     run_trace sock_acquires sock_releases {#} calls = Some (if fd \<ge> 0 then {#SR_fd fd#} else {#})"
proof -
  obtain fd calls w' where c: "connect_common api server port af w = (fd, calls, w')" using prod_cases3 by blast
  from sor.triple_run[OF connect_common_owns[OF c, of "{#}"]] c show ?thesis by (simp add: fd_res_def)
qed

text \<open>
  (C32) The barrier polls the socket until it is readable and runs the progress callback after every
  poll, the last one included: if poll reports the peer's byte at the \<open>k\<close>-th turn or earlier, the barrier
  returns, it has made exactly the turns up to the first such report, and it receives in the state they
  leave. It reports success exactly when 4 bytes arrive.
\<close>

theorem barrier_terminates:
  assumes "so_send api fd [0, 0, 0, 0] (get s) = (n, w)" "0 \<le> n"
    and "fst (so_poll api fd (get ((barrier_turn api get put fd cb ^^ k) (put w s)))) = 1" "k < fuel"
  shows "\<exists>j\<le>k. (\<forall>i<j. fst (so_poll api fd (get ((barrier_turn api get put fd cb ^^ i) (put w s)))) \<noteq> 1) \<and>
     fst (so_poll api fd (get ((barrier_turn api get put fd cb ^^ j) (put w s)))) = 1 \<and>
     (\<exists>u res bs w'. u = (barrier_turn api get put fd cb ^^ Suc j) (put w s) \<and> so_recv api fd 4 (get u) = (res, bs, w') \<and>
        barrier fuel api get put fd cb s = Some (if res = 4 then 0 else 1, put w' u))"
  by (rule barrier_returns[OF assms])

text \<open>A socket that becomes readable with the third poll; the state counts the callbacks.\<close>

definition slow_sock :: "nat sock_api" where
  "slow_sock = \<lparr>
     so_getaddrinfo = (\<lambda>srv svc passive af w. (1, [], w)), so_socket = (\<lambda>a w. (3, w)), so_connect = (\<lambda>fd a w. (0, w)),
     so_setsockopt = (\<lambda>fd w. (0, w)), so_bind = (\<lambda>fd a w. (0, w)), so_listen = (\<lambda>fd n w. (0, w)),
     so_accept = (\<lambda>fd w. (4, w)), so_close = (\<lambda>fd w. w), so_send = (\<lambda>fd bs w. (int (length bs), w)),
     so_recv = (\<lambda>fd n w. (int n, replicate n 0, w)), so_poll = (\<lambda>fd w. (if w = 2 then 1 else 0, Suc w))\<rparr>"

theorem barrier_terminates_witness:
  "\<exists>j\<le>2. barrier 3 slow_sock fst (\<lambda>w s. (w, snd s)) 3 (\<lambda>(w, n). (w, n + 1)) (0, 0 :: nat) = Some (0, (Suc j, Suc j))"
proof -
  let ?put = "\<lambda>w (s :: nat \<times> nat). (w, snd s)" and ?cb = "\<lambda>(w :: nat, n :: nat). (w, n + 1)"
  have t: "(barrier_turn slow_sock fst ?put 3 ?cb ^^ i) (0, 0) = (i, i)" for i
    by (induction i) (simp_all add: barrier_turn_def slow_sock_def)
  have "fst (so_poll slow_sock 3 (fst ((barrier_turn slow_sock fst ?put 3 ?cb ^^ 2) (?put 0 (0, 0))))) = 1"
    unfolding t snd_conv by (simp add: slow_sock_def)
  from barrier_terminates[of slow_sock 3 fst "(0, 0)" 4 0 2 ?put ?cb 3, OF _ _ this] obtain j where
    "j \<le> 2" "\<exists>u res bs w'. u = (barrier_turn slow_sock fst ?put 3 ?cb ^^ Suc j) (?put 0 (0, 0)) \<and>
      so_recv slow_sock 3 4 (fst u) = (res, bs, w') \<and>
      barrier 3 slow_sock fst ?put 3 ?cb (0, 0) = Some (if res = 4 then 0 else 1, ?put w' u)"
    by (auto simp: slow_sock_def)
  then show ?thesis unfolding snd_conv t by (intro exI[of _ j]) (auto simp: slow_sock_def)
qed

section \<open>Command line and exit status\<close>

text \<open>
  An accepted command line has a device and a transport, a port other than 0, a string length
  that is a non-negative \<open>long\<close>, an address family, and a memory type that was recognised.
\<close>

lemma uct_accepted_settings:
  assumes "uct_parse_cmd hc argv = Inr cfg"
  shows "(\<exists>d t. arg_dev_name (uc_args cfg) = Some d \<and> arg_tl_name (uc_args cfg) = Some t) \<and> uct_settings_ok hc cfg"
proof -
  from assms have l: "uct_parse_loop (fst (getopt (opt_spec ''6ibzd:t:n:p:s:m:h'') (drop 1 argv))) (uct_defaults hc) = Inr cfg"
    and nm: "arg_dev_name (uc_args cfg) \<noteq> None" "arg_tl_name (uc_args cfg) \<noteq> None"
    by (auto simp: uct_parse_cmd_def split: sum.splits if_splits)
  have "uct_settings_ok hc (uct_defaults hc)" by (simp add: uct_settings_ok_def uct_defaults_def)
  from uto.loop_ok[OF l this] nm show ?thesis by auto
qed

text \<open>
  The option \<open>-p\<close> keeps the low 16 bits of the number and refuses it only when those are 0:
  numbers outside the range of ports are accepted and mean another port.
\<close>

lemma uct_port_wraps:
  "case uct_parse_opt (CHR ''p'') a cfg of
     Inl ret \<Rightarrow> ret = UCS_ERR_UNSUPPORTED \<and> atoi a mod 2 ^ 16 = 0
   | Inr cfg' \<Rightarrow> atoi a mod 2 ^ 16 \<noteq> 0 \<and> uint (arg_server_port (uc_args cfg')) = atoi a mod 2 ^ 16"
proof -
  have u: "uint (word_of_int (atoi a) :: u16) = atoi a mod 2 ^ 16" by (simp add: uint_word_of_int)
  have z: "(word_of_int (atoi a) :: u16) \<le> 0 \<longleftrightarrow> atoi a mod 2 ^ 16 = 0"
    using u by (metis uint_0_iff word_le_0_iff)
  show ?thesis using u z by (auto simp: uct_parse_opt_def Let_def)
qed

text \<open>
  A peer that cannot be reached ends the program with exit status 0: the failure is reported
  in the status variable as \<open>UCS_OK\<close>.
\<close>

lemma unreachable_peer_exits_0:
  assumes "fst (ut_is_reachable api (the_iface l) (addr_of (l_peer_dev l) s) (addr_of (l_peer_iface l) s) (u_world s)) = 0"
  shows "\<exists>s'. uct_reach fuel api cfg l s = Some (0, s')"
  using assms
  by (auto simp: uct_reach_def Let_def split_beta out_close_oob_sock_def out_free_if_addrs_def out_free_dev_addrs_def
      out_destroy_iface_def out_destroy_worker_def out_cleanup_async_def main_out_def)

end
