(* ===== verification/Ucp_Hello.thy ===== *)
theory Ucp_Hello
  imports Uct_Receive
begin

text \<open>
  \<open>ucp_hello_world.c\<close> and the socket helpers of its \<open>hello_world_util.h\<close>. The UCP library is the
  record \<open>ucph_api\<close> of functions over its own state \<open>'w\<close>; a call yields its result and the list of
  things the library does before it returns: bytes it writes and callbacks it runs, which
  \<open>h_dispatch\<close> runs. The static variables and the application's part of the request objects
  (\<open>struct ucx_context\<close>) are in the state; \<open>h_ctx\<close> is the local variable \<open>ctx\<close> whose address is given
  to the library. \<open>fuel\<close> bounds every polling loop. A failed \<open>assert\<close> ends the process: it is a fault.
\<close>

section \<open>Data\<close>

text \<open>What the library does: write received bytes, initialise a request, run a callback.\<close>

datatype hev = Hev_write ptr "byte list" | Hev_request_init nat | Hev_send ucs_status
  | Hev_recv nat ucs_status nat | Hev_flush

datatype hello_call = H_config_read nat | H_config_release nat | H_init nat | H_cleanup nat
  | H_worker_create nat | H_worker_destroy nat | H_get_address | H_release_address
  | H_ep_create nat "byte list" | H_ep_destroy nat | H_send nat "byte list" u64 ucs_ptr
  | H_recv nat ucs_ptr | H_flush nat ucs_ptr | H_request_release nat | H_sock sock_call

datatype hello_out = Out_send_handler ucs_status | Out_recv_handler ucs_status nat | Out_text "byte list"
  | Out_flush ucs_status | Out_usage | Out_received | Out_scheduled

record 'w hello =
  h_heap :: heap
  h_req :: "nat \<Rightarrow> bool option"
  h_ctx :: "bool option"
  local_addr :: ptr
  local_addr_len :: nat
  peer_addr :: ptr
  peer_addr_len :: nat
  h_trace :: "hello_call list"
  h_out :: "hello_out list"
  h_world :: 'w

record hostent =
  h_addrtype :: sa_family
  h_addr_list :: "byte list list option"

record 'w ucph_api =
  hp_config_read :: "'w \<Rightarrow> ucs_status \<times> nat \<times> 'w"
  hp_init :: "nat \<Rightarrow> 'w \<Rightarrow> ucs_status \<times> nat \<times> 'w"
  hp_worker_create :: "nat \<Rightarrow> 'w \<Rightarrow> ucs_status \<times> nat \<times> 'w"
  hp_get_address :: "nat \<Rightarrow> 'w \<Rightarrow> ucs_status \<times> byte list \<times> 'w"
  hp_ep_create :: "nat \<Rightarrow> byte list \<Rightarrow> 'w \<Rightarrow> ucs_status \<times> nat \<times> 'w"
  hp_tag_send :: "nat \<Rightarrow> byte list \<Rightarrow> u64 \<Rightarrow> 'w \<Rightarrow> ucs_ptr \<times> hev list \<times> 'w"
  hp_probe :: "nat \<Rightarrow> u64 \<Rightarrow> u64 \<Rightarrow> 'w \<Rightarrow> (nat \<times> nat) option \<times> 'w"
  hp_progress :: "nat \<Rightarrow> 'w \<Rightarrow> hev list \<times> 'w"
  hp_msg_recv :: "nat \<Rightarrow> ptr \<Rightarrow> nat \<Rightarrow> nat \<Rightarrow> 'w \<Rightarrow> ucs_ptr \<times> hev list \<times> 'w"
  hp_flush :: "nat \<Rightarrow> 'w \<Rightarrow> ucs_ptr \<times> hev list \<times> 'w"
  hp_check_status :: "nat \<Rightarrow> 'w \<Rightarrow> ucs_status \<times> 'w"
  hp_gethostbyname :: "string \<Rightarrow> 'w \<Rightarrow> hostent option \<times> 'w"
  hp_sock :: "'w sock_api"

abbreviation (input) hello_tag :: u64 where "hello_tag \<equiv> 0x1337a880"
abbreviation (input) hello_tag_mask :: u64 where "hello_tag_mask \<equiv> -1"
abbreviation (input) hello_port :: u16 where "hello_port \<equiv> 13337"
abbreviation (input) hello_strlen :: nat where "hello_strlen \<equiv> 16"

text \<open>\<open>sizeof (struct msg)\<close>\<close>

abbreviation (input) msg_size :: nat where "msg_size \<equiv> 8"

definition h_log :: "hello_call \<Rightarrow> 'w hello \<Rightarrow> 'w hello" where
  "h_log c s = s\<lparr>h_trace := h_trace s @ [c]\<rparr>"

definition h_log_if :: "bool \<Rightarrow> hello_call \<Rightarrow> 'w hello \<Rightarrow> 'w hello" where
  "h_log_if b c s = (if b then h_log c s else s)"

definition h_on_heap :: "(heap \<Rightarrow> heap) \<Rightarrow> 'w hello \<Rightarrow> 'w hello" where
  "h_on_heap f s = s\<lparr>h_heap := f (h_heap s)\<rparr>"

definition h_print :: "hello_out \<Rightarrow> 'w hello \<Rightarrow> 'w hello" where
  "h_print x s = s\<lparr>h_out := h_out s @ [x]\<rparr>"

section \<open>Callbacks\<close>

definition request_init :: "nat \<Rightarrow> 'w hello \<Rightarrow> 'w hello" where
  "request_init r s = s\<lparr>h_req := (h_req s)(r \<mapsto> False)\<rparr>"

definition send_handler :: "ucs_status \<Rightarrow> 'w hello \<Rightarrow> 'w hello" where
  "send_handler status s =
     h_print (Out_send_handler status)
       (case h_ctx s of Some _ \<Rightarrow> s\<lparr>h_ctx := Some True\<rparr> | None \<Rightarrow> h_on_heap (raise_fault WildDeref) s)"

definition recv_handler :: "nat \<Rightarrow> ucs_status \<Rightarrow> nat \<Rightarrow> 'w hello \<Rightarrow> 'w hello" where
  "recv_handler request status len s =
     h_print (Out_recv_handler status len)
       (case h_req s request of
          Some _ \<Rightarrow> s\<lparr>h_req := (h_req s)(request \<mapsto> True)\<rparr>
        | None \<Rightarrow> h_on_heap (raise_fault WildDeref) s)"

definition flush_callback :: "'w hello \<Rightarrow> 'w hello" where
  "flush_callback s = s"

fun h_dispatch :: "hev \<Rightarrow> 'w hello \<Rightarrow> 'w hello" where
  "h_dispatch (Hev_write p bs) s = h_on_heap (store any_kind p bs) s"
| "h_dispatch (Hev_request_init r) s = request_init r s"
| "h_dispatch (Hev_send st) s = send_handler st s"
| "h_dispatch (Hev_recv r st n) s = recv_handler r st n s"
| "h_dispatch Hev_flush s = flush_callback s"

definition h_dispatch_all :: "hev list \<Rightarrow> 'w hello \<Rightarrow> 'w hello" where
  "h_dispatch_all evs s = fold h_dispatch evs s"

definition h_worker_progress :: "'w ucph_api \<Rightarrow> nat \<Rightarrow> 'w hello \<Rightarrow> 'w hello" where
  "h_worker_progress api worker s =
     (let (evs, w) = hp_progress api worker (h_world s) in h_dispatch_all evs (s\<lparr>h_world := w\<rparr>))"

text \<open>\<open>ucx_wait\<close> on the context of a request, and on the local \<open>ctx\<close>.\<close>

definition ucx_wait :: "nat \<Rightarrow> 'w ucph_api \<Rightarrow> nat \<Rightarrow> ('w hello \<Rightarrow> bool option) \<Rightarrow> 'w hello \<Rightarrow> 'w hello option" where
  "ucx_wait fuel api worker completed s =
     spin fuel (\<lambda>s. completed s \<noteq> Some False) (h_worker_progress api worker) s"

definition h_request_release :: "nat \<Rightarrow> 'w hello \<Rightarrow> 'w hello" where
  "h_request_release r s = h_log (H_request_release r) s"

definition set_msg_data_len :: "ptr \<Rightarrow> nat \<Rightarrow> heap \<Rightarrow> heap" where
  "set_msg_data_len msg data_len h = store any_kind msg (le_bytes 8 data_len) h"

section \<open>Sending and receiving\<close>

definition h_tag_send :: "'w ucph_api \<Rightarrow> nat \<Rightarrow> ptr \<Rightarrow> nat \<Rightarrow> 'w hello \<Rightarrow> ucs_ptr \<times> 'w hello" where
  "h_tag_send api ep msg len s =
     (let (bs, h) = load any_kind msg len (h_heap s);
          (request, evs, w) = hp_tag_send api ep bs hello_tag (h_world s);
          s = h_log (H_send ep bs hello_tag request) (s\<lparr>h_heap := h, h_world := w\<rparr>)
      in (request, h_dispatch_all evs s))"

definition h_msg_recv :: "'w ucph_api \<Rightarrow> nat \<Rightarrow> ptr \<Rightarrow> nat \<Rightarrow> nat \<Rightarrow> 'w hello \<Rightarrow> ucs_ptr \<times> 'w hello" where
  "h_msg_recv api worker msg len handle s =
     (let (request, evs, w) = hp_msg_recv api worker msg len handle (h_world s);
          s = h_log (H_recv handle request) (s\<lparr>h_world := w\<rparr>)
      in (request, h_dispatch_all evs s))"

definition h_probe :: "'w ucph_api \<Rightarrow> nat \<Rightarrow> 'w hello \<Rightarrow> (nat \<times> nat) option \<times> 'w hello" where
  "h_probe api worker s =
     (let (m, w) = hp_probe api worker hello_tag hello_tag_mask (h_world s) in (m, s\<lparr>h_world := w\<rparr>))"

text \<open>The receive that both sides make: wait for the request and reset its context.\<close>

definition recv_finish :: "nat \<Rightarrow> 'w ucph_api \<Rightarrow> nat \<Rightarrow> nat \<Rightarrow> 'w hello \<Rightarrow> 'w hello option" where
  "recv_finish fuel api worker r s = do {
     s \<leftarrow> ucx_wait fuel api worker (\<lambda>s. h_req s r) s;
     Some (h_print Out_received (h_request_release r (s\<lparr>h_req := (h_req s)(r \<mapsto> False)\<rparr>)))
   }"

text \<open>The send that both sides make; \<open>False\<close> when it was refused.\<close>

definition send_finish :: "nat \<Rightarrow> 'w ucph_api \<Rightarrow> nat \<Rightarrow> ucs_ptr \<Rightarrow> 'w hello \<Rightarrow> (bool \<times> 'w hello) option" where
  "send_finish fuel api worker request s =
     (case request of
        Ptr_ERR _ \<Rightarrow> Some (False, s)
      | Ptr_NULL \<Rightarrow> Some (True, s)
      | Ptr_REQ r \<Rightarrow> do {
          s \<leftarrow> ucx_wait fuel api worker h_ctx s;
          Some (True, h_request_release r s)
        })"

definition flush_ep :: "nat \<Rightarrow> 'w ucph_api \<Rightarrow> nat \<Rightarrow> nat \<Rightarrow> 'w hello \<Rightarrow> (ucs_status \<times> 'w hello) option" where
  "flush_ep fuel api worker ep s =
     (let (request, evs, w) = hp_flush api ep (h_world s);
          s = h_dispatch_all evs (h_log (H_flush ep request) (s\<lparr>h_world := w\<rparr>))
      in case request of
           Ptr_NULL \<Rightarrow> Some (UCS_OK, s)
         | Ptr_ERR st \<Rightarrow> Some (st, s)
         | Ptr_REQ r \<Rightarrow> do {
             (status, s) \<leftarrow> poll_until fuel
                (\<lambda>s. let s = h_worker_progress api worker s; (st, w) = hp_check_status api r (h_world s)
                     in (st, s\<lparr>h_world := w\<rparr>))
                (\<lambda>st. st = UCS_INPROGRESS) s;
             Some (status, h_request_release r s)
           })"

section \<open>Client\<close>

definition err_ep :: "nat \<Rightarrow> int \<Rightarrow> 'w hello \<Rightarrow> (int \<times> 'w hello) option" where
  "err_ep ep ret s = Some (ret, (h_log (H_ep_destroy ep) s)\<lparr>h_ctx := None\<rparr>)"

text \<open>The contents of an address buffer, as the library reads it.\<close>

definition h_addr :: "ptr \<Rightarrow> 'w hello \<Rightarrow> byte list" where
  "h_addr p s = (case p of Addr b off \<Rightarrow> (case blocks (h_heap s) b of Some k \<Rightarrow> drop off (b_bytes k) | None \<Rightarrow> []) | _ \<Rightarrow> [])"

definition client_print :: "ptr \<Rightarrow> nat \<Rightarrow> 'w hello \<Rightarrow> (int \<times> 'w hello) option" where
  "client_print msg ep s =
     (let (str, h) = c_calloc hello_strlen (h_heap s); s = s\<lparr>h_heap := h\<rparr> in
      if str = NULLp then err_ep ep (-1) s
      else
        let s = h_on_heap (cuda_memcpy str (ptr_add msg msg_size) hello_strlen) s;
            (t, h) = c_string str (h_heap s);
            s = h_print (Out_text t) (s\<lparr>h_heap := h\<rparr>);
            s = h_on_heap (c_free str) s;
            s = h_on_heap (cuda_free msg) s
        in err_ep ep 0 s)"

definition client_receive :: "nat \<Rightarrow> 'w ucph_api \<Rightarrow> nat \<Rightarrow> nat \<Rightarrow> ptr \<Rightarrow> 'w hello \<Rightarrow> (int \<times> 'w hello) option" where
  "client_receive fuel api worker ep old_msg s = do {
     (found, s) \<leftarrow> poll_until fuel
        (\<lambda>s. let (m, s) = h_probe api worker s
             in (m, if m = None then h_worker_progress api worker s else s))
        (\<lambda>m. m = None) s;
     (msg_tag, len) \<leftarrow> found;
     let (msg, h) = cuda_malloc MManaged old_msg len (h_heap s);
     let s = s\<lparr>h_heap := h\<rparr>;
     if msg = NULLp then err_ep ep (-1) s
     else do {
       let (request, s) = h_msg_recv api worker msg len msg_tag s;
       (case request of
          Ptr_ERR _ \<Rightarrow> err_ep ep (-1) (h_on_heap (c_free msg) s)
        | Ptr_NULL \<Rightarrow> err_ep ep (-1) (h_on_heap (raise_fault AssertFailed) s)
        | Ptr_REQ r \<Rightarrow> do {
            s \<leftarrow> recv_finish fuel api worker r s;
            client_print msg ep s
          })
     }
   }"

definition run_ucx_client :: "nat \<Rightarrow> 'w ucph_api \<Rightarrow> nat \<Rightarrow> 'w hello \<Rightarrow> (int \<times> 'w hello) option" where
  "run_ucx_client fuel api worker s =
     (let a = h_addr (peer_addr s) s;
          (status, ep, w) = hp_ep_create api worker a (h_world s);
          s = h_log_if (status = UCS_OK) (H_ep_create ep a) (s\<lparr>h_world := w\<rparr>) in
      if status \<noteq> UCS_OK then Some (-1, s)
      else
        let n = local_addr_len s; msg_len = size_t (int msg_size + int n);
            (msg, h) = c_malloc msg_len (h_heap s); s = s\<lparr>h_heap := h\<rparr> in
        if msg = NULLp then err_ep ep (-1) s
        else
          let s = h_on_heap (store cpu_kind msg (replicate msg_len 0)) s;
              s = h_on_heap (store cpu_kind msg (le_bytes 8 n)) s;
              s = h_on_heap (c_memcpy (ptr_add msg msg_size) (local_addr s) n) s;
              (request, s) = h_tag_send api ep msg msg_len (s\<lparr>h_ctx := Some False\<rparr>)
          in do {
            (sent, s) \<leftarrow> send_finish fuel api worker request s;
            let s = h_on_heap (c_free msg) s;
            if \<not> sent then err_ep ep (-1) s
            else client_receive fuel api worker ep msg s
          })"

section \<open>Server\<close>

definition server_send :: "nat \<Rightarrow> 'w ucph_api \<Rightarrow> nat \<Rightarrow> nat \<Rightarrow> ptr \<Rightarrow> 'w hello \<Rightarrow> (int \<times> 'w hello) option" where
  "server_send fuel api worker ep old_msg s =
     (let msg_len = msg_size + hello_strlen;
          (msg, h) = cuda_malloc MManaged old_msg msg_len (h_heap s); s = s\<lparr>h_heap := h\<rparr> in
      if msg = NULLp then err_ep ep (-1) s
      else
        let s = h_on_heap (store any_kind msg (replicate msg_len 0)) s;
            s = h_on_heap (set_msg_data_len msg (msg_len - msg_size)) s;
            (ret, h) = ucp_generate_test_string (ptr_add msg msg_size) (int hello_strlen) (h_heap s); s = s\<lparr>h_heap := h\<rparr> in
        if ret < 0 then err_ep ep ret (h_on_heap (cuda_free msg) s)
        else
          let (request, s) = h_tag_send api ep msg msg_len (s\<lparr>h_ctx := Some False\<rparr>);
              s = (if UCS_PTR_IS_PTR request then h_print Out_scheduled s else s)
          in do {
            (sent, s) \<leftarrow> send_finish fuel api worker request s;
            if \<not> sent then err_ep ep (-1) (h_on_heap (cuda_free msg) s)
            else do {
              (status, s) \<leftarrow> flush_ep fuel api worker ep s;
              let s = h_print (Out_flush status) s;
              err_ep ep 0 (h_on_heap (cuda_free msg) s)
            }
          })"

definition server_connect_back :: "nat \<Rightarrow> 'w ucph_api \<Rightarrow> nat \<Rightarrow> ptr \<Rightarrow> 'w hello \<Rightarrow> (int \<times> 'w hello) option" where
  "server_connect_back fuel api worker msg s =
     (let (lenb, h) = load cpu_kind msg msg_size (h_heap s); n = of_le lenb;
          s = s\<lparr>h_heap := h, peer_addr_len := n\<rparr>;
          (p, h) = c_malloc n (h_heap s); s = s\<lparr>h_heap := h, peer_addr := p\<rparr> in
      if p = NULLp then Some (-1, h_on_heap (c_free msg) s)
      else
        let s = h_on_heap (c_memcpy p (ptr_add msg msg_size) n) s;
            s = h_on_heap (c_free msg) s;
            a = h_addr p s;
            (status, ep, w) = hp_ep_create api worker a (h_world s);
            s = h_log_if (status = UCS_OK) (H_ep_create ep a) (s\<lparr>h_world := w\<rparr>) in
        if status \<noteq> UCS_OK then Some (-1, s)
        else server_send fuel api worker ep msg s)"

definition run_ucx_server :: "nat \<Rightarrow> 'w ucph_api \<Rightarrow> nat \<Rightarrow> 'w hello \<Rightarrow> (int \<times> 'w hello) option" where
  "run_ucx_server fuel api worker s = do {
     (found, s) \<leftarrow> poll_until fuel (\<lambda>s. h_probe api worker (h_worker_progress api worker s)) (\<lambda>m. m = None) s;
     (msg_tag, len) \<leftarrow> found;
     let (msg, h) = c_malloc len (h_heap s);
     let s = s\<lparr>h_heap := h\<rparr>;
     if msg = NULLp then Some (-1, s)
     else do {
       let (request, s) = h_msg_recv api worker msg len msg_tag s;
       (case request of
          Ptr_ERR _ \<Rightarrow> Some (-1, h_on_heap (c_free msg) s)
        | Ptr_NULL \<Rightarrow> Some (-1, h_on_heap (raise_fault AssertFailed) s)
        | Ptr_REQ r \<Rightarrow> do {
            s \<leftarrow> recv_finish fuel api worker r s;
            server_connect_back fuel api worker msg s
          })
     }
   }"

definition run_test :: "nat \<Rightarrow> 'w ucph_api \<Rightarrow> string option \<Rightarrow> nat \<Rightarrow> 'w hello \<Rightarrow> (int \<times> 'w hello) option" where
  "run_test fuel api client_target_name worker s =
     (case client_target_name of
        Some _ \<Rightarrow> run_ucx_client fuel api worker s
      | None \<Rightarrow> run_ucx_server fuel api worker s)"

end
