(* ===== verification/Ucp_Main.thy ===== *)
theory Ucp_Main
  imports Ucp_Hello
begin

text \<open>
  \<open>ucp_hello_world.c\<close>: the out-of-band connection of its \<open>hello_world_util.h\<close>, the exchange of the
  server's address and \<open>main\<close>, with its labels as functions.
\<close>

section \<open>Sockets\<close>

text \<open>A \<open>struct sockaddr_in\<close>: the port in network order and the address.\<close>

definition sockaddr_in :: "sa_family \<Rightarrow> u16 \<Rightarrow> byte list \<Rightarrow> addrinfo" where
  "sockaddr_in fam port a = \<lparr>ai_fam = fam, ai_addr = le_bytes 2 (unat (htons port)) @ a\<rparr>"

definition server_connect :: "'w sock_api \<Rightarrow> u16 \<Rightarrow> 'w \<Rightarrow> int \<times> sock_call list \<times> 'w" where
  "server_connect so port w =
     (let (lsock, w) = so_socket so \<lparr>ai_fam = AF_INET, ai_addr = []\<rparr> w in
      if lsock < 0 then (-1, [], w)
      else
        let err_sock = (\<lambda>w. (-1, [S_open lsock, S_close lsock], so_close so lsock w));
            (ret, w) = so_setsockopt so lsock w in
        if ret < 0 then err_sock w
        else
          let (ret, w) = so_bind so lsock (sockaddr_in AF_INET port [0, 0, 0, 0]) w in
          if ret < 0 then err_sock w
          else
            let (ret, w) = so_listen so lsock 0 w in
            if ret < 0 then err_sock w
            else
              let (dsock, w) = so_accept so lsock w in
              if dsock < 0 then err_sock w
              else (dsock, [S_open lsock, S_open dsock, S_close lsock], so_close so lsock w))"

text \<open>
  The first address of the host is copied into the 4 bytes of \<open>sin_addr\<close>: no address is a null
  pointer, a longer one runs over. The fault, if any, comes with the result.
\<close>

definition client_connect :: "'w ucph_api \<Rightarrow> string \<Rightarrow> u16 \<Rightarrow> 'w \<Rightarrow> int \<times> fault option \<times> sock_call list \<times> 'w" where
  "client_connect api server port w =
     (let so = hp_sock api; (connfd, w) = so_socket so \<lparr>ai_fam = AF_INET, ai_addr = []\<rparr> w in
      if connfd < 0 then (-1, None, [], w)
      else
        let err_conn = (\<lambda>w. (-1, None, [S_open connfd, S_close connfd], so_close so connfd w));
            (he, w) = hp_gethostbyname api server w in
        case he of
          None \<Rightarrow> err_conn w
        | Some he \<Rightarrow>
            (case h_addr_list he of
               None \<Rightarrow> err_conn w
             | Some as \<Rightarrow>
                 let a = (case as of a # _ \<Rightarrow> a | [] \<Rightarrow> []);
                     flt = (if as = [] then Some NullDeref else if 4 < length a then Some OutOfBounds else None);
                     (ret, w) = so_connect so connfd (sockaddr_in (h_addrtype he) port a) w in
                 if ret < 0 then (-1, flt, [S_open connfd, S_close connfd], so_close so connfd w)
                 else (connfd, flt, [S_open connfd], w)))"

definition hello_barrier :: "'w sock_api \<Rightarrow> int \<Rightarrow> 'w \<Rightarrow> int \<times> 'w" where
  "hello_barrier so oob_sock w =
     (let (res, w) = so_send so oob_sock [0, 0, 0, 0] w in
      if res < 0 then (c_int res, w)
      else let (res, bs, w) = so_recv so oob_sock 4 w in (if res = 4 then 0 else 1, w))"

section \<open>Labels of main\<close>

record hello_locals =
  hl_context :: nat
  hl_worker :: nat

definition hello_err_cleanup :: "hello_locals \<Rightarrow> int \<Rightarrow> 'w hello \<Rightarrow> int \<times> 'w hello" where
  "hello_err_cleanup l ret s = (ret, h_log (H_cleanup (hl_context l)) s)"

definition hello_err_worker :: "hello_locals \<Rightarrow> int \<Rightarrow> 'w hello \<Rightarrow> int \<times> 'w hello" where
  "hello_err_worker l ret s = hello_err_cleanup l ret (h_log (H_worker_destroy (hl_worker l)) s)"

definition hello_err_addr :: "hello_locals \<Rightarrow> int \<Rightarrow> 'w hello \<Rightarrow> int \<times> 'w hello" where
  "hello_err_addr l ret s =
     hello_err_worker l ret (h_log H_release_address (h_on_heap (reclaim (local_addr s)) s))"

definition hello_err_peer_addr :: "hello_locals \<Rightarrow> int \<Rightarrow> 'w hello \<Rightarrow> int \<times> 'w hello" where
  "hello_err_peer_addr l ret s = hello_err_addr l ret (h_on_heap (c_free (peer_addr s)) s)"

section \<open>main\<close>

definition hello_send :: "'w ucph_api \<Rightarrow> int \<Rightarrow> byte list \<Rightarrow> 'w hello \<Rightarrow> int \<times> 'w hello" where
  "hello_send api fd bs s = (let (n, w) = so_send (hp_sock api) fd bs (h_world s) in (c_int n, s\<lparr>h_world := w\<rparr>))"

definition hello_recv :: "'w ucph_api \<Rightarrow> int \<Rightarrow> nat \<Rightarrow> 'w hello \<Rightarrow> int \<times> byte list \<times> 'w hello" where
  "hello_recv api fd n s =
     (let (r, bs, w) = so_recv (hp_sock api) fd n (h_world s) in (c_int r, take n bs, s\<lparr>h_world := w\<rparr>))"

definition hello_test :: "nat \<Rightarrow> 'w ucph_api \<Rightarrow> hello_locals \<Rightarrow> string option \<Rightarrow> int \<Rightarrow> 'w hello \<Rightarrow>
    (int \<times> 'w hello) option" where
  "hello_test fuel api l target oob_sock s = do {
     (ret, s) \<leftarrow> run_test fuel api target (hl_worker l) s;
     let (ret, w) = (if ret = 0 then hello_barrier (hp_sock api) oob_sock (h_world s) else (ret, h_world s));
     let s = h_log (H_sock (S_close oob_sock)) (s\<lparr>h_world := so_close (hp_sock api) oob_sock w\<rparr>);
     Some (hello_err_peer_addr l ret s)
   }"

definition hello_client_address :: "nat \<Rightarrow> 'w ucph_api \<Rightarrow> hello_locals \<Rightarrow> string \<Rightarrow> 'w hello \<Rightarrow>
    (int \<times> 'w hello) option" where
  "hello_client_address fuel api l target s =
     (let s = s\<lparr>peer_addr_len := local_addr_len s\<rparr>;
          (oob_sock, flt, calls, w) = client_connect api target hello_port (h_world s);
          s = s\<lparr>h_world := w, h_trace := h_trace s @ map H_sock calls\<rparr>;
          s = (case flt of Some f \<Rightarrow> h_on_heap (raise_fault f) s | None \<Rightarrow> s) in
      if oob_sock < 0 then Some (hello_err_addr l (-1) s)
      else
        let (ret, bs, s) = hello_recv api oob_sock 8 s in
        if ret \<noteq> 8 then Some (hello_err_addr l ret s)
        else
          let n = of_le bs; (p, h) = c_malloc n (h_heap s);
              s = s\<lparr>h_heap := h, peer_addr_len := n, peer_addr := p\<rparr> in
          if p = NULLp then Some (hello_err_addr l ret s)
          else
            let (ret, bs, s) = hello_recv api oob_sock n s;
                s = h_on_heap (store cpu_kind p bs) s in
            if ret \<noteq> c_int (int n) then Some (hello_err_peer_addr l ret s)
            else hello_test fuel api l (Some target) oob_sock s)"

definition hello_server_address :: "nat \<Rightarrow> 'w ucph_api \<Rightarrow> hello_locals \<Rightarrow> 'w hello \<Rightarrow> (int \<times> 'w hello) option" where
  "hello_server_address fuel api l s =
     (let (oob_sock, calls, w) = server_connect (hp_sock api) hello_port (h_world s);
          s = s\<lparr>h_world := w, h_trace := h_trace s @ map H_sock calls\<rparr> in
      if oob_sock < 0 then Some (hello_err_peer_addr l (-1) s)
      else
        let (ret, s) = hello_send api oob_sock (le_bytes 8 (local_addr_len s)) s in
        if ret \<noteq> 8 then Some (hello_err_peer_addr l ret s)
        else
          let (bs, h) = load cpu_kind (local_addr s) (local_addr_len s) (h_heap s);
              (ret, s) = hello_send api oob_sock bs (s\<lparr>h_heap := h\<rparr>) in
          if ret \<noteq> c_int (int (local_addr_len s)) then Some (hello_err_peer_addr l ret s)
          else hello_test fuel api l None oob_sock s)"

definition hello_main :: "nat \<Rightarrow> 'w ucph_api \<Rightarrow> string list \<Rightarrow> 'w hello \<Rightarrow> (int \<times> 'w hello) option" where
  "hello_main fuel api argv s =
     (if length argv > 2 then Some (0, h_print Out_usage s)
      else
        let target = (if length argv = 2 then Some (argv ! 1) else None);
            (status, config, w) = hp_config_read api (h_world s);
            s = h_log_if (status = UCS_OK) (H_config_read config) (s\<lparr>h_world := w\<rparr>) in
        if status \<noteq> UCS_OK then Some (-1, s)
        else
          let (status, context, w) = hp_init api config (h_world s);
              s = h_log_if (status = UCS_OK) (H_init context) (s\<lparr>h_world := w\<rparr>);
              s = h_log (H_config_release config) s in
          if status \<noteq> UCS_OK then Some (-1, s)
          else
            let (status, worker, w) = hp_worker_create api context (h_world s);
                s = h_log_if (status = UCS_OK) (H_worker_create worker) (s\<lparr>h_world := w\<rparr>);
                l = \<lparr>hl_context = context, hl_worker = worker\<rparr> in
            if status \<noteq> UCS_OK then Some (hello_err_cleanup l (-1) s)
            else
              let (status, a, w) = hp_get_address api worker (h_world s); s = s\<lparr>h_world := w\<rparr> in
              if status \<noteq> UCS_OK then Some (hello_err_worker l (-1) s)
              else
                let (b, h) = lend a (h_heap s);
                    s = h_log H_get_address (s\<lparr>h_heap := h, local_addr := Addr b 0, local_addr_len := length a\<rparr>)
                in case target of
                     Some t \<Rightarrow> hello_client_address fuel api l t s
                   | None \<Rightarrow> hello_server_address fuel api l s)"

definition hello_start :: "heap \<Rightarrow> 'w \<Rightarrow> 'w hello" where
  "hello_start h w = \<lparr>h_heap = h, h_req = (\<lambda>_. None), h_ctx = None, local_addr = NULLp, local_addr_len = 0,
     peer_addr = NULLp, peer_addr_len = 0, h_trace = [], h_out = [], h_world = w\<rparr>"

end
