(* ===== verification/Ucp_Ownership.thy ===== *)
theory Ucp_Ownership
  imports Ucp_Main
begin

text \<open>
  What \<open>ucp_hello_world.c\<close> owns outside its heap, through every path of the client, the server and
  \<open>main\<close>, for any behaviour of UCP and of the sockets.
\<close>

section \<open>Resources of the calls\<close>

datatype hello_res = HR_config nat | HR_context nat | HR_worker nat | HR_address | HR_ep nat | HR_req nat
  | HR_sock sock_res

fun req_of :: "ucs_ptr \<Rightarrow> hello_res option" where
  "req_of (Ptr_REQ r) = Some (HR_req r)"
| "req_of _ = None"

fun hello_acquires :: "hello_call \<Rightarrow> hello_res option" where
  "hello_acquires (H_config_read a) = Some (HR_config a)"
| "hello_acquires (H_init a) = Some (HR_context a)"
| "hello_acquires (H_worker_create a) = Some (HR_worker a)"
| "hello_acquires H_get_address = Some HR_address"
| "hello_acquires (H_ep_create e a) = Some (HR_ep e)"
| "hello_acquires (H_send e bs t r) = req_of r"
| "hello_acquires (H_recv m r) = req_of r"
| "hello_acquires (H_flush e r) = req_of r"
| "hello_acquires (H_sock c) = map_option HR_sock (sock_acquires c)"
| "hello_acquires _ = None"

fun hello_releases :: "hello_call \<Rightarrow> hello_res option" where
  "hello_releases (H_config_release a) = Some (HR_config a)"
| "hello_releases (H_cleanup a) = Some (HR_context a)"
| "hello_releases (H_worker_destroy a) = Some (HR_worker a)"
| "hello_releases H_release_address = Some HR_address"
| "hello_releases (H_ep_destroy e) = Some (HR_ep e)"
| "hello_releases (H_request_release r) = Some (HR_req r)"
| "hello_releases (H_sock c) = map_option HR_sock (sock_releases c)"
| "hello_releases _ = None"

interpretation hr: traced_program hello_acquires hello_releases "h_trace :: 'w hello \<Rightarrow> hello_call list"
proof
  fix c show "hello_acquires c = None \<or> hello_releases c = None"
    by (cases c) (use sor.one_effect in auto)
qed

abbreviation hello_triple :: "hello_res multiset \<Rightarrow> 'w hello \<Rightarrow> 'w hello \<Rightarrow> hello_res multiset \<Rightarrow> bool" where
  "hello_triple \<equiv> traced_triple hello_acquires hello_releases h_trace"

lemma h_trace_frame [simp, frame_simps]: "h_trace (h_on_heap f s) = h_trace s" "h_trace (h_print x s) = h_trace s"
  "h_world (h_on_heap f s) = h_world s" "h_world (h_print x s) = h_world s"
  by (simp_all add: h_on_heap_def h_print_def)

lemma h_trace_log [simp, trace_simps]: "h_trace (h_log c s) = h_trace s @ [c]"
  "h_trace (h_log_if b c s) = h_trace s @ (if b then [c] else [])"
  by (simp_all add: h_log_def h_log_if_def)

section \<open>Endings\<close>

text \<open>A computation started in \<open>s\<close> with \<open>P\<close> live has \<open>Q\<close> live when it ends, if it ends.\<close>

definition ends :: "hello_res multiset \<Rightarrow> 'w hello \<Rightarrow> ('a \<times> 'w hello) option \<Rightarrow> hello_res multiset \<Rightarrow> bool" where
  "ends P s m Q \<longleftrightarrow> (\<forall>x s'. m = Some (x, s') \<longrightarrow> hello_triple P s s' Q)"

lemma ends_seq: "hello_triple P s s1 R \<Longrightarrow> ends R s1 m Q \<Longrightarrow> ends P s m Q"
  unfolding ends_def by (blast intro: hr.st_trans)

lemma ends_from: "h_trace s1 = h_trace s \<Longrightarrow> ends P s1 m Q \<Longrightarrow> ends P s m Q"
  by (rule ends_seq[OF hr.st_same])

lemma ends_if: "ends P s m Q \<Longrightarrow> ends P s n Q \<Longrightarrow> ends P s (if b then m else n) Q"
  by simp

lemma ends_Some: "hello_triple P s (snd x) Q \<Longrightarrow> ends P s (Some x) Q"
  by (cases x) (simp add: ends_def)

lemma ends_bind:
  assumes "ends P s m R" "\<And>x s1. m = Some (x, s1) \<Longrightarrow> ends R s1 (f x s1) Q"
  shows "ends P s (do { (x, s1) \<leftarrow> m; f x s1 }) Q"
proof (cases m)
  case (Some y)
  obtain x s1 where y: "y = (x, s1)" by fastforce
  with Some assms(1) have "hello_triple P s s1 R" by (auto simp: ends_def)
  from ends_seq[OF this assms(2)] Some y show ?thesis by simp
qed (simp add: ends_def)

section \<open>Waiting\<close>

lemma h_dispatch_trace [simp, frame_simps]: "h_trace (h_dispatch ev s) = h_trace s"
  by (cases ev) (auto simp: request_init_def send_handler_def recv_handler_def flush_callback_def split: option.splits)

lemma h_dispatch_all_trace [simp, frame_simps]: "h_trace (h_dispatch_all evs s) = h_trace s"
  unfolding h_dispatch_all_def by (induction evs arbitrary: s) simp_all

lemma h_progress_trace [simp, frame_simps]: "h_trace (h_worker_progress api wk s) = h_trace s"
  by (simp add: h_worker_progress_def split_beta)

lemma h_probe_trace [simp, frame_simps]: "h_trace (snd (h_probe api wk s)) = h_trace s"
  by (simp add: h_probe_def split_beta)

lemma ucx_wait_trace: "ucx_wait fuel api wk c s = Some s' \<Longrightarrow> h_trace s' = h_trace s"
  unfolding ucx_wait_def by (erule spin_inv) simp_all

lemma poll_trace:
  assumes "poll_until fuel body again s = Some (x, s')" "\<And>u. h_trace (snd (body u)) = h_trace u"
  shows "h_trace s' = h_trace s"
  using assms(1) by (rule poll_until_inv) (simp_all add: assms(2))

definition req_set :: "ucs_ptr \<Rightarrow> hello_res multiset" where
  "req_set r = (case req_of r of Some x \<Rightarrow> {#x#} | None \<Rightarrow> {#})"

lemma h_tag_send_triple: "h_tag_send api ep msg n s = (req, s') \<Longrightarrow> hello_triple P s s' (P + req_set req)"
  by (cases req) (auto simp: h_tag_send_def req_set_def traced_triple_def res_triple_def Let_def split: prod.splits)

lemma h_msg_recv_triple: "h_msg_recv api wk msg n m s = (req, s') \<Longrightarrow> hello_triple P s s' (P + req_set req)"
  by (cases req) (auto simp: h_msg_recv_def req_set_def traced_triple_def res_triple_def Let_def split: prod.splits)

lemma ends_send_finish: "ends (P + req_set req) s (send_finish fuel api wk req s) P"
proof (cases req)
  case (Ptr_REQ r)
  have "hello_triple (P + req_set req) s (h_request_release r s1) P" if "ucx_wait fuel api wk h_ctx s = Some s1" for s1
    using hr.st_trans[OF hr.st_same[OF ucx_wait_trace[OF that]] hr.st_release[of "H_request_release r" "HR_req r" "h_request_release r s1" s1 P]] Ptr_REQ
    by (simp add: req_set_def h_request_release_def)
  with Ptr_REQ show ?thesis by (auto simp: send_finish_def ends_def bind_eq_Some_conv)
qed (auto simp: send_finish_def ends_def req_set_def intro: hr.st_refl)

lemma recv_finish_triple:
  assumes "recv_finish fuel api wk r s = Some s'"
  shows "hello_triple (P + req_set (Ptr_REQ r)) s s' P"
proof -
  from assms obtain s1 where w: "ucx_wait fuel api wk (\<lambda>s. h_req s r) s = Some s1"
    and s': "h_trace s' = h_trace s1 @ [H_request_release r]"
    by (auto simp: recv_finish_def bind_eq_Some_conv h_request_release_def)
  from hr.st_trans[OF hr.st_same[OF ucx_wait_trace[OF w]] hr.st_release[OF _ s', of "HR_req r" P]] show ?thesis
    by (simp add: req_set_def)
qed

lemma ends_flush_ep: "ends P s (flush_ep fuel api wk ep s) P"
proof -
  obtain req evs w where f: "hp_flush api ep (h_world s) = (req, evs, w)" using prod_cases3 by blast
  let ?s = "h_dispatch_all evs (h_log (H_flush ep req) (s\<lparr>h_world := w\<rparr>))"
  have t: "hello_triple P s ?s (P + req_set req)"
    by (cases req) (auto simp: req_set_def traced_triple_def res_triple_def)
  show ?thesis
  proof (cases req)
    case (Ptr_REQ r)
    let ?body = "\<lambda>s. let s = h_worker_progress api wk s; (st, w) = hp_check_status api r (h_world s) in (st, s\<lparr>h_world := w\<rparr>)"
    have "ends (P + req_set req) ?s (do { (status, s) \<leftarrow> poll_until fuel ?body (\<lambda>st. st = UCS_INPROGRESS) ?s;
        Some (status, h_request_release r s) }) P"
    proof (rule ends_bind)
      show "ends (P + req_set req) ?s (poll_until fuel ?body (\<lambda>st. st = UCS_INPROGRESS) ?s) (P + req_set req)"
        unfolding ends_def by (intro allI impI hr.st_same) (rule poll_trace, assumption, simp add: Let_def split_beta)
      show "ends (P + req_set req) s1 (Some (x, h_request_release r s1)) P" for x s1
        using hr.st_release[of "H_request_release r" "HR_req r" "h_request_release r s1" s1 P] Ptr_REQ
        by (intro ends_Some) (simp add: req_set_def h_request_release_def)
    qed
    from ends_seq[OF t this] f Ptr_REQ show ?thesis by (simp add: flush_ep_def)
  qed (use f t in \<open>auto simp: flush_ep_def req_set_def ends_def\<close>)
qed

lemma ends_err_ep: "ends (add_mset (HR_ep ep) P) s (err_ep ep ret s) P"
  unfolding err_ep_def by (rule ends_Some) (rule hr.st_release[of "H_ep_destroy ep"], simp_all)

section \<open>Client\<close>

lemma ends_client_print: "ends (add_mset (HR_ep ep) P) s (client_print msg ep s) P"
  unfolding client_print_def Let_def split_beta
  by (intro ends_if; rule ends_from[OF _ ends_err_ep]) simp_all

lemma ends_client_receive: "ends (add_mset (HR_ep ep) P) s (client_receive fuel api wk ep old s) P"
  (is "ends ?P _ _ _")
proof -
  let ?body = "\<lambda>s. let (m, s) = h_probe api wk s in (m, if m = None then h_worker_progress api wk s else s)"
  have rest: "ends ?P s1 (do { (msg_tag, len) \<leftarrow> x;
     let (msg, h) = cuda_malloc MManaged old len (h_heap s1);
     let s = s1\<lparr>h_heap := h\<rparr>;
     if msg = NULLp then err_ep ep (-1) s
     else do {
       let (request, s) = h_msg_recv api wk msg len msg_tag s;
       (case request of
          Ptr_ERR _ \<Rightarrow> err_ep ep (-1) (h_on_heap (c_free msg) s)
        | Ptr_NULL \<Rightarrow> err_ep ep (-1) (h_on_heap (raise_fault AssertFailed) s)
        | Ptr_REQ r \<Rightarrow> do { s \<leftarrow> recv_finish fuel api wk r s; client_print msg ep s })
     } }) P" for x s1
  proof (cases x)
    case None
    then show ?thesis by (simp add: ends_def)
  next
    case (Some y)
    obtain t n where y: "y = (t, n)" by fastforce
    obtain msg h where a: "cuda_malloc MManaged old n (h_heap s1) = (msg, h)" by fastforce
    let ?s = "s1\<lparr>h_heap := h\<rparr>"
    obtain req s2 where r: "h_msg_recv api wk msg n t ?s = (req, s2)" by fastforce
    let ?m = "case req of
          Ptr_ERR _ \<Rightarrow> err_ep ep (-1) (h_on_heap (c_free msg) s2)
        | Ptr_NULL \<Rightarrow> err_ep ep (-1) (h_on_heap (raise_fault AssertFailed) s2)
        | Ptr_REQ r \<Rightarrow> do { s \<leftarrow> recv_finish fuel api wk r s2; client_print msg ep s }"
    have "ends (?P + req_set req) s2 ?m P"
    proof (cases req)
      case (Ptr_REQ q)
      have "ends (?P + req_set req) s2 (client_print msg ep s3) P" if "recv_finish fuel api wk q s2 = Some s3" for s3
        using ends_seq[OF recv_finish_triple[OF that] ends_client_print] Ptr_REQ by simp
      with Ptr_REQ show ?thesis by (cases "recv_finish fuel api wk q s2") (simp_all add: ends_def)
    qed (auto simp: req_set_def intro: ends_from[OF _ ends_err_ep])
    from ends_seq[OF h_msg_recv_triple[OF r] this] have "ends ?P ?s ?m P" .
    then have "ends ?P ?s (if msg = NULLp then err_ep ep (-1) ?s else ?m) P"
      by (intro ends_if ends_err_ep)
    then have "ends ?P s1 (if msg = NULLp then err_ep ep (-1) ?s else ?m) P" by (rule ends_from[rotated]) simp
    with Some y a r show ?thesis by (cases "msg = NULLp") (simp_all add: Let_def)
  qed
  have poll: "ends ?P s (poll_until fuel ?body (\<lambda>m. m = None) s) ?P"
    unfolding ends_def by (intro allI impI hr.st_same) (rule poll_trace, assumption, simp add: split_beta)
  show ?thesis unfolding client_receive_def by (rule ends_bind[OF poll rest])
qed

lemma ends_ep_create:
  assumes "st = UCS_OK \<Longrightarrow> ends (add_mset (HR_ep ep) P) (h_log (H_ep_create ep a) s) m P"
  shows "ends P s (if st \<noteq> UCS_OK then Some (-1, s) else m) P"
proof (cases "st = UCS_OK")
  case True
  have "hello_triple P s (h_log (H_ep_create ep a) s) (add_mset (HR_ep ep) P)"
    by (rule hr.st_acquire[of "H_ep_create ep a"]) simp_all
  from ends_seq[OF this assms[OF True]] True show ?thesis by simp
qed (simp add: ends_Some hr.st_refl)

text \<open>What follows the send of the client.\<close>

abbreviation client_tail :: "nat \<Rightarrow> 'w ucph_api \<Rightarrow> nat \<Rightarrow> nat \<Rightarrow> ptr \<Rightarrow> ucs_ptr \<Rightarrow> 'w hello \<Rightarrow> (int \<times> 'w hello) option" where
  "client_tail fuel api wk ep msg req s \<equiv> do {
     (sent, s) \<leftarrow> send_finish fuel api wk req s;
     let s = h_on_heap (c_free msg) s;
     if \<not> sent then err_ep ep (-1) s else client_receive fuel api wk ep msg s }"

lemma ends_client_tail: "ends (add_mset (HR_ep ep) P + req_set req) s (client_tail fuel api wk ep msg req s) P"
  unfolding Let_def
  by (rule ends_bind[OF ends_send_finish]) (rule ends_from[OF _ ends_if[OF ends_err_ep ends_client_receive]], simp)

lemma ends_run_ucx_client: "ends P s (run_ucx_client fuel api wk s) P"
proof -
  let ?a = "h_addr (peer_addr s) s"
  obtain st ep w where c: "hp_ep_create api wk ?a (h_world s) = (st, ep, w)" using prod_cases3 by blast
  define s1 where "s1 = s\<lparr>h_world := w\<rparr>"
  define s2 where "s2 = h_log (H_ep_create ep ?a) s1"
  let ?n = "local_addr_len s" let ?len = "size_t (int 8 + int ?n)" let ?P = "add_mset (HR_ep ep) P"
  obtain msg h where a: "c_malloc ?len (h_heap s) = (msg, h)" by fastforce
  define s3 where "s3 = h_on_heap (c_memcpy (ptr_add msg 8) (local_addr s) ?n) (h_on_heap (store cpu_kind msg (le_bytes 8 ?n))
      (h_on_heap (store cpu_kind msg (replicate ?len 0)) (s2\<lparr>h_heap := h\<rparr>)))"
  obtain req s4 where sd: "h_tag_send api ep msg ?len (s3\<lparr>h_ctx := Some False\<rparr>) = (req, s4)" by fastforce
  let ?m = "client_tail fuel api wk ep msg req s4"
  have "ends (?P + req_set req) s4 ?m P" by (rule ends_client_tail)
  from ends_seq[OF h_tag_send_triple[OF sd] this] have "ends ?P (s3\<lparr>h_ctx := Some False\<rparr>) ?m P" .
  then have m: "ends ?P s2 ?m P" by (rule ends_from[rotated]) (simp add: s3_def)
  have "ends ?P s2 (if msg = NULLp then err_ep ep (-1) (s2\<lparr>h_heap := h\<rparr>) else ?m) P"
    by (intro ends_if m) (rule ends_from[OF _ ends_err_ep], simp)
  then have "ends P s1 (if st \<noteq> UCS_OK then Some (-1, s1) else if msg = NULLp then err_ep ep (-1) (s2\<lparr>h_heap := h\<rparr>) else ?m) P"
    unfolding s2_def by (rule ends_ep_create)
  then have "ends P s (if st \<noteq> UCS_OK then Some (-1, s1) else if msg = NULLp then err_ep ep (-1) (s2\<lparr>h_heap := h\<rparr>) else ?m) P"
    by (rule ends_from[rotated]) (simp add: s1_def)
  moreover have "run_ucx_client fuel api wk s =
      (if st \<noteq> UCS_OK then Some (-1, s1) else if msg = NULLp then err_ep ep (-1) (s2\<lparr>h_heap := h\<rparr>) else ?m)"
    using c a sd unfolding run_ucx_client_def s3_def s2_def s1_def
    by (cases "st = UCS_OK") (simp_all add: h_log_if_def h_log_def h_on_heap_def Let_def)
  ultimately show ?thesis by simp
qed

section \<open>Server\<close>

text \<open>What follows the send of the server.\<close>

definition server_tail :: "nat \<Rightarrow> 'w ucph_api \<Rightarrow> nat \<Rightarrow> nat \<Rightarrow> ptr \<Rightarrow> ucs_ptr \<Rightarrow> 'w hello \<Rightarrow> (int \<times> 'w hello) option" where
  "server_tail fuel api wk ep msg req s = do {
     (sent, s) \<leftarrow> send_finish fuel api wk req s;
     if \<not> sent then err_ep ep (-1) (h_on_heap (cuda_free msg) s)
     else do { (status, s) \<leftarrow> flush_ep fuel api wk ep s;
       err_ep ep 0 (h_on_heap (cuda_free msg) (h_print (Out_flush status) s)) } }"

lemma ends_server_tail: "ends (add_mset (HR_ep ep) P + req_set req) s (server_tail fuel api wk ep msg req s) P"
  (is "ends (?P + _) _ _ _")
unfolding server_tail_def
proof (rule ends_bind[OF ends_send_finish])
  have 1: "ends ?P u (err_ep ep ret (h_on_heap (cuda_free msg) u)) P" for u :: "'a hello" and ret
    by (rule ends_from[OF _ ends_err_ep]) simp
  have 2: "ends ?P u (do { (status, s) \<leftarrow> flush_ep fuel api wk ep u;
            err_ep ep 0 (h_on_heap (cuda_free msg) (h_print (Out_flush status) s)) }) P" for u
    by (rule ends_bind[OF ends_flush_ep]) (rule ends_from[OF _ ends_err_ep], simp)
  show "ends ?P u (if \<not> sent then err_ep ep (-1) (h_on_heap (cuda_free msg) u)
     else do { (status, s) \<leftarrow> flush_ep fuel api wk ep u;
            err_ep ep 0 (h_on_heap (cuda_free msg) (h_print (Out_flush status) s)) }) P" for sent u
    by (rule ends_if[OF 1 2])
qed

lemma ends_server_send: "ends (add_mset (HR_ep ep) P) s (server_send fuel api wk ep old s) P"
  (is "ends ?P _ _ _")
proof -
  obtain msg h where a: "cuda_malloc MManaged old (8 + 16) (h_heap s) = (msg, h)" by fastforce
  define s1 where "s1 = h_on_heap (set_msg_data_len msg 16) (h_on_heap (store any_kind msg (replicate 24 0)) (s\<lparr>h_heap := h\<rparr>))"
  obtain ret h2 where g: "ucp_generate_test_string (ptr_add msg 8) (int 16) (h_heap s1) = (ret, h2)" by fastforce
  define s2 where "s2 = s1\<lparr>h_heap := h2\<rparr>"
  obtain req s3 where sd: "h_tag_send api ep msg (8 + 16) (s2\<lparr>h_ctx := Some False\<rparr>) = (req, s3)" by fastforce
  define s4 where "s4 = (if UCS_PTR_IS_PTR req then h_print Out_scheduled s3 else s3)"
  let ?m = "server_tail fuel api wk ep msg req s4"
  have "ends (?P + req_set req) s4 ?m P" by (rule ends_server_tail)
  then have "ends (?P + req_set req) s3 ?m P" by (rule ends_from[rotated]) (simp add: s4_def)
  from ends_seq[OF h_tag_send_triple[OF sd] this] have "ends ?P (s2\<lparr>h_ctx := Some False\<rparr>) ?m P" .
  then have m: "ends ?P s ?m P" by (rule ends_from[rotated]) (simp add: s2_def s1_def)
  have "ends ?P s (if msg = NULLp then err_ep ep (-1) (s\<lparr>h_heap := h\<rparr>)
      else if ret < 0 then err_ep ep ret (h_on_heap (cuda_free msg) s2) else ?m) P"
    by (intro ends_if m; rule ends_from[OF _ ends_err_ep]) (simp_all add: s2_def s1_def)
  moreover have "server_send fuel api wk ep old s = (if msg = NULLp then err_ep ep (-1) (s\<lparr>h_heap := h\<rparr>)
      else if ret < 0 then err_ep ep ret (h_on_heap (cuda_free msg) s2) else ?m)"
    using a g sd unfolding server_send_def s4_def s2_def s1_def server_tail_def Let_def by simp
  ultimately show ?thesis by simp
qed

lemma ends_server_connect_back: "ends P s (server_connect_back fuel api wk msg s) P"
proof -
  obtain lb h where ld: "load cpu_kind msg 8 (h_heap s) = (lb, h)" by fastforce
  let ?n = "of_le lb"
  obtain p h1 where a: "c_malloc ?n h = (p, h1)" by fastforce
  define s1 where "s1 = s\<lparr>h_heap := h1, peer_addr_len := ?n, peer_addr := p\<rparr>"
  define s2 where "s2 = h_on_heap (c_free msg) (h_on_heap (c_memcpy p (ptr_add msg 8) ?n) s1)"
  obtain st ep w where c: "hp_ep_create api wk (h_addr p s2) (h_world s2) = (st, ep, w)" using prod_cases3 by blast
  let ?s3 = "s2\<lparr>h_world := w\<rparr>"
  let ?m = "if st \<noteq> UCS_OK then Some (-1, ?s3) else server_send fuel api wk ep msg (h_log (H_ep_create ep (h_addr p s2)) ?s3)"
  have "ends P ?s3 ?m P" by (rule ends_ep_create[OF ends_server_send])
  then have m: "ends P s ?m P" by (rule ends_from[rotated]) (simp add: s2_def s1_def)
  have "ends P s (if p = NULLp then Some (-1, h_on_heap (c_free msg) s1) else ?m) P"
    by (intro ends_if m ends_Some hr.st_same) (simp add: s1_def)
  moreover have "server_connect_back fuel api wk msg s = (if p = NULLp then Some (-1, h_on_heap (c_free msg) s1) else ?m)"
    using ld a c unfolding server_connect_back_def s2_def s1_def
    by (cases "st = UCS_OK") (simp_all add: Let_def h_log_if_def h_on_heap_def)
  ultimately show ?thesis by simp
qed

lemma ends_run_ucx_server: "ends P s (run_ucx_server fuel api wk s) P"
proof -
  have rest: "ends P s1 (do { (msg_tag, len) \<leftarrow> x;
     let (msg, h) = c_malloc len (h_heap s1);
     let s = s1\<lparr>h_heap := h\<rparr>;
     if msg = NULLp then Some (-1, s)
     else do {
       let (request, s) = h_msg_recv api wk msg len msg_tag s;
       (case request of
          Ptr_ERR _ \<Rightarrow> Some (-1, h_on_heap (c_free msg) s)
        | Ptr_NULL \<Rightarrow> Some (-1, h_on_heap (raise_fault AssertFailed) s)
        | Ptr_REQ r \<Rightarrow> do { s \<leftarrow> recv_finish fuel api wk r s; server_connect_back fuel api wk msg s })
     } }) P" for x s1
  proof (cases x)
    case None
    then show ?thesis by (simp add: ends_def)
  next
    case (Some y)
    obtain t n where y: "y = (t, n)" by fastforce
    obtain msg h where a: "c_malloc n (h_heap s1) = (msg, h)" by fastforce
    let ?s = "s1\<lparr>h_heap := h\<rparr>"
    obtain req s2 where r: "h_msg_recv api wk msg n t ?s = (req, s2)" by fastforce
    let ?m = "case req of
          Ptr_ERR _ \<Rightarrow> Some (-1, h_on_heap (c_free msg) s2)
        | Ptr_NULL \<Rightarrow> Some (-1, h_on_heap (raise_fault AssertFailed) s2)
        | Ptr_REQ r \<Rightarrow> do { s \<leftarrow> recv_finish fuel api wk r s2; server_connect_back fuel api wk msg s }"
    have "ends (P + req_set req) s2 ?m P"
    proof (cases req)
      case (Ptr_REQ q)
      have "ends (P + req_set req) s2 (server_connect_back fuel api wk msg s3) P" if "recv_finish fuel api wk q s2 = Some s3" for s3
        using ends_seq[OF recv_finish_triple[OF that] ends_server_connect_back] Ptr_REQ by simp
      with Ptr_REQ show ?thesis by (cases "recv_finish fuel api wk q s2") (simp_all add: ends_def)
    qed (auto simp: req_set_def intro!: ends_Some hr.st_same)
    from ends_seq[OF h_msg_recv_triple[OF r] this] have "ends P ?s ?m P" .
    then have m: "ends P s1 ?m P" by (rule ends_from[rotated]) simp
    have "ends P s1 (if msg = NULLp then Some (-1, ?s) else ?m) P"
      by (intro ends_if m ends_Some hr.st_same) simp
    with Some y a r show ?thesis by (cases "msg = NULLp") (simp_all add: Let_def)
  qed
  have poll: "ends P s (poll_until fuel (\<lambda>s. h_probe api wk (h_worker_progress api wk s)) (\<lambda>m. m = None) s) P"
    unfolding ends_def by (intro allI impI hr.st_same) (rule poll_trace, assumption, simp)
  show ?thesis unfolding run_ucx_server_def by (rule ends_bind[OF poll rest])
qed

lemma ends_run_test: "ends P s (run_test fuel api t wk s) P"
  by (cases t) (simp_all add: run_test_def ends_run_ucx_client ends_run_ucx_server)

section \<open>Sockets\<close>

lemma server_connect_owns:
  assumes "server_connect so port w = (fd, cs, w')"
  shows "sock_triple P cs (P + fd_res fd)"
  using assms by (auto simp: server_connect_def Let_def fd_res_def res_triple_def split: prod.splits if_splits)

lemma client_connect_owns:
  assumes "client_connect api server port w = (fd, flt, cs, w')"
  shows "sock_triple P cs (P + fd_res fd)"
  using assms
  by (auto simp: client_connect_def Let_def fd_res_def res_triple_def split: prod.splits if_splits option.splits)

end
