(* ===== verification/Ucp_Release.thy ===== *)
theory Ucp_Release
  imports Ucp_Ownership
begin

text \<open>
  The paths of \<open>main\<close> of \<open>ucp_hello_world.c\<close>: what the labels release and what is live when the
  program ends.
\<close>

section \<open>Labels\<close>

definition hello_owned :: "hello_locals \<Rightarrow> hello_res multiset" where
  "hello_owned l = {#HR_context (hl_context l), HR_worker (hl_worker l)#}"

definition hello_addressed :: "hello_locals \<Rightarrow> hello_res multiset" where
  "hello_addressed l = add_mset HR_address (hello_owned l)"

text \<open>An endpoint was created: the test was run.\<close>

definition connected :: "hello_call list \<Rightarrow> bool" where
  "connected t \<longleftrightarrow> (\<exists>e a. H_ep_create e a \<in> set t)"

lemma connected_simps [simp]: "connected [] = False" "connected (t @ u) = (connected t \<or> connected u)"
  "connected (map H_sock cs) = False"
  "connected (c # t) = (connected t \<or> (\<exists>e a. c = H_ep_create e a))"
  by (auto simp: connected_def)

lemma hello_err_trace:
  "h_trace (snd (hello_err_cleanup l r s)) = h_trace s @ [H_cleanup (hl_context l)]"
  "h_trace (snd (hello_err_worker l r s)) = h_trace s @ [H_worker_destroy (hl_worker l), H_cleanup (hl_context l)]"
  "h_trace (snd (hello_err_addr l r s)) =
     h_trace s @ [H_release_address, H_worker_destroy (hl_worker l), H_cleanup (hl_context l)]"
  "h_trace (snd (hello_err_peer_addr l r s)) =
     h_trace s @ [H_release_address, H_worker_destroy (hl_worker l), H_cleanup (hl_context l)]"
  by (simp_all add: hello_err_cleanup_def hello_err_worker_def hello_err_addr_def hello_err_peer_addr_def)

text \<open>What the program may leave behind: nothing, or the out-of-band socket when no endpoint was made.\<close>

definition leftover :: "'w hello \<Rightarrow> hello_res multiset \<Rightarrow> bool" where
  "leftover s F \<longleftrightarrow> F = {#} \<or> (\<exists>fd\<ge>0. F = {#HR_sock (SR_fd fd)#}) \<and> \<not> connected (h_trace s)"

definition cleans :: "hello_res multiset \<Rightarrow> 'w hello \<Rightarrow> (int \<times> 'w hello) option \<Rightarrow> bool" where
  "cleans P s m \<longleftrightarrow> (\<forall>x s'. m = Some (x, s') \<longrightarrow> (\<exists>F. hello_triple P s s' F \<and> leftover s' F))"

lemma cleans_seq: "hello_triple P s s1 R \<Longrightarrow> cleans R s1 m \<Longrightarrow> cleans P s m"
  unfolding cleans_def by (blast intro: hr.st_trans)

lemma cleans_from: "h_trace s1 = h_trace s \<Longrightarrow> cleans P s1 m \<Longrightarrow> cleans P s m"
  by (rule cleans_seq[OF hr.st_same])

lemma cleans_if: "cleans P s m \<Longrightarrow> cleans P s n \<Longrightarrow> cleans P s (if b then m else n)"
  by simp

lemma cleans_ends: "ends P s m {#} \<Longrightarrow> cleans P s m"
  unfolding ends_def cleans_def leftover_def by blast

lemma cleans_out: "hello_triple P s (snd x) F \<Longrightarrow> leftover (snd x) F \<Longrightarrow> cleans P s (Some x)"
  unfolding cleans_def by auto

lemma cleans_cleanup: "cleans {#HR_context (hl_context l)#} s (Some (hello_err_cleanup l r s))"
  by (intro cleans_ends ends_Some hr.st_release[of "H_cleanup (hl_context l)"]) (simp_all add: hello_err_trace)

lemma cleans_worker: "cleans (hello_owned l) s (Some (hello_err_worker l r s))"
  by (intro cleans_ends ends_Some)
    (auto simp: traced_triple_def res_triple_def hello_err_trace hello_owned_def)

text \<open>The labels after the address was obtained, with the socket still open or not.\<close>

lemma hello_labels_triple:
  "hello_triple (hello_addressed l + F) s (snd (hello_err_addr l r s)) F"
  "hello_triple (hello_addressed l + F) s (snd (hello_err_peer_addr l r s)) F"
  by (auto simp: traced_triple_def res_triple_def hello_err_trace hello_addressed_def hello_owned_def)

definition fd_left :: "int \<Rightarrow> hello_res multiset" where
  "fd_left fd = image_mset HR_sock (fd_res fd)"

lemma leftover_fd: "\<not> connected (h_trace s) \<Longrightarrow> leftover s (fd_left fd)"
  by (simp add: leftover_def fd_left_def fd_res_def)

lemma cleans_labels:
  assumes "\<not> connected (h_trace s)"
  shows "cleans (hello_addressed l + fd_left fd) s (Some (hello_err_addr l r s))"
    and "cleans (hello_addressed l + fd_left fd) s (Some (hello_err_peer_addr l r s))"
  by (rule cleans_out[OF hello_labels_triple(1) leftover_fd], simp add: hello_err_trace assms,
      rule cleans_out[OF hello_labels_triple(2) leftover_fd], simp add: hello_err_trace assms)

section \<open>main\<close>

lemma cleans_test:
  assumes "fd \<ge> 0"
  shows "cleans (hello_addressed l + fd_left fd) s (hello_test fuel api l t fd s)"
proof -
  let ?P = "hello_addressed l + fd_left fd"
  have fin: "ends ?P s1 (let (ret, w) = (if x = 0 then hello_barrier (hp_sock api) fd (h_world s1) else (x, h_world s1));
      s = h_log (H_sock (S_close fd)) (s1\<lparr>h_world := so_close (hp_sock api) fd w\<rparr>)
      in Some (hello_err_peer_addr l ret s)) {#}" for x s1
  proof -
    obtain ret w where b: "(if x = 0 then hello_barrier (hp_sock api) fd (h_world s1) else (x, h_world s1)) = (ret, w)"
      by fastforce
    let ?s = "h_log (H_sock (S_close fd)) (s1\<lparr>h_world := so_close (hp_sock api) fd w\<rparr>)"
    have "hello_triple ?P s1 ?s (hello_addressed l + {#})"
      using assms hr.st_release[of "H_sock (S_close fd)" "HR_sock (SR_fd fd)" ?s s1 "hello_addressed l"]
      by (simp add: fd_left_def fd_res_def)
    from hr.st_trans[OF this hello_labels_triple(2)] b show ?thesis by (auto intro: ends_Some)
  qed
  show ?thesis unfolding hello_test_def Let_def[of "_ :: _ hello"]
    by (rule cleans_ends) (rule ends_bind[OF ends_run_test fin[unfolded Let_def[of "_ :: _ hello"]]])
qed

text \<open>The socket calls of a connection, run after the address was obtained.\<close>

lemma connect_triple:
  assumes "sock_triple {#} cs (fd_res fd)" "h_trace s1 = h_trace s @ map H_sock cs"
  shows "hello_triple P s s1 (P + fd_left fd)"
  using res_triple_embed[of hello_acquires H_sock HR_sock sock_acquires hello_releases sock_releases cs "fd_res fd" P] assms
  by (auto simp: traced_triple_def fd_left_def)

lemma hello_recv_trace: "hello_recv api fd n s = (r, bs, s') \<Longrightarrow> h_trace s' = h_trace s"
  by (auto simp: hello_recv_def split: prod.splits)

lemma hello_send_trace: "hello_send api fd bs s = (r, s') \<Longrightarrow> h_trace s' = h_trace s"
  by (auto simp: hello_send_def split: prod.splits)

lemma cleans_client_address:
  assumes nc: "\<not> connected (h_trace s)"
  shows "cleans (hello_addressed l) s (hello_client_address fuel api l t s)"
proof -
  let ?s0 = "s\<lparr>peer_addr_len := local_addr_len s\<rparr>"
  obtain fd flt cs w where c: "client_connect api t 13337 (h_world ?s0) = (fd, flt, cs, w)" using prod_cases4 by blast
  define s1 where "s1 = (let s = ?s0\<lparr>h_world := w, h_trace := h_trace ?s0 @ map H_sock cs\<rparr> in
    case flt of Some f \<Rightarrow> h_on_heap (raise_fault f) s | None \<Rightarrow> s)"
  have t1: "h_trace s1 = h_trace s @ map H_sock cs" by (simp add: s1_def Let_def split: option.split)
  obtain r2 b2 s2 where r2: "hello_recv api fd 8 s1 = (r2, b2, s2)" using prod_cases3 by blast
  let ?n = "of_le b2"
  obtain p h where a: "c_malloc ?n (h_heap s2) = (p, h)" by fastforce
  define s3 where "s3 = s2\<lparr>h_heap := h, peer_addr_len := ?n, peer_addr := p\<rparr>"
  obtain r4 b4 s4 where r4: "hello_recv api fd ?n s3 = (r4, b4, s4)" using prod_cases3 by blast
  let ?s5 = "h_on_heap (store cpu_kind p b4) s4"
  have tr: "h_trace s2 = h_trace s1" "h_trace s3 = h_trace s1" "h_trace ?s5 = h_trace s1"
    using hello_recv_trace[OF r2] hello_recv_trace[OF r4] by (simp_all add: s3_def)
  have n1: "\<not> connected (h_trace s1)" by (simp add: t1 nc)
  let ?P = "hello_addressed l + fd_left fd"
  let ?m = "if fd < 0 then Some (hello_err_addr l (-1) s1) else if r2 \<noteq> 8 then Some (hello_err_addr l r2 s2)
    else if p = NULLp then Some (hello_err_addr l r2 s3)
    else if r4 \<noteq> c_int (int ?n) then Some (hello_err_peer_addr l r4 ?s5) else hello_test fuel api l (Some t) fd ?s5"
  have "cleans ?P s1 (Some (hello_err_addr l (-1) s1))" "cleans ?P s1 (Some (hello_err_addr l r2 s2))"
    "cleans ?P s1 (Some (hello_err_addr l r2 s3))" "cleans ?P s1 (Some (hello_err_peer_addr l r4 ?s5))"
    by (rule cleans_from[OF _ cleans_labels(1)] cleans_from[OF _ cleans_labels(2)]; simp only: tr n1 not_False_eq_True)+
  moreover have "fd \<ge> 0 \<Longrightarrow> cleans ?P s1 (hello_test fuel api l (Some t) fd ?s5)"
    by (rule cleans_from[OF tr(3) cleans_test])
  ultimately have "cleans ?P s1 ?m" by auto
  moreover have "hello_triple (hello_addressed l) s s1 ?P"
    using client_connect_owns[OF c, of "{#}"] t1 by (intro connect_triple) simp_all
  ultimately have "cleans (hello_addressed l) s ?m" by (rule cleans_seq[rotated])
  moreover have "hello_client_address fuel api l t s = ?m"
    using c r2 a r4 unfolding hello_client_address_def Let_def s3_def s1_def by simp
  ultimately show ?thesis by simp
qed

lemma cleans_server_address:
  assumes nc: "\<not> connected (h_trace s)"
  shows "cleans (hello_addressed l) s (hello_server_address fuel api l s)"
proof -
  obtain fd cs w where c: "server_connect (hp_sock api) 13337 (h_world s) = (fd, cs, w)" using prod_cases3 by blast
  define s1 where "s1 = s\<lparr>h_world := w, h_trace := h_trace s @ map H_sock cs\<rparr>"
  have t1: "h_trace s1 = h_trace s @ map H_sock cs" by (simp add: s1_def)
  obtain r2 s2 where r2: "hello_send api fd (le_bytes 8 (local_addr_len s1)) s1 = (r2, s2)" by fastforce
  obtain bs h where ld: "load cpu_kind (local_addr s2) (local_addr_len s2) (h_heap s2) = (bs, h)" by fastforce
  obtain r3 s3 where r3: "hello_send api fd bs (s2\<lparr>h_heap := h\<rparr>) = (r3, s3)" by fastforce
  have tr: "h_trace s2 = h_trace s1" "h_trace s3 = h_trace s1"
    using hello_send_trace[OF r2] hello_send_trace[OF r3] by simp_all
  have n1: "\<not> connected (h_trace s1)" by (simp add: t1 nc)
  let ?P = "hello_addressed l + fd_left fd"
  let ?m = "if fd < 0 then Some (hello_err_peer_addr l (-1) s1) else if r2 \<noteq> 8 then Some (hello_err_peer_addr l r2 s2)
    else if r3 \<noteq> c_int (int (local_addr_len s3)) then Some (hello_err_peer_addr l r3 s3) else hello_test fuel api l None fd s3"
  have "cleans ?P s1 (Some (hello_err_peer_addr l (-1) s1))" "cleans ?P s1 (Some (hello_err_peer_addr l r2 s2))"
    "cleans ?P s1 (Some (hello_err_peer_addr l r3 s3))"
    by (rule cleans_from[OF _ cleans_labels(2)]; simp only: tr n1 not_False_eq_True)+
  moreover have "fd \<ge> 0 \<Longrightarrow> cleans ?P s1 (hello_test fuel api l None fd s3)"
    by (rule cleans_from[OF tr(2) cleans_test])
  ultimately have "cleans ?P s1 ?m" by auto
  moreover have "hello_triple (hello_addressed l) s s1 ?P"
    using server_connect_owns[OF c, of "{#}"] t1 by (intro connect_triple) simp_all
  ultimately have "cleans (hello_addressed l) s ?m" by (rule cleans_seq[rotated])
  moreover have "hello_server_address fuel api l s = ?m"
    using c r2 ld r3 unfolding hello_server_address_def Let_def s1_def by simp
  ultimately show ?thesis by simp
qed

lemma cleans_fail: "cleans {#} s (Some (r, s))"
  by (rule cleans_ends) (simp add: ends_Some hr.st_refl)

lemma hello_main_cleans:
  assumes nc: "h_trace s = []"
  shows "cleans {#} s (hello_main fuel api argv s)"
proof -
  let ?t = "if length argv = 2 then Some (argv ! 1) else None"
  obtain st1 c w1 where r1: "hp_config_read api (h_world s) = (st1, c, w1)" using prod_cases3 by blast
  obtain st2 x w2 where r2: "hp_init api c w1 = (st2, x, w2)" using prod_cases3 by blast
  obtain st3 k w3 where r3: "hp_worker_create api x w2 = (st3, k, w3)" using prod_cases3 by blast
  obtain st4 a w4 where r4: "hp_get_address api k w3 = (st4, a, w4)" using prod_cases3 by blast
  let ?s1 = "s\<lparr>h_world := w1\<rparr>" and ?l = "\<lparr>hl_context = x, hl_worker = k\<rparr>"
  let ?c1 = "(h_log (H_config_read c) ?s1)\<lparr>h_world := w2\<rparr>"
  define s2 where "s2 = h_log (H_config_release c) (h_log (H_init x) ?c1)"
  define s3 where "s3 = h_log (H_worker_create k) (s2\<lparr>h_world := w3\<rparr>)"
  obtain b h where ld: "lend a (h_heap s3) = (b, h)" by fastforce
  define s4 where "s4 = h_log H_get_address (s3\<lparr>h_world := w4, h_heap := h, local_addr := Addr b 0, local_addr_len := length a\<rparr>)"
  have nc4: "\<not> connected (h_trace s4)" by (simp add: s4_def s3_def s2_def nc)
  let ?m4 = "case ?t of Some t \<Rightarrow> hello_client_address fuel api ?l t s4 | None \<Rightarrow> hello_server_address fuel api ?l s4"
  have m4: "cleans (hello_addressed ?l) s4 ?m4"
    by (cases ?t) (simp_all only: option.case cleans_client_address[OF nc4] cleans_server_address[OF nc4])
  have "hello_triple (hello_owned ?l) s3 s4 (hello_addressed ?l)"
    by (simp add: hello_addressed_def s4_def hr.st_acquire[of H_get_address])
  from cleans_seq[OF this m4] have m3: "cleans (hello_owned ?l) s3
      (if st4 \<noteq> UCS_OK then Some (hello_err_worker ?l (-1) (s3\<lparr>h_world := w4\<rparr>)) else ?m4)"
    by (intro cleans_if cleans_from[OF _ cleans_worker]) simp_all
  let ?m3 = "if st4 \<noteq> UCS_OK then Some (hello_err_worker ?l (-1) (s3\<lparr>h_world := w4\<rparr>)) else ?m4"
  have "hello_triple {#HR_context x#} s2 s3 (hello_owned ?l)"
    by (auto simp: hello_owned_def s3_def traced_triple_def res_triple_def)
  note s23 = cleans_seq[OF this m3]
  have m2: "cleans {#HR_context x#} s2
      (if st3 \<noteq> UCS_OK then Some (hello_err_cleanup ?l (-1) (s2\<lparr>h_world := w3\<rparr>)) else ?m3)" (is "cleans _ _ ?m2")
    by (rule cleans_if[OF _ s23]) (use cleans_from[OF _ cleans_cleanup[of ?l], of "s2\<lparr>h_world := w3\<rparr>" s2] in simp)
  have "hello_triple {#} ?s1 (h_log (H_config_release c) ?c1) {#}" "hello_triple {#} ?s1 s2 {#HR_context x#}"
    by (auto simp: s2_def traced_triple_def res_triple_def)
  note m1 = cleans_if[OF cleans_fail cleans_if[OF cleans_seq[OF this(1) cleans_fail] cleans_seq[OF this(2) m2]]]
  have "cleans {#} ?s1 (if st1 \<noteq> UCS_OK then Some (-1, ?s1)
      else if st2 \<noteq> UCS_OK then Some (-1, h_log (H_config_release c) ?c1) else ?m2)" (is "cleans _ _ ?m1")
    by (rule m1)
  then have m1: "cleans {#} s ?m1" by (rule cleans_from[rotated]) simp
  have "cleans {#} s (if length argv > 2 then Some (0, h_print Out_usage s) else ?m1)"
    by (intro cleans_if m1 cleans_from[OF _ cleans_fail]) simp
  moreover have "hello_main fuel api argv s = (if length argv > 2 then Some (0, h_print Out_usage s) else ?m1)"
    using r1 r2 r3 r4 ld unfolding hello_main_def Let_def s4_def s3_def s2_def h_log_if_def
    by (simp add: h_log_def)
  ultimately show ?thesis by simp
qed

end
