(* ===== verification/Ucp_Messages.thy ===== *)
theory Ucp_Messages
  imports Ucp_Release
begin

text \<open>
  The two messages of \<open>ucp_hello_world.c\<close>: the client's address and the server's text. Both are a
  \<open>struct msg\<close>, a 64-bit length followed by the data, so both are blobs of \<open>Byte_Codec\<close>.
\<close>

section \<open>Building a message in a block\<close>

lemma blob_bytes: "length a < 2 ^ 64 \<Longrightarrow> of_le (take 8 (enc_blob 8 a)) = length a" "drop 8 (enc_blob 8 a) = a"
  "length (enc_blob 8 a) = 8 + length a"
  by (simp_all add: enc_blob_def of_le_le_bytes)

lemma zeroed_blob:
  "length a = n \<Longrightarrow> splice 8 a (splice 0 (le_bytes 8 n) (replicate (8 + n) 0)) = enc_blob 8 a"
  by (simp add: splice_def enc_blob_def)

text \<open>The program starts from a fresh block, clears it, and writes the length and the data.\<close>

lemma client_message:
  assumes wf: "heap_wf h" and a: "blocks h b = Some k" "cpu_kind (b_kind k)" "length (b_bytes k) = n"
    and bs: "length bs = 8 + n"
  defines "msg \<equiv> Addr (next_blk h) 0"
  shows "c_memcpy (ptr_add msg 8) (Addr b 0) n (store cpu_kind msg (le_bytes 8 n)
      (store cpu_kind msg (replicate (8 + n) 0) (grown MHost bs h))) = grown MHost (enc_blob 8 (b_bytes k)) h"
proof -
  have ne: "b \<noteq> next_blk h" using wf a(1) by auto
  have s1: "store cpu_kind msg (replicate (8 + n) 0) (grown MHost bs h) = grown MHost (replicate (8 + n) 0) h"
    using bs by (simp add: msg_def mem_simps splice_all grown_def)
  have s2: "store cpu_kind msg (le_bytes 8 n) (grown MHost (replicate (8 + n) 0) h)
      = grown MHost (splice 0 (le_bytes 8 n) (replicate (8 + n) 0)) h"
    by (simp add: msg_def mem_simps grown_def)
  have "c_memcpy (ptr_add msg 8) (Addr b 0) n (grown MHost (splice 0 (le_bytes 8 n) (replicate (8 + n) 0)) h)
      = grown MHost (enc_blob 8 (b_bytes k)) h"
    using a ne zeroed_blob[OF a(3)] by (simp add: msg_def ptr_add_def mem_simps grown_def)
  with s1 s2 show ?thesis by simp
qed

lemma h_on_heap_simps [simp]:
  "h_on_heap f (s\<lparr>h_heap := h\<rparr>) = s\<lparr>h_heap := f h\<rparr>" "h_heap (h_on_heap f s) = f (h_heap s)"
  "h_heap (h_log c s) = h_heap s" "h_world (h_log c s) = h_world s" "h_heap (h_print x s) = h_heap s"
  by (simp_all add: h_on_heap_def h_log_def h_print_def)

section \<open>The client's address\<close>

text \<open>What a finished computation added to the trace.\<close>

lemma ends_trace: "ends P s m Q \<Longrightarrow> m = Some (x, s') \<Longrightarrow> \<exists>t. h_trace s' = h_trace s @ t"
  unfolding ends_def traced_triple_def by blast

lemma h_tag_send_bytes:
  assumes "load any_kind msg n (h_heap s) = (bs, h_heap s)"
  shows "\<exists>req s'. h_tag_send api ep msg n s = (req, s') \<and> h_trace s' = h_trace s @ [H_send ep bs 0x1337a880 req]"
  using assms by (simp add: h_tag_send_def Let_def split_beta)

lemma run_ucx_client_sends:
  assumes wf: "heap_wf (h_heap s)" "\<not> oom (h_heap s) (attempts (h_heap s))"
    and a: "local_addr s = Addr b 0" "blocks (h_heap s) b = Some k" "cpu_kind (b_kind k)"
    and n: "local_addr_len s = length (b_bytes k)" "8 + length (b_bytes k) < 2 ^ 64"
    and c: "hp_ep_create api wk (h_addr (peer_addr s) s) (h_world s) = (UCS_OK, ep, w)"
    and r: "run_ucx_client fuel api wk s = Some (ret, s')"
  shows "\<exists>req t. h_trace s' = h_trace s @
     [H_ep_create ep (h_addr (peer_addr s) s), H_send ep (enc_blob 8 (b_bytes k)) 0x1337a880 req] @ t"
proof -
  let ?a = "h_addr (peer_addr s) s" let ?h = "h_heap s" let ?n = "length (b_bytes k)" let ?msg = "Addr (next_blk ?h) 0"
  let ?g = "grown MHost (enc_blob 8 (b_bytes k)) ?h"
  have st: "size_t (8 + int ?n) = 8 + ?n" using n(2) by simp
  let ?s2 = "(h_log (H_ep_create ep ?a) (s\<lparr>h_world := w\<rparr>))\<lparr>h_heap := ?g, h_ctx := Some False\<rparr>"
  have "load any_kind ?msg (8 + ?n) (h_heap ?s2) = (enc_blob 8 (b_bytes k), h_heap ?s2)"
    by (simp add: load_ok mem_simps blob_bytes)
  from h_tag_send_bytes[OF this, of api ep] obtain req s3 where sd: "h_tag_send api ep ?msg (8 + ?n) ?s2 = (req, s3)"
    and t3: "h_trace s3 = h_trace ?s2 @ [H_send ep (enc_blob 8 (b_bytes k)) 0x1337a880 req]" by blast
  have "run_ucx_client fuel api wk s = client_tail fuel api wk ep ?msg req s3"
    using c wf(2) a(1) n(1) st sd client_message[OF wf(1) a(2,3) refl, of "junk_bytes (8 + ?n) ?h"]
    by (simp add: run_ucx_client_def h_log_if_def h_log_def c_malloc_cases)
  with r have "client_tail fuel api wk ep ?msg req s3 = Some (ret, s')" by simp
  from ends_trace[OF ends_client_tail this] t3 show ?thesis by auto
qed

text \<open>The server, with the message in a block of its own.\<close>

lemma server_decodes:
  assumes wf: "heap_wf (h_heap s)" "\<not> oom (h_heap s) (attempts (h_heap s))"
    and m: "blocks (h_heap s) b = Some \<lparr>b_kind = MHost, b_bytes = enc_blob 8 a\<rparr>" "length a < 2 ^ 64"
    and c: "hp_ep_create api wk a (h_world s) = (st, ep, w)"
  shows "\<exists>s1. peer_addr s1 = Addr (next_blk (h_heap s)) 0 \<and> peer_addr_len s1 = length a \<and>
     h_heap s1 = (grown MHost a (h_heap s))\<lparr>blocks := (blocks (grown MHost a (h_heap s)))(b := None)\<rparr> \<and>
     h_world s1 = w \<and>
     (if st = UCS_OK
      then h_trace s1 = h_trace s @ [H_ep_create ep a] \<and>
           server_connect_back fuel api wk (Addr b 0) s = server_send fuel api wk ep (Addr b 0) s1
      else h_trace s1 = h_trace s \<and> server_connect_back fuel api wk (Addr b 0) s = Some (-1, s1))"
proof -
  let ?h = "h_heap s" let ?p = "Addr (next_blk ?h) 0"
  have ne: "b \<noteq> next_blk ?h" using wf(1) m(1) by auto
  have ld: "load cpu_kind (Addr b 0) 8 ?h = (take 8 (enc_blob 8 a), ?h)"
    using m by (simp add: load_ok mem_simps blob_bytes)
  have cp: "c_memcpy ?p (ptr_add (Addr b 0) 8) (length a) (grown MHost (junk_bytes (length a) ?h) ?h) = grown MHost a ?h"
    using m(1) ne by (simp add: ptr_add_def mem_simps blob_bytes splice_all grown_def)
  let ?g = "(grown MHost a ?h)\<lparr>blocks := (blocks (grown MHost a ?h))(b := None)\<rparr>"
  have fr: "c_free (Addr b 0) (grown MHost a ?h) = ?g"
    using m(1) ne by (simp add: c_free_block)
  have ad: "h_heap u = ?g \<Longrightarrow> h_addr ?p u = a" for u :: "'a hello"
    using ne by (simp add: h_addr_def)
  let ?s1 = "h_log_if (st = UCS_OK) (H_ep_create ep a) (s\<lparr>peer_addr_len := length a, peer_addr := ?p, h_heap := ?g, h_world := w\<rparr>)"
  have "server_connect_back fuel api wk (Addr b 0) s =
      (if st \<noteq> UCS_OK then Some (-1, ?s1) else server_send fuel api wk ep (Addr b 0) ?s1)"
    using ld blob_bytes(1)[OF m(2)] wf(2) cp fr ad c
    unfolding server_connect_back_def Let_def by (simp add: c_malloc_cases h_on_heap_def)
  then show ?thesis by (intro exI[of _ ?s1]) (simp add: h_log_if_def h_log_def)
qed

section \<open>The server's text\<close>

lemma text_message:
  assumes wf: "heap_wf h" "\<forall>i. \<not> oom h i"
  defines "msg \<equiv> Addr (next_blk h) 0"
  shows "\<exists>h'. ucp_generate_test_string (ptr_add msg 8) (int 16) (set_msg_data_len msg 16 (store any_kind msg (replicate 24 0)
      (grown MManaged (junk_bytes 24 h) h))) = (0, h') \<and>
     blocks h' (next_blk h) = Some \<lparr>b_kind = MManaged, b_bytes = enc_blob 8 (test_pattern 16 0)\<rparr> \<and> fault h' = fault h"
proof -
  let ?g = "grown MManaged (splice 0 (le_bytes 8 16) (replicate 24 0)) h"
  have "set_msg_data_len msg 16 (store any_kind msg (replicate 24 0) (grown MManaged (junk_bytes 24 h) h)) = ?g"
    unfolding set_msg_data_len_def by (simp add: msg_def mem_simps splice_all grown_def)
  moreover have "ucp_generate_test_string (Addr (next_blk h) 8) (int 16) ?g = (0, with_string (next_blk h) 8 (test_pattern 16 0)
      \<lparr>b_kind = MManaged, b_bytes = splice 0 (le_bytes 8 16) (replicate 24 0)\<rparr> ?g)"
    using wf by (intro ucp_generate_test_string_ok) simp_all
  ultimately show ?thesis
    using zeroed_blob[of "test_pattern 16 0" 16] by (simp add: with_string_def msg_def ptr_add_def)
qed

lemma server_send_sends:
  assumes wf: "heap_wf (h_heap s)" "\<forall>i. \<not> oom (h_heap s) i" and r: "server_send fuel api wk ep old s = Some (ret, s')"
  shows "\<exists>req t. h_trace s' = h_trace s @ H_send ep (enc_blob 8 (test_pattern 16 0)) 0x1337a880 req # t"
proof -
  let ?msg = "Addr (next_blk (h_heap s)) 0"
  from text_message[OF wf] obtain h' where
    g: "ucp_generate_test_string (ptr_add ?msg 8) (int 16) (set_msg_data_len ?msg 16 (store any_kind ?msg (replicate 24 0)
      (grown MManaged (junk_bytes 24 (h_heap s)) (h_heap s)))) = (0, h')"
    and k: "blocks h' (next_blk (h_heap s)) = Some \<lparr>b_kind = MManaged, b_bytes = enc_blob 8 (test_pattern 16 0)\<rparr>" by blast
  let ?s2 = "s\<lparr>h_heap := h', h_ctx := Some False\<rparr>"
  have "load any_kind ?msg 24 (h_heap ?s2) = (enc_blob 8 (test_pattern 16 0), h_heap ?s2)"
    using k by (simp add: load_ok mem_simps blob_bytes)
  from h_tag_send_bytes[OF this, of api ep] obtain req s3 where sd: "h_tag_send api ep ?msg 24 ?s2 = (req, s3)"
    and t3: "h_trace s3 = h_trace s @ [H_send ep (enc_blob 8 (test_pattern 16 0)) 0x1337a880 req]" by auto
  let ?s4 = "if UCS_PTR_IS_PTR req then h_print Out_scheduled s3 else s3"
  have "server_send fuel api wk ep old s = server_tail fuel api wk ep ?msg req ?s4"
    using wf(2) g sd unfolding server_send_def server_tail_def Let_def by (simp add: cuda_malloc_cases)
  with r have "server_tail fuel api wk ep ?msg req ?s4 = Some (ret, s')" by simp
  from ends_trace[OF ends_server_tail this] t3 show ?thesis by (auto split: if_splits)
qed

text \<open>The client, with the message in managed memory.\<close>

lemma client_prints:
  assumes wf: "heap_wf (h_heap s)" "\<not> oom (h_heap s) (attempts (h_heap s))"
    and m: "blocks (h_heap s) b = Some \<lparr>b_kind = MManaged, b_bytes = enc_blob 8 (test_pattern 16 0)\<rparr>"
  shows "\<exists>s'. client_print (Addr b 0) ep s = Some (0, s') \<and> h_out s' = h_out s @ [Out_text (map test_char [0..<15])] \<and>
     blocks (h_heap s') = (blocks (h_heap s))(b := None) \<and> fault (h_heap s') = fault (h_heap s) \<and>
     h_trace s' = h_trace s @ [H_ep_destroy ep]"
proof -
  let ?h = "h_heap s" let ?p = "Addr (next_blk ?h) 0" let ?t = "test_pattern 16 0"
  have ne: "b \<noteq> next_blk ?h" using wf(1) m by auto
  have cp: "cuda_memcpy ?p (ptr_add (Addr b 0) 8) 16 (grown MHost (replicate 16 0) ?h) = grown MHost ?t ?h"
    using m ne by (simp add: ptr_add_def mem_simps blob_bytes splice_all grown_def)
  have "0 \<in> set ?t" by (simp add: test_pattern_def)
  then have str: "c_string ?p (grown MHost ?t ?h) = (map test_char [0..<15], grown MHost ?t ?h)"
    using takeWhile_pattern[of 16] by (simp add: c_string_def Let_def)
  have fr: "c_free ?p (grown MHost ?t ?h) = ?h\<lparr>attempts := Suc (attempts ?h), next_blk := Suc (next_blk ?h)\<rparr>"
    using wf(1) by (simp add: c_free_block) (simp add: grown_def fun_upd_idem)
  show ?thesis
    using wf(2) cp str fr m by (simp add: client_print_def c_calloc_cases err_ep_def cuda_free_block h_print_def h_on_heap_def h_log_def)
qed

end
