(* ===== verification/Ucp_Leak.thy ===== *)
theory Ucp_Leak
  imports Ucp_Main
begin

text \<open>
  Memory of a whole run of \<open>ucp_hello_world.c\<close>: which blocks are allocated at each point, for any
  behaviour of the library, as long as no allocation fails.
\<close>

section \<open>Blocks in use\<close>

text \<open>The heap \<open>h\<close> has the blocks of \<open>h0\<close> and, besides, exactly those of \<open>B\<close>.\<close>

definition owns :: "heap \<Rightarrow> (nat \<rightharpoonup> mem_kind \<times> nat) \<Rightarrow> heap \<Rightarrow> bool" where
  "owns h0 B h \<longleftrightarrow> heap_wf h \<and> (\<forall>i. \<not> oom h i) \<and> dom B \<inter> dom (shape h0) = {} \<and> shape h = shape h0 ++ B"

lemma owns_start: "heap_wf h \<Longrightarrow> (\<forall>i. \<not> oom h i) \<Longrightarrow> owns h Map.empty h"
  by (simp add: owns_def)

lemma owns_same:
  "owns h0 B h \<Longrightarrow> shape h' = shape h \<Longrightarrow> next_blk h' = next_blk h \<Longrightarrow> oom h' = oom h \<Longrightarrow> owns h0 B h'"
  using heap_wf_shape[of h' h] by (simp add: owns_def)

lemma owns_new:
  assumes "owns h0 B h" "b = next_blk h" "oom h' = oom h" "heap_wf h'" "shape h' = (shape h)(b \<mapsto> x)"
  shows "B b = None \<and> owns h0 (B(b \<mapsto> x)) h'"
proof -
  have "heap_wf h" using assms(1) by (simp add: owns_def)
  then have "shape h b = None" using assms(2) by (simp add: shape_def)
  then have "B b = None" "shape h0 b = None" using assms(1) by (auto simp: owns_def map_add_None)
  with assms show ?thesis by (auto simp: owns_def)
qed

lemma shape_grown: "shape (grown knd bs h) = (shape h)(next_blk h \<mapsto> (knd, length bs))"
  by (simp add: shape_def fun_eq_iff)

lemma owns_grown: "owns h0 B h \<Longrightarrow> B (next_blk h) = None \<and> owns h0 (B(next_blk h \<mapsto> (knd, length bs))) (grown knd bs h)"
  by (rule owns_new) (auto simp: shape_grown owns_def)

lemma owns_alloc:
  assumes "owns h0 B h"
  shows "c_malloc n h = (p, h') \<Longrightarrow> \<exists>b. p = Addr b 0 \<and> B b = None \<and> owns h0 (B(b \<mapsto> (MHost, n))) h'"
    and "c_calloc n h = (p, h') \<Longrightarrow> \<exists>b. p = Addr b 0 \<and> B b = None \<and> owns h0 (B(b \<mapsto> (MHost, n))) h'"
    and "cuda_malloc MManaged old n h = (p, h') \<Longrightarrow> \<exists>b. p = Addr b 0 \<and> B b = None \<and> owns h0 (B(b \<mapsto> (MManaged, n))) h'"
  using owns_grown[OF assms, of _ "junk_bytes n h"] owns_grown[OF assms, of _ "replicate n 0"] assms
  by (auto simp: c_malloc_cases c_calloc_cases cuda_malloc_cases owns_def)

lemma owns_lend:
  assumes "owns h0 B h" "lend bs h = (b, h')"
  shows "B b = None \<and> owns h0 (B(b \<mapsto> (MLib, length bs))) h'"
proof (rule owns_new[OF assms(1)])
  have wf: "heap_wf h" using assms(1) by (simp add: owns_def)
  show "b = next_blk h" "oom h' = oom h" using assms(2) by (auto simp: lend_def)
  show "heap_wf h'" using wf assms(2) by (fastforce simp: lend_def heap_wf_def intro: less_SucI split: if_splits)
  show "shape h' = (shape h)(b \<mapsto> (MLib, length bs))" using assms(2) by (auto simp: lend_def shape_def fun_eq_iff)
qed

lemma owns_block:
  assumes "owns h0 B h" "B b = Some (knd, n)"
  shows "\<exists>k. blocks h b = Some k \<and> b_kind k = knd"
proof -
  have "shape h b = Some (knd, n)" using assms by (simp add: owns_def map_add_def)
  then show ?thesis by (auto simp: shape_def)
qed

lemma owns_drop:
  assumes "owns h0 B h" "B b = Some x"
  shows "owns h0 (B(b := None)) (h\<lparr>blocks := (blocks h)(b := None)\<rparr>)"
proof -
  have "shape h0 b = None" using assms by (auto simp: owns_def)
  then have "shape (h\<lparr>blocks := (blocks h)(b := None)\<rparr>) = shape h0 ++ B(b := None)"
    using assms(1) by (auto simp: owns_def shape_def fun_eq_iff map_add_def split: option.splits)
  with assms show ?thesis by (auto simp: owns_def heap_wf_def)
qed

lemma owns_free:
  assumes "owns h0 B h"
  shows "B b = Some (MHost, n) \<Longrightarrow> owns h0 (B(b := None)) (c_free (Addr b 0) h)"
    and "B b = Some (MManaged, n) \<Longrightarrow> owns h0 (B(b := None)) (cuda_free (Addr b 0) h)"
    and "B b = Some (MLib, n) \<Longrightarrow> owns h0 (B(b := None)) (reclaim (Addr b 0) h)"
  using owns_block[OF assms] owns_drop[OF assms, of b]
  by (fastforce simp: c_free_def cuda_free_def reclaim_def release_block_def)+

lemma free_managed_faults:
  assumes "owns h0 B h" "B b = Some (MManaged, n)"
  shows "faulted (c_free (Addr b 0) h)"
  using owns_block[OF assms] by (auto simp: c_free_def release_block_def)

lemma reclaim_faulted [simp]: "faulted h \<Longrightarrow> faulted (reclaim p h)"
  by (auto simp: reclaim_def release_block_def faulted_def raise_fault_def split: ptr.splits option.splits)

section \<open>Steps that leave the blocks alone\<close>

definition hmem :: "heap \<Rightarrow> (nat \<rightharpoonup> mem_kind \<times> nat) \<Rightarrow> ptr \<Rightarrow> ptr \<Rightarrow> 'w hello \<Rightarrow> bool" where
  "hmem h0 B la pa s \<longleftrightarrow> owns h0 B (h_heap s) \<and> local_addr s = la \<and> peer_addr s = pa"

lemma hmem_on_heap [simp]:
  "(\<And>h. shape (f h) = shape h) \<Longrightarrow> (\<And>h. next_blk (f h) = next_blk h) \<Longrightarrow> (\<And>h. oom (f h) = oom h) \<Longrightarrow>
     hmem h0 B la pa s \<Longrightarrow> hmem h0 B la pa (h_on_heap f s)"
  by (auto simp: hmem_def h_on_heap_def intro: owns_same)

lemma hmem_fields [simp]:
  "hmem h0 B la pa (s\<lparr>h_world := w\<rparr>) = hmem h0 B la pa s" "hmem h0 B la pa (s\<lparr>h_req := r\<rparr>) = hmem h0 B la pa s"
  "hmem h0 B la pa (s\<lparr>h_ctx := c\<rparr>) = hmem h0 B la pa s" "hmem h0 B la pa (s\<lparr>h_trace := t\<rparr>) = hmem h0 B la pa s"
  "hmem h0 B la pa (s\<lparr>h_out := u\<rparr>) = hmem h0 B la pa s" "hmem h0 B la pa (s\<lparr>peer_addr_len := n\<rparr>) = hmem h0 B la pa s"
  "hmem h0 B la pa (h_log c' s) = hmem h0 B la pa s" "hmem h0 B la pa (h_log_if b c' s) = hmem h0 B la pa s"
  "hmem h0 B la pa (h_print x s) = hmem h0 B la pa s" "hmem h0 B la pa (h_request_release q s) = hmem h0 B la pa s"
  by (simp_all add: hmem_def h_log_def h_log_if_def h_print_def h_request_release_def)

lemma hmem_dispatch: "hmem h0 B la pa s \<Longrightarrow> hmem h0 B la pa (h_dispatch e s)"
  by (cases e) (auto simp: send_handler_def recv_handler_def request_init_def flush_callback_def split: option.splits)

lemma hmem_dispatch_all [simp]: "hmem h0 B la pa s \<Longrightarrow> hmem h0 B la pa (h_dispatch_all evs s)"
  unfolding h_dispatch_all_def by (induction evs arbitrary: s) (auto intro: hmem_dispatch)

lemma hmem_progress [simp]: "hmem h0 B la pa s \<Longrightarrow> hmem h0 B la pa (h_worker_progress api wk s)"
  by (simp add: h_worker_progress_def split_beta)

lemma hmem_probe [simp]: "hmem h0 B la pa (snd (h_probe api wk s)) = hmem h0 B la pa s"
  by (simp add: h_probe_def split_beta)

lemma hmem_wait: "ucx_wait fuel api wk c s = Some s' \<Longrightarrow> hmem h0 B la pa s \<Longrightarrow> hmem h0 B la pa s'"
  unfolding ucx_wait_def by (erule spin_inv) simp_all

lemma hmem_poll:
  "poll_until fuel body again s = Some (x, s') \<Longrightarrow> hmem h0 B la pa s \<Longrightarrow>
     (\<And>u. hmem h0 B la pa u \<Longrightarrow> hmem h0 B la pa (snd (body u))) \<Longrightarrow> hmem h0 B la pa s'"
  by (erule poll_until_inv)

lemma hmem_recv_finish: "recv_finish fuel api wk r s = Some s' \<Longrightarrow> hmem h0 B la pa s \<Longrightarrow> hmem h0 B la pa s'"
  by (auto simp: recv_finish_def split: bind_splits dest: hmem_wait)

lemma hmem_send_finish: "send_finish fuel api wk r s = Some (b, s') \<Longrightarrow> hmem h0 B la pa s \<Longrightarrow> hmem h0 B la pa s'"
  by (auto simp: send_finish_def split: bind_splits ucs_ptr.splits dest: hmem_wait)

lemma hmem_flush: "flush_ep fuel api wk ep s = Some (st, s') \<Longrightarrow> hmem h0 B la pa s \<Longrightarrow> hmem h0 B la pa s'"
  by (auto simp: flush_ep_def Let_def split_beta split: bind_splits ucs_ptr.splits elim!: hmem_poll)

lemma hmem_load: "load ok p n h = (bs, h') \<Longrightarrow> owns h0 B h \<Longrightarrow> owns h0 B h'"
  by (auto simp: load_def intro: owns_same split: option.splits)

lemma hmem_tag_send: "h_tag_send api ep msg len s = (r, s') \<Longrightarrow> hmem h0 B la pa s \<Longrightarrow> hmem h0 B la pa s'"
proof -
  assume r: "h_tag_send api ep msg len s = (r, s')" and h: "hmem h0 B la pa s"
  obtain bs h where l: "load any_kind msg len (h_heap s) = (bs, h)" by fastforce
  have "hmem h0 B la pa (s\<lparr>h_heap := h\<rparr>)" using h hmem_load[OF l] by (simp add: hmem_def)
  then have "hmem h0 B la pa (s\<lparr>h_heap := h, h_world := w\<rparr>)" for w by (simp add: hmem_def)
  with r l show ?thesis by (auto simp: h_tag_send_def split_beta)
qed

lemma hmem_msg_recv: "h_msg_recv api wk msg len tg s = (r, s') \<Longrightarrow> hmem h0 B la pa s \<Longrightarrow> hmem h0 B la pa s'"
  by (auto simp: h_msg_recv_def split_beta)

lemma hmem_err_ep: "err_ep ep ret s = Some (r, s') \<Longrightarrow> hmem h0 B la pa s \<Longrightarrow> hmem h0 B la pa s'"
  by (auto simp: err_ep_def)

section \<open>Allocation and release in the state\<close>

lemma hmem_alloc:
  assumes "hmem h0 B la pa s"
  shows "c_malloc n (h_heap s) = (p, h) \<Longrightarrow> \<exists>b. p = Addr b 0 \<and> B b = None \<and> hmem h0 (B(b \<mapsto> (MHost, n))) la pa (s\<lparr>h_heap := h\<rparr>)"
    and "c_calloc n (h_heap s) = (p, h) \<Longrightarrow> \<exists>b. p = Addr b 0 \<and> B b = None \<and> hmem h0 (B(b \<mapsto> (MHost, n))) la pa (s\<lparr>h_heap := h\<rparr>)"
    and "cuda_malloc MManaged old n (h_heap s) = (p, h) \<Longrightarrow>
      \<exists>b. p = Addr b 0 \<and> B b = None \<and> hmem h0 (B(b \<mapsto> (MManaged, n))) la pa (s\<lparr>h_heap := h\<rparr>)"
  using assms owns_alloc[of h0 B "h_heap s"] by (simp_all add: hmem_def)

lemma hmem_free:
  assumes "hmem h0 (B(b \<mapsto> (knd, n))) la pa s" "B b = None"
  shows "knd = MHost \<Longrightarrow> hmem h0 B la pa (h_on_heap (c_free (Addr b 0)) s)"
    and "knd = MManaged \<Longrightarrow> hmem h0 B la pa (h_on_heap (cuda_free (Addr b 0)) s)"
    and "knd = MLib \<Longrightarrow> hmem h0 B la pa (h_on_heap (reclaim (Addr b 0)) s)"
proof -
  have "(B(b \<mapsto> (knd, n)))(b := None) = B" using assms(2) by (simp add: fun_upd_idem)
  with assms(1) owns_free[of h0 "B(b \<mapsto> (knd, n))" "h_heap s" b n]
  show "knd = MHost \<Longrightarrow> hmem h0 B la pa (h_on_heap (c_free (Addr b 0)) s)"
    "knd = MManaged \<Longrightarrow> hmem h0 B la pa (h_on_heap (cuda_free (Addr b 0)) s)"
    "knd = MLib \<Longrightarrow> hmem h0 B la pa (h_on_heap (reclaim (Addr b 0)) s)"
    by (simp_all add: hmem_def h_on_heap_def)
qed

section \<open>Client\<close>

lemma client_print_mem:
  assumes "client_print (Addr m 0) ep s = Some (ret, s')" "hmem h0 (B(m \<mapsto> (MManaged, n))) la pa s" "B m = None"
  shows "hmem h0 B la pa s'"
proof -
  let ?B = "B(m \<mapsto> (MManaged, n))"
  obtain p h where c: "c_calloc hello_strlen (h_heap s) = (p, h)" by fastforce
  from hmem_alloc(2)[OF assms(2) c] obtain b where b: "p = Addr b 0" "?B b = None"
    "hmem h0 (?B(b \<mapsto> (MHost, hello_strlen))) la pa (s\<lparr>h_heap := h\<rparr>)" by blast
  let ?s1 = "h_on_heap (cuda_memcpy p (ptr_add (Addr m 0) msg_size) hello_strlen) (s\<lparr>h_heap := h\<rparr>)"
  obtain t g where t: "c_string p (h_heap ?s1) = (t, g)" by fastforce
  have g: "shape g = shape (h_heap ?s1)" "next_blk g = next_blk (h_heap ?s1)" "oom g = oom (h_heap ?s1)"
    using t by (auto simp: c_string_def Let_def split: ptr.splits option.splits if_splits)
  have "hmem h0 (?B(b \<mapsto> (MHost, hello_strlen))) la pa ?s1" using b(3) by (intro hmem_on_heap) simp_all
  then have "hmem h0 (?B(b \<mapsto> (MHost, hello_strlen))) la pa (?s1\<lparr>h_heap := g\<rparr>)"
    using g by (auto simp: hmem_def intro: owns_same)
  then have "hmem h0 (?B(b \<mapsto> (MHost, hello_strlen))) la pa (h_print (Out_text t) (?s1\<lparr>h_heap := g\<rparr>))" by simp
  note hmem_free(1)[OF this b(2) refl]
  from hmem_free(2)[OF this assms(3) refl] show ?thesis
    using assms(1) c t b(1) by (auto simp: client_print_def Let_def dest: hmem_err_ep)
qed

lemma client_receive_mem:
  assumes "client_receive fuel api wk ep old s = Some (ret, s')" "hmem h0 B la pa s"
  shows "faulted (h_heap s') \<or> hmem h0 B la pa s'"
proof -
  let ?body = "\<lambda>s. let (m, s) = h_probe api wk s in (m, if m = None then h_worker_progress api wk s else s)"
  from assms(1) obtain tg len s1 where p: "poll_until fuel ?body (\<lambda>m. m = None) s = Some (Some (tg, len), s1)"
    by (auto simp: client_receive_def split: bind_splits)
  have b: "hmem h0 B la pa (snd (?body u))" if "hmem h0 B la pa u" for u
    using that hmem_probe[of h0 B la pa api wk u] by (auto simp: split_beta Let_def)
  have s1: "hmem h0 B la pa s1" by (rule hmem_poll[OF p assms(2) b])
  obtain q h where m: "cuda_malloc MManaged old len (h_heap s1) = (q, h)" by fastforce
  from hmem_alloc(3)[OF s1 m] obtain b where b: "q = Addr b 0" "B b = None"
    "hmem h0 (B(b \<mapsto> (MManaged, len))) la pa (s1\<lparr>h_heap := h\<rparr>)" by blast
  obtain r s2 where r: "h_msg_recv api wk q len tg (s1\<lparr>h_heap := h\<rparr>) = (r, s2)" by fastforce
  note s2 = hmem_msg_recv[OF r b(3)]
  show ?thesis
  proof (cases r)
    case Ptr_NULL
    with assms(1) p m b(1) r show ?thesis by (auto simp: client_receive_def err_ep_def h_on_heap_def h_log_def)
  next
    case (Ptr_ERR st)
    have "faulted (c_free q (h_heap s2))" using s2 b(1) free_managed_faults by (fastforce simp: hmem_def)
    with assms(1) p m b(1) r Ptr_ERR show ?thesis by (auto simp: client_receive_def err_ep_def h_on_heap_def h_log_def)
  next
    case (Ptr_REQ i)
    with assms(1) p m b(1) r obtain s3 where "recv_finish fuel api wk i s2 = Some s3" "client_print (Addr b 0) ep s3 = Some (ret, s')"
      by (auto simp: client_receive_def split: bind_splits)
    with client_print_mem hmem_recv_finish[OF _ s2] b(2) show ?thesis by blast
  qed
qed

lemma run_client_mem:
  assumes "run_ucx_client fuel api wk s = Some (ret, s')" "hmem h0 B la pa s"
  shows "faulted (h_heap s') \<or> hmem h0 B la pa s'"
proof -
  let ?a = "h_addr (peer_addr s) s" and ?n = "size_t (int msg_size + int (local_addr_len s))"
  obtain st ep w where e: "hp_ep_create api wk ?a (h_world s) = (st, ep, w)" using prod_cases3 by blast
  let ?s1 = "h_log_if (st = UCS_OK) (H_ep_create ep ?a) (s\<lparr>h_world := w\<rparr>)"
  have s1: "hmem h0 B la pa ?s1" using assms(2) by simp
  show ?thesis
  proof (cases "st = UCS_OK")
    case False
    with assms e show ?thesis by (auto simp: run_ucx_client_def Let_def)
  next
    case True
    obtain q h where m: "c_malloc ?n (h_heap ?s1) = (q, h)" by fastforce
    from hmem_alloc(1)[OF s1 m] obtain b where b: "q = Addr b 0" "B b = None"
      "hmem h0 (B(b \<mapsto> (MHost, ?n))) la pa (?s1\<lparr>h_heap := h\<rparr>)" by blast
    let ?s2 = "h_on_heap (c_memcpy (ptr_add q msg_size) (local_addr s) (local_addr_len s))
      (h_on_heap (store cpu_kind q (le_bytes 8 (local_addr_len s))) (h_on_heap (store cpu_kind q (replicate ?n 0)) (?s1\<lparr>h_heap := h\<rparr>)))"
    have s2: "hmem h0 (B(b \<mapsto> (MHost, ?n))) la pa (?s2\<lparr>h_ctx := Some False\<rparr>)" using b(3) by simp
    obtain r s3 where r: "h_tag_send api ep q ?n (?s2\<lparr>h_ctx := Some False\<rparr>) = (r, s3)" by fastforce
    have la: "local_addr ?s2 = local_addr s" "local_addr_len ?s1 = local_addr_len s" "local_addr_len (s\<lparr>h_heap := x\<rparr>) = local_addr_len s" for x
      by (simp_all add: h_on_heap_def h_log_if_def h_log_def)
    from assms(1) e True m r obtain sent s4 where sf: "send_finish fuel api wk r s3 = Some (sent, s4)"
      and fin: "(if \<not> sent then err_ep ep (-1) (h_on_heap (c_free q) s4)
        else client_receive fuel api wk ep q (h_on_heap (c_free q) s4)) = Some (ret, s')"
      using b(1) by (auto simp: run_ucx_client_def Let_def h_log_if_def h_log_def h_on_heap_def split: bind_splits if_splits)
    have "hmem h0 (B(b \<mapsto> (MHost, ?n))) la pa s4" using sf hmem_tag_send[OF r s2] by (rule hmem_send_finish)
    from hmem_free(1)[OF this b(2) refl] have "hmem h0 B la pa (h_on_heap (c_free q) s4)" unfolding b(1) .
    with fin show ?thesis by (cases sent) (auto dest: client_receive_mem hmem_err_ep)
  qed
qed

section \<open>Server\<close>

lemma test_string_mem:
  assumes "ucp_generate_test_string p sz h = (ret, h')" "owns h0 B h"
  shows "owns h0 B h'"
proof -
  obtain q g where c: "c_calloc (size_t sz) h = (q, g)" by fastforce
  from owns_alloc(2)[OF assms(2) c] obtain b where b: "q = Addr b 0" "B b = None" "owns h0 (B(b \<mapsto> (MHost, size_t sz))) g" by blast
  let ?B = "B(b \<mapsto> (MHost, size_t sz))"
  let ?g1 = "if sz = - (2 ^ 31) then raise_fault SignedOverflow g else fill_pattern (nat (sz - 1)) 0 q g"
  have "owns h0 ?B ?g1" using b(3) by (auto intro: owns_same simp: fill_pattern_shape)
  then have "owns h0 ?B (cuda_memcpy p q (size_t sz) ?g1)" by (rule owns_same) simp_all
  from owns_free(1)[OF this, of b "size_t sz"] have "owns h0 B (c_free q (cuda_memcpy p q (size_t sz) ?g1))"
    using b(1,2) by (simp add: fun_upd_idem)
  with assms(1) c b(1) show ?thesis by (auto simp: ucp_generate_test_string_def Let_def)
qed

lemma server_send_mem:
  assumes "server_send fuel api wk ep old s = Some (ret, s')" "hmem h0 B la pa s"
  shows "hmem h0 B la pa s'"
proof -
  let ?n = "msg_size + hello_strlen"
  obtain q h where m: "cuda_malloc MManaged old ?n (h_heap s) = (q, h)" by fastforce
  from hmem_alloc(3)[OF assms(2) m] obtain b where b: "q = Addr b 0" "B b = None"
    "hmem h0 (B(b \<mapsto> (MManaged, ?n))) la pa (s\<lparr>h_heap := h\<rparr>)" by blast
  let ?B = "B(b \<mapsto> (MManaged, ?n))"
  let ?s1 = "h_on_heap (set_msg_data_len q (?n - msg_size)) (h_on_heap (store any_kind q (replicate ?n 0)) (s\<lparr>h_heap := h\<rparr>))"
  have s1: "hmem h0 ?B la pa ?s1" unfolding set_msg_data_len_def using b(3) by (intro hmem_on_heap) simp_all
  obtain r g where g: "ucp_generate_test_string (ptr_add q msg_size) (int hello_strlen) (h_heap ?s1) = (r, g)" by fastforce
  let ?s2 = "?s1\<lparr>h_heap := g\<rparr>"
  have s2: "hmem h0 ?B la pa ?s2" using s1 test_string_mem[OF g] by (simp add: hmem_def)
  have free: "hmem h0 B la pa (h_on_heap (cuda_free q) u)" if "hmem h0 ?B la pa u" for u :: "'a hello"
    unfolding b(1) using hmem_free(2)[OF that b(2) refl] .
  show ?thesis
  proof (cases "r < 0")
    case True
    with assms(1) m g b(1) have "err_ep ep r (h_on_heap (cuda_free q) ?s2) = Some (ret, s')"
      by (simp add: server_send_def Let_def)
    then show ?thesis using free[OF s2] by (rule hmem_err_ep)
  next
    case False
    obtain t s3 where t: "h_tag_send api ep q ?n (?s2\<lparr>h_ctx := Some False\<rparr>) = (t, s3)" by fastforce
    let ?s3 = "if UCS_PTR_IS_PTR t then h_print Out_scheduled s3 else s3"
    have "hmem h0 ?B la pa (?s2\<lparr>h_ctx := Some False\<rparr>)" using s2 unfolding hmem_fields .
    from hmem_tag_send[OF t this] have s3: "hmem h0 ?B la pa ?s3" by simp
    let ?k = "\<lambda>sent s. if \<not> sent then err_ep ep (-1) (h_on_heap (cuda_free q) s)
        else do { (status, s) \<leftarrow> flush_ep fuel api wk ep s;
                  err_ep ep 0 (h_on_heap (cuda_free q) (h_print (Out_flush status) s)) }"
    have "do { (sent, s) \<leftarrow> send_finish fuel api wk t ?s3; ?k sent s } = Some (ret, s')"
      using assms(1) m g b(1) t False by (simp add: server_send_def Let_def split del: if_split cong: if_cong)
    then obtain sent s4 where sf: "send_finish fuel api wk t ?s3 = Some (sent, s4)" and fin: "?k sent s4 = Some (ret, s')"
      by (cases "send_finish fuel api wk t ?s3") auto
    have s4: "hmem h0 ?B la pa s4" using sf s3 by (rule hmem_send_finish)
    show ?thesis
    proof (cases sent)
      case True
      with fin obtain st s5 where f: "flush_ep fuel api wk ep s4 = Some (st, s5)"
        "err_ep ep 0 (h_on_heap (cuda_free q) (h_print (Out_flush st) s5)) = Some (ret, s')" by (auto split: bind_splits)
      have "hmem h0 ?B la pa (h_print (Out_flush st) s5)" using hmem_flush[OF f(1) s4] by simp
      from hmem_err_ep[OF f(2) free[OF this]] show ?thesis .
    next
      case False
      with fin have "err_ep ep (-1) (h_on_heap (cuda_free q) s4) = Some (ret, s')" by simp
      then show ?thesis using free[OF s4] by (rule hmem_err_ep)
    qed
  qed
qed

text \<open>How the server ends: with the peer's address or without it.\<close>

definition served :: "heap \<Rightarrow> (nat \<rightharpoonup> mem_kind \<times> nat) \<Rightarrow> ptr \<Rightarrow> 'w hello \<Rightarrow> bool" where
  "served h0 B la s \<longleftrightarrow> hmem h0 B la NULLp s \<or>
     (\<exists>b n. B b = None \<and> hmem h0 (B(b \<mapsto> (MHost, n))) la (Addr b 0) s)"

lemma server_connect_back_mem:
  assumes "server_connect_back fuel api wk (Addr m 0) s = Some (ret, s')"
    and "hmem h0 (B(m \<mapsto> (MHost, n))) la NULLp s" "B m = None"
  shows "served h0 B la s'"
proof -
  obtain lenb g where l: "load cpu_kind (Addr m 0) msg_size (h_heap s) = (lenb, g)" by fastforce
  let ?n = "of_le lenb" and ?B = "B(m \<mapsto> (MHost, n))"
  let ?s1 = "s\<lparr>h_heap := g, peer_addr_len := ?n\<rparr>"
  have s1: "hmem h0 ?B la NULLp ?s1" using assms(2) hmem_load[OF l] by (simp add: hmem_def)
  obtain q h where c: "c_malloc ?n (h_heap ?s1) = (q, h)" by fastforce
  from hmem_alloc(1)[OF s1 c] obtain b where b: "q = Addr b 0" "?B b = None"
    "hmem h0 (?B(b \<mapsto> (MHost, ?n))) la NULLp (?s1\<lparr>h_heap := h\<rparr>)" by blast
  from b(2) assms(3) have bm: "b \<noteq> m" "B b = None" by (auto split: if_splits)
  let ?B2 = "B(b \<mapsto> (MHost, ?n))"
  let ?s2 = "?s1\<lparr>h_heap := h, peer_addr := q\<rparr>"
  let ?s3 = "h_on_heap (c_memcpy q (ptr_add (Addr m 0) msg_size) ?n) ?s2"
  have "hmem h0 (?B2(m \<mapsto> (MHost, n))) la q ?s2" using b(3) bm(1) by (simp add: hmem_def fun_upd_twist)
  then have "hmem h0 (?B2(m \<mapsto> (MHost, n))) la q ?s3" by (intro hmem_on_heap) simp_all
  then have s4: "hmem h0 ?B2 la q (h_on_heap (c_free (Addr m 0)) ?s3)"
    by (rule hmem_free(1)) (use bm assms(3) in simp_all)
  let ?s4 = "h_on_heap (c_free (Addr m 0)) ?s3"
  obtain st ep w where e: "hp_ep_create api wk (h_addr q ?s4) (h_world ?s4) = (st, ep, w)" using prod_cases3 by blast
  let ?s5 = "h_log_if (st = UCS_OK) (H_ep_create ep (h_addr q ?s4)) (?s4\<lparr>h_world := w\<rparr>)"
  have s5: "hmem h0 ?B2 la q ?s5" using s4 unfolding hmem_fields .
  have "(if st \<noteq> UCS_OK then Some (-1, ?s5) else server_send fuel api wk ep (Addr m 0) ?s5) = Some (ret, s')"
    using assms(1) l c b(1) e by (auto simp: server_connect_back_def Let_def split: if_splits)
  then have "hmem h0 ?B2 la q s'" using s5 server_send_mem[OF _ s5] by (auto split: if_splits)
  then show ?thesis using bm(2) b(1) by (auto simp: served_def)
qed

lemma run_server_mem:
  assumes "run_ucx_server fuel api wk s = Some (ret, s')" "hmem h0 B la NULLp s"
  shows "faulted (h_heap s') \<or> served h0 B la s'"
proof -
  let ?body = "\<lambda>s. h_probe api wk (h_worker_progress api wk s)"
  from assms(1) obtain tg len s1 where p: "poll_until fuel ?body (\<lambda>m. m = None) s = Some (Some (tg, len), s1)"
    by (auto simp: run_ucx_server_def split: bind_splits)
  have s1: "hmem h0 B la NULLp s1" by (rule hmem_poll[OF p assms(2)]) simp
  obtain q h where m: "c_malloc len (h_heap s1) = (q, h)" by fastforce
  from hmem_alloc(1)[OF s1 m] obtain b where b: "q = Addr b 0" "B b = None"
    "hmem h0 (B(b \<mapsto> (MHost, len))) la NULLp (s1\<lparr>h_heap := h\<rparr>)" by blast
  obtain r s2 where r: "h_msg_recv api wk q len tg (s1\<lparr>h_heap := h\<rparr>) = (r, s2)" by fastforce
  note s2 = hmem_msg_recv[OF r b(3)]
  show ?thesis
  proof (cases r)
    case Ptr_NULL
    with assms(1) p m b(1) r show ?thesis by (auto simp: run_ucx_server_def h_on_heap_def)
  next
    case (Ptr_ERR st)
    with assms(1) p m b(1) r have "s' = h_on_heap (c_free (Addr b 0)) s2" by (auto simp: run_ucx_server_def)
    with hmem_free(1)[OF s2 b(2) refl] show ?thesis by (simp add: served_def)
  next
    case (Ptr_REQ i)
    with assms(1) p m b(1) r obtain s3 where "recv_finish fuel api wk i s2 = Some s3"
      "server_connect_back fuel api wk (Addr b 0) s3 = Some (ret, s')"
      by (auto simp: run_ucx_server_def split: bind_splits)
    with server_connect_back_mem hmem_recv_finish[OF _ s2] b(2) show ?thesis by blast
  qed
qed

section \<open>main\<close>

text \<open>The run ends with the blocks it started with, unless something undefined happened.\<close>

definition restored :: "heap \<Rightarrow> 'w hello \<Rightarrow> bool" where
  "restored h0 s \<longleftrightarrow> faulted (h_heap s) \<or> shape (h_heap s) = shape h0"

lemma restored_hmem: "hmem h0 Map.empty la pa s \<Longrightarrow> restored h0 s"
  by (simp add: hmem_def owns_def restored_def)

text \<open>The labels, where the program's blocks are the worker's address and at most the peer's.\<close>

lemma err_addr_mem:
  assumes "hmem h0 [a \<mapsto> (MLib, n)] (Addr a 0) pa s"
  shows "restored h0 (snd (hello_err_addr l ret s))"
proof -
  have "local_addr s = Addr a 0" using assms by (simp add: hmem_def)
  with hmem_free(3)[OF assms] show ?thesis
    by (simp add: hello_err_addr_def hello_err_worker_def hello_err_cleanup_def restored_hmem)
qed

lemma err_peer_addr_mem:
  assumes "faulted (h_heap s) \<or> served h0 [a \<mapsto> (MLib, n)] (Addr a 0) s"
  shows "restored h0 (snd (hello_err_peer_addr l ret s))"
  using assms
proof
  assume "faulted (h_heap s)"
  then show ?thesis
    by (simp add: restored_def hello_err_peer_addr_def hello_err_addr_def hello_err_worker_def hello_err_cleanup_def
        h_on_heap_def h_log_def)
next
  assume "served h0 [a \<mapsto> (MLib, n)] (Addr a 0) s"
  then consider "hmem h0 [a \<mapsto> (MLib, n)] (Addr a 0) NULLp s"
    | b m where "b \<noteq> a" "hmem h0 ([a \<mapsto> (MLib, n)](b \<mapsto> (MHost, m))) (Addr a 0) (Addr b 0) s"
    by (auto simp: served_def split: if_splits)
  then have "\<exists>pa. hmem h0 [a \<mapsto> (MLib, n)] (Addr a 0) pa (h_on_heap (c_free (peer_addr s)) s)"
  proof cases
    case 1
    then show ?thesis by (auto simp: hmem_def h_on_heap_def)
  next
    case 2
    then have "peer_addr s = Addr b 0" by (simp add: hmem_def)
    with hmem_free(1)[OF 2(2)] 2(1) show ?thesis by auto
  qed
  then show ?thesis unfolding hello_err_peer_addr_def by (blast intro: err_addr_mem)
qed

text \<open>Releasing those blocks is not undefined.\<close>

lemma free_fault:
  assumes "owns h0 B h"
  shows "B b = Some (MHost, n) \<Longrightarrow> fault (c_free (Addr b 0) h) = fault h"
    and "B b = Some (MLib, n) \<Longrightarrow> fault (reclaim (Addr b 0) h) = fault h"
  using owns_block[OF assms] by (fastforce simp: c_free_def reclaim_def release_block_def)+

lemma err_peer_addr_fault:
  assumes "served h0 [a \<mapsto> (MLib, n)] (Addr a 0) s"
  shows "fault (h_heap (snd (hello_err_peer_addr l ret s))) = fault (h_heap s)"
proof -
  let ?B = "[a \<mapsto> (MLib, n)]" and ?s1 = "h_on_heap (c_free (peer_addr s)) s"
  from assms consider "hmem h0 ?B (Addr a 0) NULLp s"
    | b m where "b \<noteq> a" "hmem h0 (?B(b \<mapsto> (MHost, m))) (Addr a 0) (Addr b 0) s"
    by (auto simp: served_def split: if_splits)
  then have "fault (h_heap ?s1) = fault (h_heap s) \<and> owns h0 ?B (h_heap ?s1) \<and> local_addr ?s1 = Addr a 0"
  proof cases
    case 1
    then show ?thesis by (simp add: hmem_def h_on_heap_def)
  next
    case 2
    then have p: "peer_addr s = Addr b 0" "owns h0 (?B(b \<mapsto> (MHost, m))) (h_heap s)" by (simp_all add: hmem_def)
    with hmem_free(1)[OF 2(2)] 2(1) free_fault(1)[OF p(2), of b m] show ?thesis by (simp add: hmem_def h_on_heap_def)
  qed
  then show ?thesis using free_fault(2)[of h0 ?B "h_heap ?s1" a n]
    by (simp add: hello_err_peer_addr_def hello_err_addr_def hello_err_worker_def hello_err_cleanup_def h_log_def)
      (simp add: h_on_heap_def)
qed

lemma heap_log [simp]: "h_heap (h_log c s) = h_heap s"
  by (simp add: h_log_def)

lemma served_world [simp]:
  "served h0 B la (s\<lparr>h_world := w\<rparr>) = served h0 B la s" "served h0 B la (h_log c s) = served h0 B la s"
  by (simp_all add: served_def)

lemma hello_test_mem:
  assumes "hello_test fuel api l target fd s = Some (ret, s')" "served h0 [a \<mapsto> (MLib, n)] (Addr a 0) s"
    and "target = None \<Longrightarrow> hmem h0 [a \<mapsto> (MLib, n)] (Addr a 0) NULLp s"
  shows "restored h0 s'"
proof -
  from assms(1) obtain r s1 where t: "run_test fuel api target (hl_worker l) s = Some (r, s1)"
    by (auto simp: hello_test_def split: bind_splits)
  have "faulted (h_heap s1) \<or> served h0 [a \<mapsto> (MLib, n)] (Addr a 0) s1"
  proof (cases target)
    case None
    with t assms(3) show ?thesis by (auto simp: run_test_def dest: run_server_mem)
  next
    case (Some x)
    then have "run_ucx_client fuel api (hl_worker l) s = Some (r, s1)" using t by (simp add: run_test_def)
    from run_client_mem[OF this] assms(2) show ?thesis unfolding served_def by blast
  qed
  moreover obtain q w where s': "s' = snd (hello_err_peer_addr l q (h_log (H_sock (S_close fd)) (s1\<lparr>h_world := w\<rparr>)))"
    using assms(1) t by (auto simp: hello_test_def Let_def split_beta) (metis snd_conv)+
  ultimately show ?thesis unfolding s' by (intro err_peer_addr_mem) simp
qed

lemma client_address_mem:
  assumes "hello_client_address fuel api l target s = Some (ret, s')" "hmem h0 [a \<mapsto> (MLib, n)] (Addr a 0) NULLp s"
  shows "restored h0 s'"
proof -
  let ?B = "[a \<mapsto> (MLib, n)]" and ?s0 = "s\<lparr>peer_addr_len := local_addr_len s\<rparr>"
  obtain fd flt calls w where c: "client_connect api target hello_port (h_world ?s0) = (fd, flt, calls, w)" using prod_cases4 by blast
  define s1 where "s1 = (case flt of Some f \<Rightarrow> h_on_heap (raise_fault f) (?s0\<lparr>h_world := w, h_trace := h_trace ?s0 @ map H_sock calls\<rparr>)
    | None \<Rightarrow> ?s0\<lparr>h_world := w, h_trace := h_trace ?s0 @ map H_sock calls\<rparr>)"
  have "hmem h0 ?B (Addr a 0) NULLp (?s0\<lparr>h_world := w, h_trace := h_trace ?s0 @ map H_sock calls\<rparr>)" using assms(2) by (simp add: hmem_def)
  then have s1: "hmem h0 ?B (Addr a 0) NULLp s1" unfolding s1_def by (cases flt) simp_all
  obtain r bs s2 where r: "hello_recv api fd 8 s1 = (r, bs, s2)" using prod_cases3 by blast
  then have s2: "hmem h0 ?B (Addr a 0) NULLp s2" using s1 by (auto simp: hello_recv_def split_beta Let_def)
  let ?n = "of_le bs"
  obtain p h where m: "c_malloc ?n (h_heap s2) = (p, h)" by fastforce
  from hmem_alloc(1)[OF s2 m] obtain b where b: "p = Addr b 0" "?B b = None"
    "hmem h0 (?B(b \<mapsto> (MHost, ?n))) (Addr a 0) NULLp (s2\<lparr>h_heap := h\<rparr>)" by blast
  let ?s3 = "s2\<lparr>h_heap := h, peer_addr_len := ?n, peer_addr := p\<rparr>"
  have s3: "hmem h0 (?B(b \<mapsto> (MHost, ?n))) (Addr a 0) (Addr b 0) ?s3" using b(1,3) by (simp add: hmem_def)
  obtain r' bs' s4 where r': "hello_recv api fd ?n ?s3 = (r', bs', s4)" using prod_cases3 by blast
  then have "hmem h0 (?B(b \<mapsto> (MHost, ?n))) (Addr a 0) (Addr b 0) s4" using s3 by (auto simp: hello_recv_def split_beta Let_def hmem_def)
  then have "hmem h0 (?B(b \<mapsto> (MHost, ?n))) (Addr a 0) (Addr b 0) (h_on_heap (store cpu_kind p bs') s4)" by (rule hmem_on_heap[rotated 3]) simp_all
  then have s5: "served h0 ?B (Addr a 0) (h_on_heap (store cpu_kind p bs') s4)" using b(2) unfolding served_def by blast
  have "(if fd < 0 then Some (hello_err_addr l (-1) s1) else if r \<noteq> 8 then Some (hello_err_addr l r s2)
      else if p = NULLp then Some (hello_err_addr l r ?s3)
      else if r' \<noteq> c_int (int ?n) then Some (hello_err_peer_addr l r' (h_on_heap (store cpu_kind p bs') s4))
      else hello_test fuel api l (Some target) fd (h_on_heap (store cpu_kind p bs') s4)) = Some (ret, s')"
    using assms(1) unfolding hello_client_address_def Let_def c prod.case s1_def[symmetric] r m r' .
  then show ?thesis using err_addr_mem[OF s1, of l "-1"] err_addr_mem[OF s2, of l r]
      err_peer_addr_mem[OF disjI2[OF s5], of l r'] hello_test_mem[OF _ s5, of fuel api l "Some target" fd ret s'] b(1)
    by (auto split: if_splits)
qed

lemma server_address_mem:
  assumes "hello_server_address fuel api l s = Some (ret, s')" "hmem h0 [a \<mapsto> (MLib, n)] (Addr a 0) NULLp s"
  shows "restored h0 s'"
proof -
  let ?M = "hmem h0 [a \<mapsto> (MLib, n)] (Addr a 0) NULLp"
  obtain fd calls w where c: "server_connect (hp_sock api) hello_port (h_world s) = (fd, calls, w)" using prod_cases3 by blast
  let ?s1 = "s\<lparr>h_world := w, h_trace := h_trace s @ map H_sock calls\<rparr>"
  have s1: "?M ?s1" using assms(2) by (simp add: hmem_def)
  obtain r s2 where r: "hello_send api fd (le_bytes 8 (local_addr_len ?s1)) ?s1 = (r, s2)" by fastforce
  then have s2: "?M s2" using s1 by (auto simp: hello_send_def split_beta Let_def hmem_def)
  obtain bs h where ld: "load cpu_kind (local_addr s2) (local_addr_len s2) (h_heap s2) = (bs, h)" by fastforce
  obtain r' s3 where r': "hello_send api fd bs (s2\<lparr>h_heap := h\<rparr>) = (r', s3)" by fastforce
  then have s3: "?M s3" using s2 hmem_load[OF ld] by (auto simp: hello_send_def split_beta Let_def hmem_def)
  have "(if fd < 0 then Some (hello_err_peer_addr l (-1) ?s1) else if r \<noteq> 8 then Some (hello_err_peer_addr l r s2)
      else if r' \<noteq> c_int (int (local_addr_len s3)) then Some (hello_err_peer_addr l r' s3)
      else hello_test fuel api l None fd s3) = Some (ret, s')"
    using assms(1) c r ld r' by (auto simp: hello_server_address_def Let_def split: if_splits)
  moreover have "restored h0 (snd (hello_err_peer_addr l q u))" if "?M u" for q and u :: "'a hello"
    using that by (intro err_peer_addr_mem[of _ _ a n] disjI2) (simp add: served_def)
  moreover have "served h0 [a \<mapsto> (MLib, n)] (Addr a 0) s3" using s3 by (simp add: served_def)
  ultimately show ?thesis using s1 s2 s3 hello_test_mem[of fuel api l None fd s3 ret s' h0 a n]
    by (metis option.inject snd_conv)
qed

lemma main_mem:
  assumes "hello_main fuel api argv (hello_start h w) = Some (ret, s')" "heap_wf h" "\<forall>i. \<not> oom h i"
  shows "restored h s'"
proof -
  let ?M = "hmem h Map.empty NULLp NULLp" and ?s0 = "hello_start h w" and ?t = "if length argv = 2 then Some (argv ! 1) else None"
  have 0: "?M ?s0" using owns_start[OF assms(2,3)] by (simp add: hmem_def hello_start_def)
  obtain st1 cf w1 where c1: "hp_config_read api (h_world ?s0) = (st1, cf, w1)" using prod_cases3 by blast
  define s1 where "s1 = h_log_if (st1 = UCS_OK) (H_config_read cf) (?s0\<lparr>h_world := w1\<rparr>)"
  obtain st2 cx w2 where c2: "hp_init api cf (h_world s1) = (st2, cx, w2)" using prod_cases3 by blast
  define s2 where "s2 = h_log (H_config_release cf) (h_log_if (st2 = UCS_OK) (H_init cx) (s1\<lparr>h_world := w2\<rparr>))"
  obtain st3 wk w3 where c3: "hp_worker_create api cx (h_world s2) = (st3, wk, w3)" using prod_cases3 by blast
  define s3 where "s3 = h_log_if (st3 = UCS_OK) (H_worker_create wk) (s2\<lparr>h_world := w3\<rparr>)"
  let ?l = "\<lparr>hl_context = cx, hl_worker = wk\<rparr>"
  obtain st4 ad w4 where c4: "hp_get_address api wk (h_world s3) = (st4, ad, w4)" using prod_cases3 by blast
  obtain b g where ln: "lend ad (h_heap (s3\<lparr>h_world := w4\<rparr>)) = (b, g)" by fastforce
  define s5 where "s5 = h_log H_get_address (s3\<lparr>h_world := w4, h_heap := g, local_addr := Addr b 0, local_addr_len := length ad\<rparr>)"
  have M: "?M s1" "?M s2" "?M s3" using 0 by (simp_all add: s1_def s2_def s3_def)
  have "hmem h [b \<mapsto> (MLib, length ad)] (Addr b 0) NULLp s5"
    using owns_lend[OF _ ln] M(3) by (simp add: s5_def hmem_def h_log_def)
  note five = client_address_mem[OF _ this] server_address_mem[OF _ this]
  have eq: "(if length argv > 2 then Some (0, h_print Out_usage ?s0) else if st1 \<noteq> UCS_OK then Some (-1, s1)
      else if st2 \<noteq> UCS_OK then Some (-1, s2) else if st3 \<noteq> UCS_OK then Some (hello_err_cleanup ?l (-1) s3)
      else if st4 \<noteq> UCS_OK then Some (hello_err_worker ?l (-1) (s3\<lparr>h_world := w4\<rparr>))
      else case ?t of Some t \<Rightarrow> hello_client_address fuel api ?l t s5 | None \<Rightarrow> hello_server_address fuel api ?l s5) = Some (ret, s')"
    using assms(1) unfolding hello_main_def Let_def c1 prod.case s1_def[symmetric] c2 s2_def[symmetric] c3 s3_def[symmetric] c4 ln s5_def[symmetric] .
  have labels: "restored h (snd (hello_err_cleanup ?l (-1) s3))" "restored h (snd (hello_err_worker ?l (-1) (s3\<lparr>h_world := w4\<rparr>)))"
    "restored h (h_print Out_usage ?s0)" "restored h s1" "restored h s2"
    using M 0 by (auto simp: hello_err_cleanup_def hello_err_worker_def intro!: restored_hmem)
  show ?thesis using eq labels five by (auto split: if_splits option.splits)
qed

end
