(* ===== verification/Ucp_Demo.thy ===== *)
theory Ucp_Demo
  imports Ucp_Messages Ucp_Leak
begin

text \<open>
  A concrete UCP library and socket, to which the theorems about \<open>ucp_hello_world.c\<close> are applied:
  every call succeeds at once, and the state of the library is the message it delivers.
\<close>

definition hello_sock :: "byte list sock_api" where
  "hello_sock = \<lparr>
     so_getaddrinfo = (\<lambda>srv svc passive af w. (1, [], w)),
     so_socket = (\<lambda>a w. (3, w)), so_connect = (\<lambda>fd a w. (0, w)), so_setsockopt = (\<lambda>fd w. (0, w)),
     so_bind = (\<lambda>fd a w. (0, w)), so_listen = (\<lambda>fd n w. (0, w)), so_accept = (\<lambda>fd w. (4, w)),
     so_close = (\<lambda>fd w. w), so_send = (\<lambda>fd bs w. (int (length bs), w)),
     so_recv = (\<lambda>fd n w. (int n, replicate n 0, w)), so_poll = (\<lambda>fd w. (1, w))\<rparr>"

definition hello_demo :: "byte list ucph_api" where
  "hello_demo = \<lparr>
     hp_config_read = (\<lambda>w. (UCS_OK, 1, w)), hp_init = (\<lambda>c w. (UCS_OK, 2, w)),
     hp_worker_create = (\<lambda>c w. (UCS_OK, 3, w)), hp_get_address = (\<lambda>k w. (UCS_OK, [9, 9], w)),
     hp_ep_create = (\<lambda>k a w. (UCS_OK, 5, w)), hp_tag_send = (\<lambda>e bs t w. (Ptr_NULL, [], w)),
     hp_probe = (\<lambda>k t m w. (Some (6, length w), w)), hp_progress = (\<lambda>k w. ([], w)),
     hp_msg_recv = (\<lambda>k p n m w. (Ptr_REQ 7, [Hev_request_init 7, Hev_write p w, Hev_recv 7 UCS_OK n], w)),
     hp_flush = (\<lambda>e w. (Ptr_NULL, [], w)), hp_check_status = (\<lambda>r w. (UCS_OK, w)),
     hp_gethostbyname = (\<lambda>n w. (None, w)), hp_sock = hello_sock\<rparr>"

lemmas hello_demo_defs = hello_demo_def hello_sock_def

definition roomy :: heap where
  "roomy = empty_heap (\<lambda>_. False) (\<lambda>_ _. 0)"

lemma roomy_simps [simp]: "heap_wf roomy" "oom roomy i = False" "fault roomy = None" "blocks roomy = (\<lambda>_. None)"
  "next_blk roomy = 1" "attempts roomy = 0"
  by (simp_all add: roomy_def) (simp_all add: empty_heap_def)

definition hello_demo_state :: "byte list \<Rightarrow> heap \<Rightarrow> byte list hello" where
  "hello_demo_state m h = hello_start h m"

text \<open>A send and a flush that complete at once need no fuel.\<close>

lemma server_send_demo:
  assumes "heap_wf (h_heap s)" "\<forall>i. \<not> oom (h_heap s) i"
  shows "\<exists>s'. server_send fuel hello_demo wk ep old s = Some (0, s') \<and> fault (h_heap s') = fault (h_heap s)"
proof -
  let ?p = "Addr (next_blk (h_heap s)) 0"
  from text_message[OF assms] obtain h where
    h: "ucp_generate_test_string (ptr_add ?p 8) (int 16) (set_msg_data_len ?p 16 (store any_kind ?p (replicate 24 0)
      (grown MManaged (junk_bytes 24 (h_heap s)) (h_heap s)))) = (0, h)"
    "blocks h (next_blk (h_heap s)) = Some \<lparr>b_kind = MManaged, b_bytes = enc_blob 8 (test_pattern 16 0)\<rparr>"
    "fault h = fault (h_heap s)" by auto
  have "load any_kind ?p 24 h = (enc_blob 8 (test_pattern 16 0), h)" using h(2) by (simp add: load_ok mem_simps blob_bytes)
  moreover have "fault (cuda_free ?p h) = fault h" using h(2) by (simp add: mem_simps)
  ultimately show ?thesis using h(1,3)
    using assms(2) by (auto simp: server_send_def cuda_malloc_cases h_on_heap_def h_tag_send_def hello_demo_def
      send_finish_def flush_ep_def err_ep_def h_dispatch_all_def h_log_def h_print_def Let_def split_beta)
qed

lemma connect_back_demo:
  assumes "heap_wf (h_heap s)" "\<forall>i. \<not> oom (h_heap s) i"
    and "blocks (h_heap s) b = Some \<lparr>b_kind = MHost, b_bytes = enc_blob 8 a\<rparr>" "length a < 2 ^ 64"
  shows "\<exists>s'. server_connect_back fuel hello_demo wk (Addr b 0) s = Some (0, s') \<and> fault (h_heap s') = fault (h_heap s)"
proof -
  have c: "hp_ep_create hello_demo wk a (h_world s) = (UCS_OK, 5, h_world s)" by (simp add: hello_demo_def)
  from server_decodes[OF assms(1) _ assms(3,4) c, of fuel] assms(2) obtain s1 where
    s1: "server_connect_back fuel hello_demo wk (Addr b 0) s = server_send fuel hello_demo wk 5 (Addr b 0) s1"
    and h1: "h_heap s1 = (grown MHost a (h_heap s))\<lparr>blocks := (blocks (grown MHost a (h_heap s)))(b := None)\<rparr>" by auto
  have "heap_wf (h_heap s1)" using assms(1) h1 heap_wf_grown[of "h_heap s" MHost a] by (auto simp: heap_wf_def)
  moreover have "\<forall>i. \<not> oom (h_heap s1) i" "fault (h_heap s1) = fault (h_heap s)" using assms(2) h1 by simp_all
  ultimately show ?thesis using server_send_demo s1 by metis
qed

lemma run_server_demo:
  assumes "heap_wf (h_heap s)" "\<forall>i. \<not> oom (h_heap s) i" "h_world s = enc_blob 8 a" "length a < 2 ^ 64"
  shows "\<exists>s'. run_ucx_server 1 hello_demo wk s = Some (0, s') \<and> fault (h_heap s') = fault (h_heap s)"
proof -
  let ?h = "h_heap s" let ?m = "enc_blob 8 a"
  let ?g = "grown MHost ?m ?h"
  have st: "store any_kind (Addr (next_blk ?h) 0) ?m (grown MHost (junk_bytes (length ?m) ?h) ?h) = ?g"
    by (simp add: mem_simps splice_all grown_def)
  obtain s1 where s1: "run_ucx_server 1 hello_demo wk s = server_connect_back 1 hello_demo wk (Addr (next_blk ?h) 0) s1"
    "h_heap s1 = ?g"
    using assms(2,3) st
    by (simp add: run_ucx_server_def hello_demo_def h_probe_def h_worker_progress_def h_dispatch_all_def c_malloc_cases
        h_msg_recv_def recv_finish_def ucx_wait_def request_init_def recv_handler_def h_on_heap_def h_log_def h_print_def
        h_request_release_def Let_def)
  have "heap_wf (h_heap s1)" "\<forall>i. \<not> oom (h_heap s1) i" "fault (h_heap s1) = fault ?h" using assms(1,2) s1(2) by simp_all
  moreover have "blocks (h_heap s1) (next_blk ?h) = Some \<lparr>b_kind = MHost, b_bytes = ?m\<rparr>" using s1(2) by simp
  ultimately show ?thesis using connect_back_demo assms(4) s1(1) by metis
qed

text \<open>A client whose worker address is two bytes, and that is about to receive the text.\<close>

definition client_demo_state :: "byte list hello" where
  "client_demo_state = (hello_demo_state (enc_blob 8 (test_pattern 16 0)) (grown MLib [9, 9] roomy))
     \<lparr>local_addr := Addr 1 0, local_addr_len := 2\<rparr>"

lemma client_receive_demo:
  assumes "heap_wf (h_heap s)" "\<forall>i. \<not> oom (h_heap s) i" "h_world s = enc_blob 8 (test_pattern 16 0)"
  shows "\<exists>s'. client_receive 1 hello_demo wk ep old s = Some (0, s')"
proof -
  let ?h = "h_heap s" let ?m = "enc_blob 8 (test_pattern 16 0)"
  let ?g = "grown MManaged ?m ?h"
  have st: "store any_kind (Addr (next_blk ?h) 0) ?m (grown MManaged (junk_bytes (length ?m) ?h) ?h) = ?g"
    by (simp add: mem_simps splice_all grown_def)
  obtain s1 where s1: "client_receive 1 hello_demo wk ep old s = client_print (Addr (next_blk ?h) 0) ep s1" "h_heap s1 = ?g"
    using assms(2,3) st
    by (simp add: client_receive_def hello_demo_def h_probe_def h_dispatch_all_def cuda_malloc_cases
        h_msg_recv_def recv_finish_def ucx_wait_def request_init_def recv_handler_def h_on_heap_def h_log_def h_print_def
        h_request_release_def Let_def)
  have "heap_wf (h_heap s1)" "\<not> oom (h_heap s1) (attempts (h_heap s1))"
    "blocks (h_heap s1) (next_blk ?h) = Some \<lparr>b_kind = MManaged, b_bytes = ?m\<rparr>" using assms(1,2) s1(2) by simp_all
  from client_prints[OF this, of ep] s1(1) show ?thesis by auto
qed

lemma run_client_demo: "\<exists>s'. run_ucx_client 1 hello_demo 3 client_demo_state = Some (0, s')"
proof -
  define h where "h = grown MLib [9, 9 :: byte] roomy"
  let ?p = "Addr (next_blk h) 0" let ?m = "enc_blob 8 [9, 9]"
  have wf: "heap_wf h" "\<And>i. oom h i = False" "blocks h 1 = Some \<lparr>b_kind = MLib, b_bytes = [9, 9]\<rparr>" by (simp_all add: h_def)
  have s: "client_demo_state = \<lparr>h_heap = h, h_req = (\<lambda>_. None), h_ctx = None, local_addr = Addr 1 0, local_addr_len = 2,
     peer_addr = NULLp, peer_addr_len = 0, h_trace = [], h_out = [], h_world = enc_blob 8 (test_pattern 16 0)\<rparr>"
    by (simp add: client_demo_state_def hello_demo_state_def hello_start_def h_def)
  have msg: "c_memcpy (ptr_add ?p 8) (Addr (Suc 0) 0) 2 (store cpu_kind ?p (le_bytes 8 2)
      (store cpu_kind ?p (replicate 10 0) (grown MHost (junk_bytes 10 h) h))) = grown MHost ?m h"
    using client_message[OF wf(1,3), of 2 "junk_bytes 10 h"] by simp
  have ld: "load any_kind ?p 10 (grown MHost ?m h) = (?m, grown MHost ?m h)"
    by (simp add: load_ok mem_simps blob_bytes)
  have fr: "c_free ?p (grown MHost ?m h) = h\<lparr>attempts := Suc (attempts h), next_blk := Suc (next_blk h)\<rparr>"
    using wf(1) by (simp add: c_free_block) (simp add: grown_def fun_upd_idem)
  obtain s1 where s1: "run_ucx_client 1 hello_demo 3 client_demo_state = client_receive 1 hello_demo 3 5 ?p s1"
    "h_heap s1 = h\<lparr>attempts := Suc (attempts h), next_blk := Suc (next_blk h)\<rparr>" "h_world s1 = enc_blob 8 (test_pattern 16 0)"
    using msg ld fr wf(2)
    by (simp add: run_ucx_client_def s hello_demo_def h_log_if_def
        c_malloc_cases h_tag_send_def h_dispatch_all_def send_finish_def h_log_def h_on_heap_def h_addr_def)
  from s1(2) wf(1,2) have "heap_wf (h_heap s1)" "\<forall>i. \<not> oom (h_heap s1) i" by (auto simp: heap_wf_def)
  from client_receive_demo[OF this s1(3)] s1(1) show ?thesis by metis
qed

lemma hello_main_demo:
  "\<exists>s'. hello_main 1 hello_demo [''hello''] (hello_demo_state (enc_blob 8 [1, 2, 3]) roomy) = Some (0, s') \<and>
     \<not> faulted (h_heap s')"
proof -
  let ?l = "\<lparr>hl_context = 2, hl_worker = 3\<rparr>"
  obtain s1 where s1: "hello_main 1 hello_demo [''hello''] (hello_demo_state (enc_blob 8 [1, 2, 3]) roomy)
      = hello_test 1 hello_demo ?l None 4 s1"
    "h_heap s1 = snd (lend [9, 9] roomy)" "h_world s1 = enc_blob 8 [1, 2, 3]" "local_addr s1 = Addr 1 0" "peer_addr s1 = NULLp"
    by (simp add: hello_main_def hello_demo_defs hello_demo_state_def hello_start_def lend_def h_log_if_def h_log_def
        hello_server_address_def server_connect_def hello_send_def load_def access_def peek_def c_int_def)
  have wf: "heap_wf (h_heap s1)" "\<forall>i. \<not> oom (h_heap s1) i" "fault (h_heap s1) = None"
    using s1(2) by (simp_all add: lend_def heap_wf_def)
  from run_server_demo[OF wf(1,2) s1(3)] wf(3) obtain s2 where
    s2: "run_ucx_server 1 hello_demo 3 s1 = Some (0, s2)" "fault (h_heap s2) = None" by auto
  have "owns roomy [1 \<mapsto> (MLib, 2)] (h_heap s1)"
    using owns_lend[OF owns_start[of roomy], of "[9, 9]" 1] s1(2) by (simp add: lend_def numeral_2_eq_2)
  then have "hmem roomy [1 \<mapsto> (MLib, 2)] (Addr 1 0) NULLp s1" using s1(4,5) by (simp add: hmem_def)
  with run_server_mem[OF s2(1)] s2(2) have "served roomy [1 \<mapsto> (MLib, 2)] (Addr 1 0) s2" by (simp add: faulted_def)
  then have "fault (h_heap (snd (hello_err_peer_addr ?l 0 (h_log (H_sock (S_close 4)) s2)))) = None"
    using err_peer_addr_fault[of roomy 1 2 "h_log (H_sock (S_close 4)) s2" ?l 0] s2(2) by simp
  moreover have "hello_test 1 hello_demo ?l None 4 s1 =
      Some (0, snd (hello_err_peer_addr ?l 0 (h_log (H_sock (S_close 4)) s2)))"
    using s2(1) by (simp add: hello_test_def run_test_def hello_barrier_def hello_demo_defs hello_err_peer_addr_def hello_err_addr_def
        hello_err_worker_def hello_err_cleanup_def Let_def)
  ultimately show ?thesis using s1(1) by (simp add: faulted_def)
qed

end
