(* ===== verification/Ucp_Properties.thy ===== *)
theory Ucp_Properties
  imports Ucp_Demo
begin

text \<open>The properties of \<open>ucp_hello_world.c\<close>.\<close>

section \<open>Ownership\<close>

text \<open>
  (C35) Whatever UCP and the sockets do, a run of \<open>main\<close> that returns releases the configuration, the
  context, the worker, the worker address, the endpoints, the requests, the sockets and the address
  lists it acquired, each exactly once, and never releases what is not live, except that the out-of-band
  socket stays open on some of the paths that give up before an endpoint was created. These are the
  kinds that are counted: memory is the subject of the next theorem, and the handle of a message that a probe removed
  from the worker is not counted (\<open>probed_message_lost\<close> shows how one gets lost).
\<close>

theorem hello_main_releases:
  assumes "hello_main fuel api argv s = Some (r, s')" "h_trace s = []"
  shows "\<exists>L. run_trace hello_acquires hello_releases {#} (h_trace s') = Some L \<and>
     (L = {#} \<or> (\<exists>fd\<ge>0. L = {#HR_sock (SR_fd fd)#}) \<and> \<not> connected (h_trace s'))"
proof -
  from hello_main_cleans[OF assms(2), of fuel api argv] assms(1)
  obtain L where "hello_triple {#} s s' L" "leftover s' L" unfolding cleans_def by blast
  then show ?thesis using assms(2) hr.st_run[of "{#}" s s' L] by (auto simp: leftover_def)
qed

theorem hello_main_releases_witness:
  "\<exists>s' L. hello_main 1 hello_demo [''hello''] (hello_demo_state (enc_blob 8 [1, 2, 3]) roomy) = Some (0, s') \<and>
     run_trace hello_acquires hello_releases {#} (h_trace s') = Some L \<and>
     (L = {#} \<or> (\<exists>fd\<ge>0. L = {#HR_sock (SR_fd fd)#}) \<and> \<not> connected (h_trace s'))"
proof -
  obtain s' where m: "hello_main 1 hello_demo [''hello''] (hello_demo_state (enc_blob 8 [1, 2, 3]) roomy) = Some (0, s')"
    using hello_main_demo by blast
  with hello_main_releases[OF m] show ?thesis by (simp add: hello_demo_state_def hello_start_def)
qed

text \<open>
  A message that the probe of the server removed from the worker is never received when the
  allocation of its buffer fails: the server gives up without another call.
\<close>

lemma probed_message_lost:
  assumes "h_probe api wk (h_worker_progress api wk s) = (Some (m, n), s1)" "oom (h_heap s1) (attempts (h_heap s1))" "0 < fuel"
  shows "\<exists>s'. run_ucx_server fuel api wk s = Some (-1, s') \<and> h_trace s' = h_trace s"
proof -
  have "h_trace s1 = h_trace s" using h_probe_trace[of api wk "h_worker_progress api wk s"] assms(1) by simp
  with assms show ?thesis by (cases fuel) (simp_all add: run_ucx_server_def c_malloc_cases)
qed

text \<open>
  (C36) A run of \<open>main\<close> in which no allocation fails and nothing undefined happens ends with exactly the
  memory it started with, on every path of the client and of the server and for any behaviour of UCP
  and the sockets: host memory, CUDA memory and the worker address lent by UCP are all given back.
\<close>

theorem hello_main_leaves_no_memory:
  assumes "hello_main fuel api argv (hello_start h w) = Some (ret, s')"
    and "heap_wf h" "\<forall>i. \<not> oom h i" "\<not> faulted (h_heap s')"
  shows "shape (h_heap s') = shape h"
  using main_mem[OF assms(1-3)] assms(4) by (simp add: restored_def)

theorem hello_main_leaves_no_memory_witness:
  "\<exists>s'. hello_main 1 hello_demo [''hello''] (hello_start roomy (enc_blob 8 [1, 2, 3])) = Some (0, s') \<and>
     shape (h_heap s') = shape roomy"
proof -
  obtain s' where m: "hello_main 1 hello_demo [''hello''] (hello_start roomy (enc_blob 8 [1, 2, 3])) = Some (0, s')"
    "\<not> faulted (h_heap s')" using hello_main_demo unfolding hello_demo_state_def by blast
  from hello_main_leaves_no_memory[OF m(1) _ _ m(2)] m(1) show ?thesis by simp
qed

section \<open>Messages\<close>

text \<open>
  (C37) The first message of the client carries its worker address behind its length, and a server
  that has received those bytes frees the message, keeps exactly that address and creates its
  endpoint for it; when the library refuses the endpoint, the server returns -1.
\<close>

theorem address_message_round_trip:
  assumes "run_ucx_client fuel api wk c = Some (ret, c')"
    and "heap_wf (h_heap c)" "\<not> oom (h_heap c) (attempts (h_heap c))"
    and "local_addr c = Addr b 0" "blocks (h_heap c) b = Some k" "cpu_kind (b_kind k)"
    and "local_addr_len c = length (b_bytes k)" "8 + length (b_bytes k) < 2 ^ 64"
    and "hp_ep_create api wk (h_addr (peer_addr c) c) (h_world c) = (UCS_OK, ep, w)"
  shows "\<exists>bs req t. h_trace c' = h_trace c @ [H_ep_create ep (h_addr (peer_addr c) c), H_send ep bs 0x1337a880 req] @ t \<and>
     (\<forall>fuel' api' wk' m st ep' w' (s :: 'v hello).
        heap_wf (h_heap s) \<and> \<not> oom (h_heap s) (attempts (h_heap s)) \<and>
        blocks (h_heap s) m = Some \<lparr>b_kind = MHost, b_bytes = bs\<rparr> \<and>
        hp_ep_create api' wk' (b_bytes k) (h_world s) = (st, ep', w') \<longrightarrow>
        (\<exists>s1. peer_addr s1 = Addr (next_blk (h_heap s)) 0 \<and> peer_addr_len s1 = length (b_bytes k) \<and>
           h_heap s1 = (grown MHost (b_bytes k) (h_heap s))\<lparr>blocks := (blocks (grown MHost (b_bytes k) (h_heap s)))(m := None)\<rparr> \<and>
           (if st = UCS_OK
            then h_trace s1 = h_trace s @ [H_ep_create ep' (b_bytes k)] \<and>
                 server_connect_back fuel' api' wk' (Addr m 0) s = server_send fuel' api' wk' ep' (Addr m 0) s1
            else h_trace s1 = h_trace s \<and> server_connect_back fuel' api' wk' (Addr m 0) s = Some (-1, s1))))"
proof -
  from run_ucx_client_sends[OF assms(2-9,1)] obtain req t where
    t: "h_trace c' = h_trace c @ [H_ep_create ep (h_addr (peer_addr c) c), H_send ep (enc_blob 8 (b_bytes k)) 0x1337a880 req] @ t"
    by blast
  have n: "length (b_bytes k) < 2 ^ 64" using assms(8) by simp
  show ?thesis
  proof (intro exI[of _ "enc_blob 8 (b_bytes k)"] exI[of _ req] exI[of _ t] conjI t allI impI, elim conjE)
    fix fuel' wk' m st ep' w' and api' :: "'v ucph_api" and s :: "'v hello"
    assume "heap_wf (h_heap s)" "\<not> oom (h_heap s) (attempts (h_heap s))"
      "blocks (h_heap s) m = Some \<lparr>b_kind = MHost, b_bytes = enc_blob 8 (b_bytes k)\<rparr>"
      "hp_ep_create api' wk' (b_bytes k) (h_world s) = (st, ep', w')"
    from server_decodes[OF this(1-3) n this(4), of fuel'] show "\<exists>s1. peer_addr s1 = Addr (next_blk (h_heap s)) 0 \<and>
        peer_addr_len s1 = length (b_bytes k) \<and>
        h_heap s1 = (grown MHost (b_bytes k) (h_heap s))\<lparr>blocks := (blocks (grown MHost (b_bytes k) (h_heap s)))(m := None)\<rparr> \<and>
        (if st = UCS_OK
         then h_trace s1 = h_trace s @ [H_ep_create ep' (b_bytes k)] \<and>
              server_connect_back fuel' api' wk' (Addr m 0) s = server_send fuel' api' wk' ep' (Addr m 0) s1
         else h_trace s1 = h_trace s \<and> server_connect_back fuel' api' wk' (Addr m 0) s = Some (-1, s1))"
      by blast
  qed
qed

theorem address_message_round_trip_witness:
  "\<exists>c' bs req t s1. run_ucx_client 1 hello_demo 3 client_demo_state = Some (0, c') \<and>
     h_trace c' = [H_ep_create 5 [], H_send 5 bs 0x1337a880 req] @ t \<and>
     peer_addr_len s1 = 2 \<and> h_trace s1 = [H_ep_create 5 [9, 9]] \<and>
     server_connect_back 0 hello_demo 3 (Addr 1 0) (hello_demo_state [] (grown MHost bs roomy)) =
       server_send 0 hello_demo 3 5 (Addr 1 0) s1"
proof -
  let ?k = "\<lparr>b_kind = MLib, b_bytes = [9, 9]\<rparr>"
  have c: "h_trace client_demo_state = []" "peer_addr client_demo_state = NULLp" "h_addr NULLp client_demo_state = []"
    "heap_wf (h_heap client_demo_state)" "\<not> oom (h_heap client_demo_state) i" "local_addr client_demo_state = Addr 1 0"
    "blocks (h_heap client_demo_state) 1 = Some ?k" "local_addr_len client_demo_state = 2" for i
    by (simp_all add: client_demo_state_def hello_demo_state_def hello_start_def h_addr_def)
  from run_client_demo obtain c' where m: "run_ucx_client 1 hello_demo 3 client_demo_state = Some (0, c')" by blast
  have e: "hp_ep_create hello_demo k a w = (UCS_OK, 5, w)" for k a w by (simp add: hello_demo_def)
  let ?s = "\<lambda>bs. hello_demo_state [] (grown MHost bs roomy)"
  have s: "heap_wf (h_heap (?s bs))" "oom (h_heap (?s bs)) i = False" "h_trace (?s bs) = []"
    "blocks (h_heap (?s bs)) 1 = Some \<lparr>b_kind = MHost, b_bytes = bs\<rparr>" for bs i
    by (simp_all add: hello_demo_state_def hello_start_def)
  have l: "cpu_kind (b_kind ?k)" "local_addr_len client_demo_state = length (b_bytes ?k)" "8 + length (b_bytes ?k) < 2 ^ 64"
    using c(8) by simp_all
  from address_message_round_trip[OF m c(4,5,6,7) l e, where ?'v = "byte list"] show ?thesis
    apply (elim exE conjE)
    subgoal premises p for bs req t
      using p(1) p(2)[THEN spec, of 0, THEN spec, of hello_demo, THEN spec, of 3, THEN spec, of 1, THEN spec, of UCS_OK,
          THEN spec, of 5, THEN spec, of "h_world (?s bs)", THEN spec, of "?s bs"] m
      by (simp add: c s s(4)[simplified] e numeral_2_eq_2) blast
    done
qed

text \<open>
  (C38) The second message, from the server, carries the 16 bytes of the test string behind their
  length, and a client that has received those bytes in managed memory prints the 15 characters,
  returns 0, and has released the message and its endpoint without a fault.
\<close>

theorem text_message_round_trip:
  assumes "server_send fuel api wk ep old s = Some (ret, s')" "heap_wf (h_heap s)" "\<forall>i. \<not> oom (h_heap s) i"
  shows "\<exists>bs req t. h_trace s' = h_trace s @ H_send ep bs 0x1337a880 req # t \<and>
     (\<forall>ep' m (c :: 'v hello).
        heap_wf (h_heap c) \<and> \<not> oom (h_heap c) (attempts (h_heap c)) \<and>
        blocks (h_heap c) m = Some \<lparr>b_kind = MManaged, b_bytes = bs\<rparr> \<longrightarrow>
        (\<exists>c'. client_print (Addr m 0) ep' c = Some (0, c') \<and>
           h_out c' = h_out c @ [Out_text (map test_char [0..<15])] \<and>
           blocks (h_heap c') = (blocks (h_heap c))(m := None) \<and> fault (h_heap c') = fault (h_heap c) \<and>
           h_trace c' = h_trace c @ [H_ep_destroy ep']))"
proof -
  from server_send_sends[OF assms(2,3,1)] obtain req t where
    "h_trace s' = h_trace s @ H_send ep (enc_blob 8 (test_pattern 16 0)) 0x1337a880 req # t" by blast
  then show ?thesis
    by (intro exI[of _ "enc_blob 8 (test_pattern 16 0)"] exI[of _ req] exI[of _ t]) (auto intro: client_prints)
qed

theorem text_message_round_trip_witness:
  "\<exists>s' bs req t. server_send 0 hello_demo 3 5 NULLp (hello_demo_state [] roomy) = Some (0, s') \<and>
     h_trace s' = H_send 5 bs 0x1337a880 req # t \<and>
     (\<exists>c'. client_print (Addr 1 0) 8 (hello_demo_state [] (grown MManaged bs roomy)) = Some (0, c') \<and>
        h_out c' = [Out_text (map test_char [0..<15])])"
proof -
  let ?s = "hello_demo_state [] roomy"
  have s: "heap_wf (h_heap ?s)" "\<forall>i. \<not> oom (h_heap ?s) i" "h_trace ?s = []" "h_heap (hello_demo_state [] h) = h"
    "h_out (hello_demo_state [] h) = []" for h
    by (simp_all add: hello_demo_state_def hello_start_def)
  from server_send_demo[OF s(1,2)] obtain s' where m: "server_send 0 hello_demo 3 5 NULLp ?s = Some (0, s')" by blast
  from text_message_round_trip[OF m s(1,2)] obtain bs req t where "h_trace s' = H_send 5 bs 0x1337a880 req # t"
    and cl: "\<And>ep' k (c :: byte list hello).
        heap_wf (h_heap c) \<and> \<not> oom (h_heap c) (attempts (h_heap c)) \<and>
        blocks (h_heap c) k = Some \<lparr>b_kind = MManaged, b_bytes = bs\<rparr> \<Longrightarrow>
        \<exists>c'. client_print (Addr k 0) ep' c = Some (0, c') \<and> h_out c' = h_out c @ [Out_text (map test_char [0..<15])]"
    unfolding s(3) by (elim exE conjE) (simp, blast)
  moreover have "\<exists>c'. client_print (Addr 1 0) 8 (hello_demo_state [] (grown MManaged bs roomy)) = Some (0, c') \<and>
        h_out c' = [Out_text (map test_char [0..<15])]"
    using cl[of "hello_demo_state [] (grown MManaged bs roomy)" 1 8] by (simp add: s(4,5))
  ultimately show ?thesis using m by auto
qed

section \<open>Waiting\<close>

text \<open>
  (C39) Waiting for a receive ends exactly when its callback runs within the given number of calls of
  progress (at most one call for each unit of fuel). When it ends, the context in the request is reset
  for its next use, and the request is released, once.
\<close>

theorem receive_wait_ends:
  "(recv_finish fuel api wk r s \<noteq> None \<longleftrightarrow>
      (\<exists>k\<le>fuel. h_req (((h_worker_progress api wk) ^^ k) s) r \<noteq> Some False)) \<and>
   (\<forall>s'. recv_finish fuel api wk r s = Some s' \<longrightarrow>
      h_req s' r = Some False \<and> h_trace s' = h_trace s @ [H_request_release r])"
proof (intro conjI allI impI)
  let ?fin = "\<lambda>u. h_req u r \<noteq> Some False" and ?step = "h_worker_progress api wk"
  have "recv_finish fuel api wk r s \<noteq> None \<longleftrightarrow> spin fuel ?fin ?step s \<noteq> None"
    by (simp add: recv_finish_def ucx_wait_def bind_eq_None_conv)
  moreover have "spin fuel ?fin ?step s \<noteq> None \<longleftrightarrow> (\<exists>k\<le>fuel. ?fin ((?step ^^ k) s))"
    using spin_Some_iter[of fuel ?fin ?step s] spin_Some_done[of fuel ?fin ?step s] spin_enough[of ?fin _ ?step s fuel]
    by (metis option.exhaust_sel option.distinct(1))
  ultimately show "recv_finish fuel api wk r s \<noteq> None \<longleftrightarrow> (\<exists>k\<le>fuel. ?fin ((?step ^^ k) s))" by simp
next
  fix s' assume "recv_finish fuel api wk r s = Some s'"
  then obtain u where u: "ucx_wait fuel api wk (\<lambda>s. h_req s r) s = Some u"
    and s': "s' = h_print Out_received (h_request_release r (u\<lparr>h_req := (h_req u)(r \<mapsto> False)\<rparr>))"
    by (auto simp: recv_finish_def bind_eq_Some_conv)
  from s' show "h_req s' r = Some False" by (simp add: h_print_def h_request_release_def h_log_def)
  from s' ucx_wait_trace[OF u] show "h_trace s' = h_trace s @ [H_request_release r]" by (simp add: h_request_release_def)
qed

theorem receive_wait_ends_witness:
  "\<exists>s'. recv_finish 1 (hello_demo\<lparr>hp_progress := (\<lambda>k w. ([Hev_recv 7 UCS_OK 3], w))\<rparr>) 3 7
        ((hello_demo_state [] roomy)\<lparr>h_req := [7 \<mapsto> False]\<rparr>) = Some s' \<and>
     h_req s' 7 = Some False \<and> h_trace s' = [H_request_release 7]"
proof -
  let ?a = "hello_demo\<lparr>hp_progress := (\<lambda>k w. ([Hev_recv 7 UCS_OK 3], w))\<rparr>"
  let ?s = "(hello_demo_state [] roomy)\<lparr>h_req := [7 \<mapsto> False]\<rparr>"
  have "h_req (((h_worker_progress ?a 3) ^^ 1) ?s) 7 \<noteq> Some False"
    by (simp add: h_worker_progress_def hello_demo_def h_dispatch_all_def recv_handler_def h_print_def)
  moreover have "h_trace ?s = []" by (simp add: hello_demo_state_def hello_start_def)
  ultimately show ?thesis using receive_wait_ends[of 1 ?a 3 7 ?s] by fastforce
qed

section \<open>Errors\<close>

text \<open>
  (C40) When the library refuses the receive of the text, the client gives the managed memory it
  allocated with \<open>cudaMallocManaged\<close> to \<open>free\<close>: the behaviour is undefined and the block is still
  allocated. The endpoint is destroyed and the result is -1.
\<close>

theorem refused_receive_frees_managed_memory:
  assumes "hp_probe api wk 0x1337a880 (-1) (h_world s) = (Some (tag, n), w1)" "\<not> oom (h_heap s) (attempts (h_heap s))"
    and "hp_msg_recv api wk (Addr (next_blk (h_heap s)) 0) n tag w1 = (Ptr_ERR e, [], w2)" "fault (h_heap s) = None"
  shows "\<exists>s'. client_receive (Suc fuel) api wk ep old s = Some (-1, s') \<and> fault (h_heap s') = Some BadFree \<and>
     shape (h_heap s') (next_blk (h_heap s)) = Some (MManaged, n) \<and>
     h_trace s' = h_trace s @ [H_recv tag (Ptr_ERR e), H_ep_destroy ep]"
  using assms
  by (simp add: client_receive_def h_probe_def cuda_malloc_cases h_msg_recv_def h_dispatch_all_def err_ep_def h_on_heap_def
      h_log_def c_free_def release_block_def raise_fault_first shape_def)

theorem refused_receive_frees_managed_memory_witness:
  "\<exists>s'. client_receive 1 (hello_demo\<lparr>hp_msg_recv := (\<lambda>k p n m w. (Ptr_ERR UCS_ERR_IO_ERROR, [], w))\<rparr>) 3 5 NULLp
        (hello_demo_state [1, 2, 3] roomy) = Some (-1, s') \<and> fault (h_heap s') = Some BadFree"
proof -
  let ?a = "hello_demo\<lparr>hp_msg_recv := (\<lambda>k p n m w. (Ptr_ERR UCS_ERR_IO_ERROR, [], w))\<rparr>"
  let ?s = "hello_demo_state [1, 2, 3] roomy"
  have "hp_probe ?a 3 0x1337a880 (-1) (h_world ?s) = (Some (6, 3), [1, 2, 3])" "\<not> oom (h_heap ?s) (attempts (h_heap ?s))"
    "hp_msg_recv ?a 3 (Addr (next_blk (h_heap ?s)) 0) 3 6 [1, 2, 3] = (Ptr_ERR UCS_ERR_IO_ERROR, [], [1, 2, 3])" "fault (h_heap ?s) = None"
    by (simp_all add: hello_demo_def hello_demo_state_def hello_start_def)
  from refused_receive_frees_managed_memory[OF this, of 0 5 NULLp] show ?thesis by auto
qed

end
