(* ===== verification/Spec2Isabelle.thy ===== *)
theory Spec2Isabelle
  imports Cs_Properties Config_Properties Rma_Properties Uct_Properties Ucp_Properties
begin

text \<open>
  UCX demonstration programs: a verification library.

  \<^bold>\<open>The programs.\<close> The repository holds four programs built on the UCX communication library.

  \<^item> \<open>01_uct_am_hello_world\<close>: a client sends one active message to a server over the transport layer
    UCT. Both search for a device and a transport, exchange their addresses over a TCP socket, connect
    an endpoint, send (short, buffered or zero-copy) and meet at a barrier.
  \<^item> \<open>02_ucp_tag_GPUP2P_hello_world\<close>: a client gets the server's worker address over TCP and sends its
    own as a tagged message; the server answers with a text in CUDA managed memory.
  \<^item> \<open>03_ucp_am_stream_tag_client_server\<close>: a server that accepts one connection at a time and a client
    exchange a configured number of messages as stream, tag or active messages, then one message back.
  \<^item> \<open>04_ucp_rma_client_server\<close>: a server registers a buffer and advertises it with a handshake over
    TCP; a client reads or writes it remotely. C++ with classes that own UCX handles.

  \<^bold>\<open>Conventions of the model.\<close> UCX, CUDA, the sockets and the resolver are not part of the sources:
  they are records of functions over an arbitrary state \<open>'w\<close> (\<open>ucp_api\<close>, \<open>rma_api\<close>, \<open>uct_api\<close>,
  \<open>ucph_api\<close>, \<open>sock_api\<close>), so a theorem without further hypotheses holds for every behaviour of them. A
  call of the library yields the list of what it does before it returns, which the model then runs
  (callbacks of the program, writes into its memory). Calls that acquire or release something are
  logged in a trace. Memory is the explicit heap of \<open>C_Memory\<close>; an operation that C leaves undefined
  records the first such event in \<open>fault\<close>. A failed \<open>assert\<close> is such a fault, and what the model does
  after it means nothing. Every loop that waits for the library takes \<open>fuel\<close> and is \<open>None\<close> when it runs
  out; fuel only bounds the number of polls, results do not depend on it once it suffices
  (\<open>spin_mono\<close>, \<open>poll_until_mono\<close>), and the termination properties say how much is enough.
  \<open>goto\<close> labels are functions, one for each label. Integers that wrap are words or have their
  truncation written out (\<open>size_t\<close>, \<open>c_int\<close>); where the sources compute with signed integers that can
  leave their range, that is a fault too (\<open>cs_signed\<close>).

  \<^bold>\<open>Shared theories.\<close>

  \<^item> \<open>Ucx_Prelude\<close>: types, polling loops (\<open>arrives\<close>: the library reports something after a number of
    idle polls), and resource accounting: \<open>run_trace\<close> replays a trace and fails
    when something is released that is not live. The locales \<open>resource_protocol\<close> and \<open>traced_program\<close>
    give the rules by which the four programs compose such accounts; each program interprets them.
  \<^item> \<open>C_Memory\<close>: heaps, access, allocation and release, host, CUDA and library memory; the locale
    \<open>block_allocator\<close> is the contract between an allocation function and its release function,
    interpreted for the allocators the sources use.
  \<^item> \<open>C_Lib\<close>: \<open>getopt\<close>, \<open>atoi\<close>, \<open>strtol\<close>, decimal printing, byte order; the locale \<open>option_loop\<close> carries an
    invariant through an option loop and is interpreted for both parsers.
  \<^item> \<open>Byte_Codec\<close>: little-endian integers and length-prefixed blobs; the locales \<open>codec\<close> and \<open>codec_pair\<close>
    state what a wire format promises.
  \<^item> \<open>Hello_World_Util\<close>: the memory helpers and the three variants of \<open>generate_test_string\<close> of the
    \<open>hello_world_util.h\<close> headers. \<open>Oob_Socket\<close>: \<open>connect_common\<close> and \<open>barrier\<close> of the header of 01.

  \<^bold>\<open>Program 03.\<close> \<open>Cs_Config\<close> (settings, \<open>parse_cmd\<close>, socket addresses), \<open>Cs_Transfer\<close> (buffers, callbacks,
  the three message modes), \<open>Cs_Session\<close> (sessions, server loop, \<open>main\<close>); lemmas in \<open>Cs_Resources\<close>
  (ownership of UCP objects), \<open>Cs_Memory\<close> (memory of one message), \<open>Cs_Leak\<close> (memory of a whole run),
  \<open>Cs_Payload\<close> (contents), \<open>Cs_Receive\<close> (the receiving half), \<open>Cs_Order\<close> (order of the transfers),
  \<open>Cs_Automaton\<close> (the server as a state machine) and \<open>Cs_Loopback\<close> (a concrete library); properties in
  \<open>Cs_Properties\<close> and \<open>Config_Properties\<close>. They show that \<open>main\<close> releases the context, the workers, the
  listener, the endpoints and the requests it acquires exactly once (rendezvous descriptors are not
  counted), that a message leaves no memory behind on any path and neither does a whole run, what a message contains,
  that what the client sends is what the server's buffers hold and what it prints in each of the three
  modes, once the library delivers it (\<open>message_arrives\<close>: at once, after some polling, or by rendezvous),
  how many transfers a session makes, that at most one connection is pending, and what settings the command line can give. \<open>Cs_Automaton\<close> states the
  server as the labelled transition system \<open>srv_step\<close>, derives from it when the server may create, use
  and close an endpoint (\<open>ep_legal\<close>) and with which operations of the mode, and shows that the loop of \<open>run_server\<close> runs along it; the locale
  \<open>session_relation\<close> is what a relation between states has to satisfy to be kept by every part of a
  session, interpreted for the simulation and for the endpoints created.

  \<^bold>\<open>Program 04.\<close> \<open>Rma_Wire\<close> (TCP helpers, handshake), \<open>Rma_Objects\<close> (\<open>UcxEnv\<close>, \<open>UcxMem\<close>, \<open>UcxEndpoint\<close>),
  \<open>Rma_Programs\<close> (both mains, with scopes and exceptions), \<open>Rma_Resources\<close> (ownership), \<open>Rma_Properties\<close>:
  the handshake crosses a TCP stream however it is cut and its reader implements the decoder of the
  documented format; the client that returns has released everything, and the running server owns
  exactly its context, worker, registration and listening socket; what an exception leaves behind
  (\<open>leaves\<close>): if the stack is unwound (\<open>leave_scope\<close>, \<open>server_scope\<close>) only the few handles that no
  destructor owns, otherwise also what the objects own; the exact calls of a PUT with their arguments;
  when \<open>wait\<close> returns; ownership through moves. Whether an exception that nothing catches unwinds the
  stack is up to the implementation of C++: it is the parameter \<open>unwind\<close>, and the theorems on exceptions
  state both cases. The endless
  server loop is run for any given number of turns.

  \<^bold>\<open>Program 01.\<close> \<open>Uct_Model\<close> (data, the library, callbacks, the three sends), \<open>Uct_Program\<close> (command
  line, search, address exchange, \<open>main\<close> in stages), \<open>Uct_Resources\<close>, \<open>Uct_Lookup\<close> and \<open>Uct_Ownership\<close>
  (ownership through the search, the stages and the labels), \<open>Uct_Messages\<close> (what is sent), \<open>Uct_Receive\<close>
  (what the server releases, and the exchange over a connection modelled as two pipes), \<open>Uct_Demo\<close>
  (a concrete library), \<open>Uct_Properties\<close>. They show which handles of UCT and the sockets are live when
  \<open>main\<close> ends (memory and received messages are not counted there), that the search leaves open exactly what it found, that each send carries the test string and that the server which gets it
  prints and releases it, that addresses are exchanged, when the polling loops end, and the inputs on
  which the code goes wrong.

  \<^bold>\<open>Program 02.\<close> \<open>Ucp_Hello\<close> (callbacks, messages, client and server), \<open>Ucp_Main\<close> (sockets, \<open>main\<close>),
  \<open>Ucp_Ownership\<close> and \<open>Ucp_Release\<close> (ownership on every path), \<open>Ucp_Leak\<close> (memory of a whole run),
  \<open>Ucp_Messages\<close> (the two messages as blobs), \<open>Ucp_Demo\<close> (a concrete library), \<open>Ucp_Properties\<close>: which
  UCP objects, requests and sockets are live when \<open>main\<close> ends (not the handles of probed messages), that a run without failed allocations and undefined behaviour gives all its
  memory back, the round trip of the address and of the text, when a wait ends, and the release of
  managed memory with \<open>free\<close>.

  \<^bold>\<open>Not modelled.\<close> Text on standard error, usage texts and banners, the time measurement of 03 and
  \<open>ucp_config_print\<close> (pure output); \<open>std::bad_alloc\<close> in 04; the copies of the memory helpers in the
  headers of 01 and 02, which are the same code as the copy in 03; \<open>00_ucx_perftest\<close>, the READMEs and
  the build files, which hold no code.
\<close>

end
